(* ===== verification/Prelude.thy ===== *)
theory Prelude
  imports Complex_Main "HOL-Library.Sublist"
begin

text \<open>
  Shared vocabulary of the development: the Python values and exceptions that
  \<open>src/milabench/instruments.py\<close> manipulates, the event type of the voir bus,
  sliding windows and means over lists, and the generic list lemmas the
  component theories share.  Python integers are unbounded, so they are \<open>int\<close>;
  Python floats are idealised as \<open>real\<close> (rounding is not modelled);
  \<open>time.time_ns()\<close> readings are \<open>int\<close> nanoseconds.
\<close>

named_theorems stream_simps "equations that evaluate the stream operators on a first element"
named_theorems window_simps "equations on sliding windows and their means"

subsection \<open>Python values and exceptions\<close>

text \<open>
  The exceptions the modelled code can raise.  \<open>SequenceContainsNoElements\<close> is the
  error of the reactive \<open>first()\<close>/\<open>last()\<close> operators on an empty stream.
\<close>

datatype py_error =
    IndexError
  | ZeroDivisionError
  | TypeError string
  | KeyError string
  | NotImplementedError string
  | SequenceContainsNoElements
  | ArgumentOutOfRange
  | AttributeError string
  | InvalidTransition
  | ValueError string

text \<open>
  The Python objects that flow through the bus.  \<open>VObj s l\<close> is an opaque host
  object (a tensor, a model) known by its \<open>str()\<close> text \<open>s\<close> and its \<open>len()\<close>, if it
  defines one; a tensor batch of 32 rows is \<open>VObj ''tensor'' (Some 32)\<close>.
\<close>

datatype pyval =
    VInt int
  | VFloat real
  | VStr string
  | VBool bool
  | VNone
  | VList "pyval list"
  | VTuple "pyval list"
  | VDict "(string \<times> pyval) list"
  | VObj string "nat option"

type_synonym pydict = "(string \<times> pyval) list"

text \<open>Python's \<open>len\<close>: defined on sequences, strings, dicts and sized objects.\<close>

fun py_len :: "pyval \<Rightarrow> py_error + nat" where
  "py_len (VList xs) = Inr (length xs)"
| "py_len (VTuple xs) = Inr (length xs)"
| "py_len (VStr s) = Inr (length s)"
| "py_len (VDict d) = Inr (length d)"
| "py_len (VObj _ (Some n)) = Inr n"
| "py_len _ = Inl (TypeError ''object has no len()'')"

text \<open>Python's \<open><\<close> on numbers (\<open>bool\<close> is an \<open>int\<close> subclass); other operands raise.\<close>

fun py_num :: "pyval \<Rightarrow> real option" where
  "py_num (VInt i) = Some (real_of_int i)"
| "py_num (VFloat r) = Some r"
| "py_num (VBool b) = Some (if b then 1 else 0)"
| "py_num _ = None"

definition py_lt :: "pyval \<Rightarrow> pyval \<Rightarrow> py_error + bool" where
  "py_lt a b = (case (py_num a, py_num b) of
       (Some x, Some y) \<Rightarrow> Inr (x < y)
     | _ \<Rightarrow> Inl (TypeError ''< not supported''))"

text \<open>Python truthiness (\<open>if x:\<close>): zero, empty and \<open>None\<close> are false; an object
  with a \<open>len()\<close> is true when the length is not zero, any other object is true.\<close>

fun py_truthy :: "pyval \<Rightarrow> bool" where
  "py_truthy (VInt i) = (i \<noteq> 0)"
| "py_truthy (VFloat r) = (r \<noteq> 0)"
| "py_truthy (VStr s) = (s \<noteq> [])"
| "py_truthy (VBool b) = b"
| "py_truthy VNone = False"
| "py_truthy (VList xs) = (xs \<noteq> [])"
| "py_truthy (VTuple xs) = (xs \<noteq> [])"
| "py_truthy (VDict d) = (d \<noteq> [])"
| "py_truthy (VObj _ l) = (l \<noteq> Some 0)"

text \<open>
  Python's \<open>str\<close> on the values whose text the instruments use: strings, ints in
  decimal, booleans, \<open>None\<close>, and host objects by their recorded text.  The text of
  floats and containers is not computed by this model (the repository only renders
  string descriptions), they all print as \<open>''<value>''\<close>.
\<close>

fun dec_nat :: "nat \<Rightarrow> string" where
  "dec_nat n = (if n < 10 then [char_of (48 + n)] else dec_nat (n div 10) @ [char_of (48 + n mod 10)])"

definition dec_int :: "int \<Rightarrow> string" where
  "dec_int i = (if i < 0 then ''-'' @ dec_nat (nat (- i)) else dec_nat (nat i))"

fun py_str :: "pyval \<Rightarrow> string" where
  "py_str (VStr s) = s"
| "py_str (VInt i) = dec_int i"
| "py_str (VBool b) = (if b then ''True'' else ''False'')"
| "py_str VNone = ''None''"
| "py_str (VObj s _) = s"
| "py_str _ = ''<value>''"

text \<open>Dict lookup (\<open>d.get(k)\<close>) and membership (\<open>k in d\<close>) on an insertion-ordered dict.\<close>

definition py_get :: "pydict \<Rightarrow> string \<Rightarrow> pyval option" where
  "py_get d k = map_of d k"

definition py_has :: "pydict \<Rightarrow> string \<Rightarrow> bool" where
  "py_has d k = (k \<in> fst ` set d)"

lemma py_has_get: "py_has d k \<longleftrightarrow> py_get d k \<noteq> None"
  by (simp add: py_has_def py_get_def map_of_eq_None_iff)

lemma py_get_Cons [simp]:
  "py_get ((a, v) # d) k = (if a = k then Some v else py_get d k)"
  by (simp add: py_get_def)

lemma py_has_Cons [simp]:
  "py_has ((a, v) # d) k = (a = k \<or> py_has d k)"
  by (auto simp: py_has_def)

lemma py_get_Nil [simp]: "py_get [] k = None"
  and py_has_Nil [simp]: "\<not> py_has [] k"
  by (simp_all add: py_get_def py_has_def)

text \<open>Mapping the success value of a Python result.\<close>

lemma map_sum_id_eq_Inr [simp]: "map_sum id f x = Inr r \<longleftrightarrow> (\<exists>y. x = Inr y \<and> r = f y)"
  by (cases x) auto

lemma map_sum_id_eq_Inl [simp]: "map_sum id f x = Inl e \<longleftrightarrow> x = Inl e"
  by (cases x) auto

subsection \<open>Events of the bus\<close>

text \<open>
  An event is one call of \<open>ov.give(**data)\<close>: the dict given and the \<open>time.time_ns()\<close>
  reading at which the synchronous subscribers process it.
\<close>

type_synonym ns = int

record event =
  ev_data :: pydict
  ev_time :: ns

subsection \<open>Sliding windows and means\<close>

text \<open>The last \<open>n\<close> elements of a list (all of them when there are fewer).\<close>

definition lastn :: "nat \<Rightarrow> 'a list \<Rightarrow> 'a list" where
  "lastn n xs = drop (length xs - n) xs"

definition mean :: "real list \<Rightarrow> real" where
  "mean xs = sum_list xs / real (length xs)"

lemma length_lastn [window_simps]: "length (lastn n xs) = min n (length xs)"
  by (simp add: lastn_def)

lemma lastn_short [window_simps]: "length xs \<le> n \<Longrightarrow> lastn n xs = xs"
  by (simp add: lastn_def)

lemma lastn_snoc [window_simps]:
  "0 < n \<Longrightarrow> lastn n (lastn n xs @ [x]) = lastn n (xs @ [x])"
proof (cases "n \<le> length xs")
  case True
  then show ?thesis by (simp add: lastn_def Suc_diff_le)
next
  case False
  then show ?thesis by (simp add: lastn_def)
qed

lemma lastn_suffix: "suffix (lastn n xs) xs"
  by (simp add: lastn_def suffix_drop)

lemma lastn_nonempty [window_simps]: "0 < n \<Longrightarrow> lastn n (xs @ [x]) \<noteq> []"
  by (simp add: lastn_def)

lemma mean_bounds:
  assumes "xs \<noteq> []" and "\<forall>x \<in> set xs. lo \<le> x \<and> x \<le> hi"
  shows "lo \<le> mean xs \<and> mean xs \<le> hi"
proof -
  have n: "0 < real (length xs)" using assms(1) by simp
  have "real (length xs) * lo \<le> sum_list xs"
    using sum_list_mono [of xs "\<lambda>_. lo" "\<lambda>x. x"] assms(2) by (simp add: sum_list_triv)
  moreover have "sum_list xs \<le> real (length xs) * hi"
    using sum_list_mono [of xs "\<lambda>x. x" "\<lambda>_. hi"] assms(2) by (simp add: sum_list_triv)
  ultimately show ?thesis
    using n by (simp add: mean_def field_simps)
qed

subsection \<open>Adjacent pairs\<close>

text \<open>The adjacent pairs of a list, the reference for the \<open>pairwise\<close> operator.\<close>

definition adjacent :: "'a list \<Rightarrow> ('a \<times> 'a) list" where
  "adjacent xs = zip xs (tl xs)"

lemma adjacent_simps [simp]:
  "adjacent [] = []"
  "adjacent [x] = []"
  "adjacent (x # y # xs) = (x, y) # adjacent (y # xs)"
  by (simp_all add: adjacent_def)

lemma length_adjacent: "length (adjacent xs) = length xs - 1"
  by (simp add: adjacent_def)

lemma adjacent_snoc:
  "adjacent (xs @ [x, y]) = adjacent (xs @ [x]) @ [(x, y)]"
  by (induction xs rule: induct_list012) auto

lemma adjacent_map: "adjacent (map f xs) = map (map_prod f f) (adjacent xs)"
  by (induction xs rule: induct_list012) simp_all

lemma subseq_set: "subseq xs ys \<Longrightarrow> set xs \<subseteq> set ys"
  by (auto elim: list_emb_set)

text \<open>Differences of adjacent elements telescope.\<close>

lemma sum_adjacent_diff:
  "xs \<noteq> [] \<Longrightarrow> (\<Sum>(a, b) \<leftarrow> adjacent xs. f b - f a) = f (last xs) - f (hd xs)"
  for f :: "'a \<Rightarrow> int"
  by (induction xs rule: induct_list012) auto


text \<open>A list whose adjacent elements are at least \<open>d\<close> apart spans \<open>d\<close> per gap.\<close>

lemma spaced_span:
  "list_all (\<lambda>(a, b). d \<le> f b - f a) (adjacent xs) \<Longrightarrow> xs \<noteq> [] \<Longrightarrow>
     int (length xs - 1) * d \<le> f (last xs) - f (hd xs)"
  for f :: "'a \<Rightarrow> int"
  by (induction xs rule: induct_list012) (auto simp: algebra_simps)

end
