(* ===== verification/Streams.thy ===== *)
theory Streams
  imports Prelude
begin

text \<open>
  The reactive operators of voir's \<open>ov.given\<close> stream (the giving/rx library, not part
  of \<open>src/\<close>, modelled from spec section 4.4) that \<open>instruments.py\<close> composes.  A stream
  is observed as the finite list of its elements so far, and each operator is a
  transducer: a step \<open>'s \<Rightarrow> 'a \<Rightarrow> 's \<times> 'b list\<close> from its state and one input to its new
  state and the outputs it pushes downstream, run over the list by \<open>run_op\<close>.
  Operators that depend on time take timed elements \<open>(t, x)\<close>, \<open>t\<close> the nanosecond
  reading at which the element is processed.
\<close>

type_synonym ('s, 'a, 'b) op = "'s \<Rightarrow> 'a \<Rightarrow> 's \<times> 'b list"

type_synonym 'a timed = "ns \<times> 'a"

fun run_op :: "('s, 'a, 'b) op \<Rightarrow> 's \<Rightarrow> 'a list \<Rightarrow> 's \<times> 'b list" where
  "run_op f s [] = (s, [])"
| "run_op f s (x # xs) =
     (let r = f s x; q = run_op f (fst r) xs in (fst q, snd r @ snd q))"

abbreviation outputs :: "('s, 'a, 'b) op \<Rightarrow> 's \<Rightarrow> 'a list \<Rightarrow> 'b list" where
  "outputs f s xs \<equiv> snd (run_op f s xs)"

lemma run_op_Cons_fst [stream_simps]:
  "fst (run_op f s (x # xs)) = fst (run_op f (fst (f s x)) xs)"
  by (simp add: Let_def)

lemma run_op_Cons_snd [stream_simps]:
  "snd (run_op f s (x # xs)) = snd (f s x) @ snd (run_op f (fst (f s x)) xs)"
  by (simp add: Let_def)

lemma run_op_append:
  "run_op f s (xs @ ys) =
     (let p = run_op f s xs; q = run_op f (fst p) ys in (fst q, snd p @ snd q))"
  by (induction xs arbitrary: s) (simp_all add: Let_def)

lemma outputs_snoc:
  "outputs f s (xs @ [x]) = outputs f s xs @ snd (f (fst (run_op f s xs)) x)"
  by (simp add: run_op_append Let_def)

lemma run_op_snoc_fst:
  "fst (run_op f s (xs @ [x])) = fst (f (fst (run_op f s xs)) x)"
  by (simp add: run_op_append Let_def)

declare run_op.simps(2) [simp del]
lemmas run_op_Cons [simp] = run_op_Cons_fst run_op_Cons_snd

subsection \<open>Selecting from the bus: \<open>where\<close> and \<open>getitem\<close>\<close>

text \<open>
  \<open>ov.given.where(k1, ..., kn)\<close> keeps the events whose dict has every key;
  \<open>where("!k")\<close> keeps those without \<open>k\<close>.  \<open>ov.given["?k"]\<close> and
  \<open>getitem(k, strict=False)\<close> keep the events that have \<open>k\<close> and project its value.
\<close>

definition where_keys :: "string list \<Rightarrow> event \<Rightarrow> bool" where
  "where_keys ks e = list_all (py_has (ev_data e)) ks"

definition where_not :: "string \<Rightarrow> event \<Rightarrow> bool" where
  "where_not k e = (\<not> py_has (ev_data e) k)"

definition getitem :: "string \<Rightarrow> event list \<Rightarrow> pyval timed list" where
  "getitem k evs = List.map_filter (\<lambda>e. map_option (Pair (ev_time e)) (py_get (ev_data e) k)) evs"

lemma getitem_simps [simp]:
  "getitem k [] = []"
  "getitem k (e # evs) =
     (case py_get (ev_data e) k of
        None \<Rightarrow> getitem k evs
      | Some v \<Rightarrow> (ev_time e, v) # getitem k evs)"
  by (simp_all add: getitem_def List.map_filter_def split: option.split)

lemma getitem_append: "getitem k (xs @ ys) = getitem k xs @ getitem k ys"
  by (simp add: getitem_def List.map_filter_def)

subsection \<open>\<open>pairwise()\<close>\<close>

text \<open>The state is the previous element, if any; each element after the first emits
  the pair (previous, current).\<close>

fun pairwise_step :: "('a option, 'a, 'a \<times> 'a) op" where
  "pairwise_step None x = (Some x, [])"
| "pairwise_step (Some p) x = (Some x, [(p, x)])"

lemma pairwise_from [stream_simps]:
  "outputs pairwise_step (Some p) xs = adjacent (p # xs)"
  by (induction xs arbitrary: p) simp_all

lemma pairwise_adjacent [stream_simps]: "outputs pairwise_step None xs = adjacent xs"
  by (cases xs) (simp_all add: pairwise_from)

subsection \<open>\<open>roll(n)\<close> and \<open>average(scan=n)\<close>\<close>

text \<open>\<open>roll(n)\<close> keeps the last \<open>n\<close> elements and emits the window after each element,
  partial windows included; \<open>average(scan=n)\<close> emits the mean of that window.\<close>

definition roll_step :: "nat \<Rightarrow> ('a list, 'a, 'a list) op" where
  "roll_step n w x = (let w' = lastn n (w @ [x]) in (w', [w']))"

definition average_step :: "nat \<Rightarrow> (real list, real, real) op" where
  "average_step n w x = (let w' = lastn n (w @ [x]) in (w', [mean w']))"

lemma roll_state [window_simps]:
  "0 < n \<Longrightarrow> fst (run_op (roll_step n) (lastn n ys) xs) = lastn n (ys @ xs)"
proof (induction xs arbitrary: ys)
  case Nil
  then show ?case by (simp add: lastn_def)
next
  case (Cons x xs)
  have "fst (roll_step n (lastn n ys) x) = lastn n (ys @ [x])"
    using Cons.prems by (simp add: roll_step_def lastn_snoc Let_def)
  then show ?case using Cons.IH [OF Cons.prems, of "ys @ [x]"] by simp
qed

lemma average_is_mean_roll:
  "outputs (average_step n) w xs = map mean (outputs (roll_step n) w xs)"
  by (induction xs arbitrary: w) (simp_all add: average_step_def roll_step_def Let_def)

lemma roll_outputs:
  "0 < n \<Longrightarrow>
     outputs (roll_step n) (lastn n ys) xs = map (\<lambda>k. lastn n (ys @ take (Suc k) xs)) [0..<length xs]"
proof (induction xs arbitrary: ys)
  case Nil
  then show ?case by simp
next
  case (Cons x xs)
  have st: "fst (roll_step n (lastn n ys) x) = lastn n (ys @ [x])"
    using Cons.prems by (simp add: roll_step_def lastn_snoc Let_def)
  have out: "snd (roll_step n (lastn n ys) x) = [lastn n (ys @ [x])]"
    using Cons.prems by (simp add: roll_step_def lastn_snoc Let_def)
  show ?case
    using Cons.IH [OF Cons.prems, of "ys @ [x]"] st out by (simp add: map_upt_Suc del: upt_Suc)
qed

lemma average_outputs:
  "0 < n \<Longrightarrow>
     outputs (average_step n) [] xs = map (\<lambda>k. mean (lastn n (take (Suc k) xs))) [0..<length xs]"
  using roll_outputs [of n "[]" xs] by (simp add: average_is_mean_roll lastn_def)

subsection \<open>\<open>throttle(d)\<close>\<close>

text \<open>
  Throttle-first: an element passes when nothing has passed yet or at least \<open>d\<close>
  nanoseconds have elapsed since the last element that passed; the others are
  dropped, not queued.  The state is the time of the last element that passed.
\<close>

fun throttle_step :: "ns \<Rightarrow> (ns option, 'a timed, 'a timed) op" where
  "throttle_step d None (t, x) = (Some t, [(t, x)])"
| "throttle_step d (Some t0) (t, x) =
     (if d \<le> t - t0 then (Some t, [(t, x)]) else (Some t0, []))"

lemma throttle_from:
  "list_all (\<lambda>(a, b). d \<le> fst b - fst a)
     (adjacent (p # outputs (throttle_step d) (Some (fst p)) xs))"
proof (induction xs arbitrary: p)
  case Nil
  then show ?case by simp
next
  case (Cons x xs)
  obtain t v where x: "x = (t, v)" by (cases x)
  show ?case
  proof (cases "d \<le> t - fst p")
    case True
    then show ?thesis using Cons.IH [of x] x by simp
  next
    case False
    then show ?thesis using Cons.IH [of p] x by simp
  qed
qed

lemma throttle_spaced:
  "list_all (\<lambda>(a, b). d \<le> fst b - fst a) (adjacent (outputs (throttle_step d) None xs))"
proof (cases xs)
  case Nil
  then show ?thesis by simp
next
  case (Cons x xs')
  then show ?thesis using throttle_from [of d x xs'] by (cases x) simp
qed

lemma throttle_subseq: "subseq (outputs (throttle_step d) s xs) xs"
proof (induction xs arbitrary: s)
  case Nil
  then show ?case by simp
next
  case (Cons x xs)
  obtain t v where x: "x = (t, v)" by (cases x)
  show ?case
  proof (cases s)
    case None
    then show ?thesis using Cons.IH x by simp
  next
    case (Some t0)
    then show ?thesis using Cons.IH x by (auto simp: subseq_Cons2)
  qed
qed

lemma throttle_span:
  "outputs (throttle_step d) None xs \<noteq> [] \<Longrightarrow>
     int (length (outputs (throttle_step d) None xs) - 1) * d \<le>
       fst (last (outputs (throttle_step d) None xs)) - fst (hd (outputs (throttle_step d) None xs))"
  using spaced_span [OF throttle_spaced] .

subsection \<open>\<open>skip(n)\<close> and \<open>map_indexed(f)\<close>\<close>

text \<open>Both count the elements seen so far; the counter is their state.\<close>

definition skip_step :: "nat \<Rightarrow> (nat, 'a, 'a) op" where
  "skip_step n i x = (Suc i, if n \<le> i then [x] else [])"

definition map_indexed_step :: "('a \<Rightarrow> nat \<Rightarrow> 'b) \<Rightarrow> (nat, 'a, 'b) op" where
  "map_indexed_step f i x = (Suc i, [f x i])"

lemma skip_outputs [stream_simps]:
  "outputs (skip_step n) i xs = drop (n - i) xs"
proof (induction xs arbitrary: i)
  case Nil
  then show ?case by simp
next
  case (Cons x xs)
  show ?case
  proof (cases "n \<le> i")
    case True
    with Cons.IH show ?thesis by (simp add: skip_step_def)
  next
    case False
    then have "n - i = Suc (n - Suc i)" by arith
    with False Cons.IH show ?thesis by (simp add: skip_step_def)
  qed
qed

lemma map_indexed_outputs [stream_simps]:
  "outputs (map_indexed_step f) i xs = map2 f xs [i..<i + length xs]"
proof (induction xs arbitrary: i)
  case Nil
  then show ?case by simp
next
  case (Cons x xs)
  then show ?case by (simp add: map_indexed_step_def upt_rec)
qed

lemma run_counter_state:
  "fst (run_op (skip_step n) i xs) = i + length xs"
  "fst (run_op (map_indexed_step f) i xs) = i + length xs"
  by (induction xs arbitrary: i) (simp_all add: skip_step_def map_indexed_step_def)

subsection \<open>\<open>buffer_with_time(d)\<close>\<close>

text \<open>
  The buffer collects elements and is flushed by a timer, not by a count: at every
  deadline \<open>t0, t0 + d, t0 + 2d, ...\<close> it emits its contents (possibly empty) and
  starts afresh.  The input is the merged timeline of the stream's elements and the
  timer's readings, so an idle stream still flushes on schedule.  The state is the
  next deadline and the pending buffer; \<open>flush_due d t\<close> fires every deadline not
  later than \<open>t\<close>, in order, before an element processed at \<open>t\<close> is appended.
\<close>

datatype 'a clock_in = Item ns 'a | Tick ns

function flush_due :: "ns \<Rightarrow> ns \<Rightarrow> ns \<times> 'a list \<Rightarrow> (ns \<times> 'a list) \<times> 'a list list" where
  "flush_due d t (nxt, buf) =
     (if 0 < d \<and> nxt \<le> t
      then (let r = flush_due d t (nxt + d, []) in (fst r, buf # snd r))
      else ((nxt, buf), []))"
  by pat_completeness auto
termination
  by (relation "measure (\<lambda>(d, t, nxt, _). nat (t - nxt + 1))") auto

declare flush_due.simps [simp del]

fun buffer_step :: "ns \<Rightarrow> (ns \<times> 'a list, 'a clock_in, 'a list) op" where
  "buffer_step d st (Item t x) =
     (let r = flush_due d t st in ((fst (fst r), snd (fst r) @ [x]), snd r))"
| "buffer_step d st (Tick t) = flush_due d t st"

fun items :: "'a clock_in list \<Rightarrow> 'a list" where
  "items [] = []"
| "items (Item t x # xs) = x # items xs"
| "items (Tick t # xs) = items xs"

text \<open>A flush loses nothing: the emitted buffers and the new pending one are the old one.\<close>

lemma flush_due_concat:
  "concat (snd (flush_due d t (nxt, buf))) @ snd (fst (flush_due d t (nxt, buf))) = buf"
proof (induction d t "(nxt, buf)" arbitrary: nxt buf rule: flush_due.induct)
  case (1 d t nxt buf)
  then show ?case
    by (subst (1 2) flush_due.simps) (simp add: Let_def)
qed

lemma flush_due_count:
  "length (snd (flush_due d t (nxt, buf))) =
     (if 0 < d \<and> nxt \<le> t then nat ((t - nxt) div d) + 1 else 0)"
proof (induction d t "(nxt, buf)" arbitrary: nxt buf rule: flush_due.induct)
  case (1 d t nxt buf)
  show ?case
  proof (cases "0 < d \<and> nxt \<le> t")
    case True
    then have IH: "length (snd (flush_due d t (nxt + d, [] :: 'a list))) =
        (if nxt + d \<le> t then nat ((t - (nxt + d)) div d) + 1 else 0)"
      using "1" by simp
    have "nat ((t - nxt) div d) = (if nxt + d \<le> t then nat ((t - (nxt + d)) div d) + 1 else 0)"
    proof (cases "nxt + d \<le> t")
      case True
      have e: "t - nxt = (t - (nxt + d)) + d" by simp
      have "(t - nxt) div d = (t - (nxt + d)) div d + 1"
      proof -
        have "(t - (nxt + d) + d) div d = (t - (nxt + d)) div d + 1"
          by (rule div_add_self2) (use \<open>0 < d \<and> nxt \<le> t\<close> in simp)
        then show ?thesis by (simp only: e [symmetric])
      qed
      moreover have "0 \<le> (t - (nxt + d)) div d"
        using True \<open>0 < d \<and> nxt \<le> t\<close> by (simp add: pos_imp_zdiv_nonneg_iff)
      ultimately show ?thesis using True by simp
    next
      case False
      then have "(t - nxt) div d = 0"
        using \<open>0 < d \<and> nxt \<le> t\<close> by (simp add: div_pos_pos_trivial)
      with False show ?thesis by simp
    qed
    moreover have "length (snd (flush_due d t (nxt, buf))) =
        Suc (length (snd (flush_due d t (nxt + d, [] :: 'a list))))"
      using True by (subst flush_due.simps) (simp add: Let_def)
    ultimately show ?thesis using True IH by presburger
  next
    case False
    then show ?thesis by (subst flush_due.simps) auto
  qed
qed

lemma flush_due_concat_st:
  "concat (snd (flush_due d t st)) @ snd (fst (flush_due d t st)) = snd st"
  using flush_due_concat [of d t "fst st" "snd st"] by simp

lemma buffer_conserves_gen:
  "concat (outputs (buffer_step d) st xs) @ snd (fst (run_op (buffer_step d) st xs)) =
     snd st @ items xs"
proof (induction xs arbitrary: st)
  case Nil
  then show ?case by simp
next
  case (Cons x xs)
  show ?case
  proof (cases x)
    case (Item t v)
    let ?r = "flush_due d t st"
    have "concat (snd ?r) @ snd (fst ?r) = snd st" by (rule flush_due_concat_st)
    then show ?thesis
      using Cons.IH [of "(fst (fst ?r), snd (fst ?r) @ [v])"] Item
      by (simp add: Let_def)
  next
    case (Tick t)
    then show ?thesis
      using Cons.IH [of "fst (flush_due d t st)"] flush_due_concat_st [of d t st]
      by simp
  qed
qed

text \<open>
  An operator on plain elements applied inside a timeline: each element keeps the
  time at which it was processed, and the timer readings pass through untouched
  (the timer of \<open>buffer_with_time\<close> is independent of the operators upstream).
\<close>

fun lift_item :: "('s, 'a, 'b) op \<Rightarrow> ('s, 'a clock_in, 'b clock_in) op" where
  "lift_item f s (Item t x) = (fst (f s x), map (Item t) (snd (f s x)))"
| "lift_item f s (Tick t) = (s, [Tick t])"

lemma items_append [simp]: "items (xs @ ys) = items xs @ items ys"
  by (induction xs rule: items.induct) simp_all

lemma items_map_Item [simp]: "items (map (Item t) xs) = xs"
  by (induction xs) simp_all

lemma items_lift_item:
  "items (outputs (lift_item f) s xs) = outputs f s (items xs)"
proof (induction xs arbitrary: s)
  case Nil
  then show ?case by simp
next
  case (Cons x xs)
  then show ?case by (cases x) simp_all
qed

subsection \<open>\<open>map(f)\<close> with a function that may raise, and timed elements\<close>

text \<open>
  An exception in the function of a \<open>map\<close> sends \<open>on_error\<close> downstream and ends the
  subscription: the result is the mapped prefix and the error, if any.
\<close>

fun map_raise :: "('a \<Rightarrow> py_error + 'b) \<Rightarrow> 'a list \<Rightarrow> 'b list \<times> py_error option" where
  "map_raise f [] = ([], None)"
| "map_raise f (x # xs) =
     (case f x of
        Inl err \<Rightarrow> ([], Some err)
      | Inr y \<Rightarrow> (let r = map_raise f xs in (y # fst r, snd r)))"

lemma map_raise_ok:
  "(\<forall>x \<in> set xs. \<exists>y. f x = Inr y) \<Longrightarrow>
     map_raise f xs = (map (\<lambda>x. projr (f x)) xs, None)"
  by (induction xs) (auto simp: Let_def)

lemma map_raise_append:
  "snd (map_raise f xs) = None \<Longrightarrow>
     map_raise f (xs @ ys) = (fst (map_raise f xs) @ fst (map_raise f ys), snd (map_raise f ys))"
  by (induction xs) (auto simp: Let_def split: sum.splits)

lemma map_raise_prefix:
  "prefix (fst (map_raise f xs)) (map (\<lambda>x. projr (f x)) xs)"
  by (induction xs) (auto simp: Let_def split: sum.split)

text \<open>An operator on values applied to timed elements: each output keeps its input's time.\<close>

definition timed_op :: "('s, 'a, 'b) op \<Rightarrow> ('s, 'a timed, 'b timed) op" where
  "timed_op f s x = (fst (f s (snd x)), map (Pair (fst x)) (snd (f s (snd x))))"

lemma timed_op_outputs:
  "map snd (outputs (timed_op f) s xs) = outputs f s (map snd xs)"
  by (induction xs arbitrary: s) (simp_all add: timed_op_def comp_def)

lemma timed_op_single:
  "(\<forall>s x. length (snd (f s x)) = 1) \<Longrightarrow>
     outputs (timed_op f) s xs = zip (map fst xs) (outputs f s (map snd xs))"
proof (induction xs arbitrary: s)
  case Nil
  then show ?case by simp
next
  case (Cons x xs)
  have "length (snd (f s (snd x))) = 1" using Cons.prems by blast
  then obtain y where "snd (f s (snd x)) = [y]"
    by (cases "snd (f s (snd x))") auto
  then show ?case using Cons by (simp add: timed_op_def)
qed

lemma timed_op_times:
  "(\<forall>s x. length (snd (f s x)) = 1) \<Longrightarrow> map fst (outputs (timed_op f) s xs) = map fst xs"
proof (induction xs arbitrary: s)
  case Nil
  then show ?case by simp
next
  case (Cons x xs)
  have "length (snd (f s (snd x))) = 1" using Cons.prems by blast
  then obtain y where "snd (f s (snd x)) = [y]"
    by (cases "snd (f s (snd x))") auto
  then show ?case using Cons by (simp add: timed_op_def)
qed

lemma average_step_single: "\<forall>s x. length (snd (average_step n s x)) = 1"
  by (simp add: average_step_def Let_def)

lemma timed_average_outputs:
  "0 < n \<Longrightarrow> outputs (timed_op (average_step n)) [] xs =
     map (\<lambda>k. (fst (xs ! k), mean (lastn n (take (Suc k) (map snd xs))))) [0..<length xs]"
proof -
  assume n: "0 < n"
  have "outputs (timed_op (average_step n)) [] xs =
      zip (map fst xs) (outputs (average_step n) [] (map snd xs))"
    using average_step_single by (rule timed_op_single)
  also have "\<dots> = zip (map fst xs)
      (map (\<lambda>k. mean (lastn n (take (Suc k) (map snd xs)))) [0..<length (map snd xs)])"
    using n by (simp only: average_outputs)
  also have "\<dots> = map (\<lambda>k. (fst (xs ! k), mean (lastn n (take (Suc k) (map snd xs))))) [0..<length xs]"
    by (rule nth_equalityI) simp_all
  finally show ?thesis .
qed

subsection \<open>Reductions: \<open>first()\<close>, \<open>last()\<close>, \<open>first_or_default\<close>, \<open>is_empty()\<close>\<close>

text \<open>
  These reduce the whole observed stream and resolve when it completes (at teardown);
  \<open>first()\<close> and \<open>last()\<close> of an empty stream end in an error, not a value.
\<close>

definition first_of :: "'a list \<Rightarrow> py_error + 'a" where
  "first_of xs = (case xs of [] \<Rightarrow> Inl SequenceContainsNoElements | x # _ \<Rightarrow> Inr x)"

definition last_of :: "'a list \<Rightarrow> py_error + 'a" where
  "last_of xs = (if xs = [] then Inl SequenceContainsNoElements else Inr (last xs))"

definition first_or_default :: "'a \<Rightarrow> 'a list \<Rightarrow> 'a" where
  "first_or_default d xs = (case xs of [] \<Rightarrow> d | x # _ \<Rightarrow> x)"

definition is_empty :: "'a list \<Rightarrow> bool" where
  "is_empty xs = (xs = [])"

end
