(* ===== verification/TrainRate.thy ===== *)
theory TrainRate
  imports Streams
begin

text \<open>
  The \<open>train_rate\<close> instrument (\<open>src/milabench/instruments.py\<close>, lines 114-152).
  At \<open>load_script\<close> it subscribes to the events carrying \<open>step\<close> and \<open>batch\<close>, turns
  each into a sample (processing time, \<open>len(batch)\<close>), pairs consecutive samples,
  buffers the pairs for one second, and on each flush gives
  \<open>train_rate = n / t\<close>: the batch sizes of the first elements of the pairs over the
  summed time differences, plus the duration of a CUDA synchronisation when one was
  requested by a \<open>use_cuda\<close> event.  The pipeline stages are defined one by one, then
  composed event by event as \<open>train_rate_on\<close>, with the \<open>use_cuda\<close> subscription,
  the per-window \<open>synchronize()\<close> calls and the error that ends the pipeline.
\<close>

record sample =
  s_time :: ns
  s_batch_size :: nat

text \<open>
  \<open>kmap(batch_size=len(batch))\<close>, \<open>augment(time=time.time_ns())\<close>, \<open>keep(...)\<close>:
  an event processed at time \<open>t\<close> becomes a sample; \<open>len\<close> of a batch without a
  length raises.
\<close>

definition train_sample :: "ns \<Rightarrow> event \<Rightarrow> py_error + sample" where
  "train_sample t e =
     (case py_get (ev_data e) ''batch'' of
        None \<Rightarrow> Inl (KeyError ''batch'')
      | Some b \<Rightarrow>
          (case py_len b of
             Inl err \<Rightarrow> Inl err
           | Inr n \<Rightarrow> Inr \<lparr>s_time = t, s_batch_size = n\<rparr>))"

text \<open>
  The sample stream over the bus timeline: \<open>where("step", "batch")\<close> selects the
  events, timer readings pass through, and the first error ends the stream (an
  rx pipeline stops at \<open>on_error\<close>): the result is the samples before it and the error.
\<close>

fun train_samples :: "event clock_in list \<Rightarrow> sample clock_in list \<times> py_error option" where
  "train_samples [] = ([], None)"
| "train_samples (Tick t # xs) = (let r = train_samples xs in (Tick t # fst r, snd r))"
| "train_samples (Item t e # xs) =
     (if where_keys [''step'', ''batch''] e then
        (case train_sample t e of
           Inl err \<Rightarrow> ([], Some err)
         | Inr s \<Rightarrow> (let r = train_samples xs in (Item t s # fst r, snd r)))
      else train_samples xs)"

text \<open>
  \<open>pairwise().buffer_with_time(1.0)\<close>, subscribed at time \<open>t0\<close>: the windows of
  pairs handed to the subscriber, and the run's final state (deadline, pending pairs).
\<close>

definition train_rate_run ::
  "ns \<Rightarrow> sample clock_in list \<Rightarrow> (ns \<times> (sample \<times> sample) list) \<times> (sample \<times> sample) list list" where
  "train_rate_run t0 xs =
     run_op (buffer_step 1000000000) (t0 + 1000000000, [])
       (outputs (lift_item pairwise_step) None xs)"

text \<open>
  The subscriber of one flushed window.  \<open>sync\<close> is \<open>None\<close> when no synchronisation
  function was set, and \<open>Some c\<close> when \<open>torch.cuda.synchronize()\<close> was called and took
  \<open>c\<close> nanoseconds (\<open>t1 - t0\<close>).  The rate is given only when \<open>n\<close> and \<open>t\<close> are
  both non-zero.
\<close>

definition train_rate_flush :: "ns option \<Rightarrow> (sample \<times> sample) list \<Rightarrow> pydict option" where
  "train_rate_flush sync elems =
     (let t = (case sync of None \<Rightarrow> 0 | Some c \<Rightarrow> c)
              + (\<Sum>(e1, e2) \<leftarrow> elems. s_time e2 - s_time e1);
          n = (\<Sum>(e1, e2) \<leftarrow> elems. s_batch_size e1);
          secs = real_of_int t / 1000000000
      in if n \<noteq> 0 \<and> secs \<noteq> 0
         then Some [(''train_rate'', VFloat (real n / secs)), (''units'', VStr ''items/s'')]
         else None)"

text \<open>
  \<open>ov.given["?use_cuda"].first_or_default(False) >> setsync\<close>: a synchronisation
  function is set when the first \<open>use_cuda\<close> value given is truthy.
\<close>

definition train_rate_sync :: "event list \<Rightarrow> bool" where
  "train_rate_sync evs = py_truthy (first_or_default (VBool False) (map snd (getitem ''use_cuda'' evs)))"

subsection \<open>The instrument end to end\<close>

text \<open>
  The instrument's state over a run: \<open>sync\<close> as decided by the first \<open>use_cuda\<close>
  value (\<open>None\<close> while \<open>first_or_default\<close> has not fired, \<open>Some b\<close> once
  \<open>setsync(b)\<close> ran: the function is set when \<open>b\<close> is truthy), the state of
  \<open>pairwise()\<close> and of \<open>buffer_with_time(1.0)\<close>, the number of
  \<open>torch.cuda.synchronize()\<close> calls made so far, and the error that ended the
  \<open>times\<close> pipeline, if any.
\<close>

record tr_state =
  tr_use_cuda :: "bool option"
  tr_prev :: "sample option"
  tr_buf :: "ns \<times> (sample \<times> sample) list"
  tr_syncs :: nat
  tr_err :: "py_error option"

text \<open>At \<open>load_script\<close>, time \<open>t0\<close>: no sync, no pending sample, first deadline \<open>t0 + 1s\<close>.\<close>

definition tr_init :: "ns \<Rightarrow> tr_state" where
  "tr_init t0 = \<lparr>tr_use_cuda = None, tr_prev = None, tr_buf = (t0 + 1000000000, []),
                  tr_syncs = 0, tr_err = None\<rparr>"

text \<open>
  \<open>ov.given["?use_cuda"].first_or_default(False) >> setsync\<close>: only the first
  \<open>use_cuda\<close> value given reaches \<open>setsync\<close>.
\<close>

definition set_sync :: "tr_state \<Rightarrow> event \<Rightarrow> tr_state" where
  "set_sync s e =
     (case (tr_use_cuda s, py_get (ev_data e) ''use_cuda'') of
        (None, Some v) \<Rightarrow> s\<lparr>tr_use_cuda := Some (py_truthy v)\<rparr>
      | _ \<Rightarrow> s)"

text \<open>
  The subscriber \<open>_\<close> on the windows flushed at one instant, in order.  With a sync
  function each call (empty windows included) calls \<open>synchronize()\<close>; the \<open>k\<close>-th call of
  the run takes \<open>cost k\<close> nanoseconds.
\<close>

fun flush_windows ::
  "(nat \<Rightarrow> ns) \<Rightarrow> bool \<Rightarrow> nat \<Rightarrow> (sample \<times> sample) list list \<Rightarrow> nat \<times> pydict list" where
  "flush_windows cost cu k [] = (k, [])"
| "flush_windows cost cu k (w # ws) =
     (let r = flush_windows cost cu (if cu then Suc k else k) ws
      in (fst r, (case train_rate_flush (if cu then Some (cost k) else None) w of
                    None \<Rightarrow> [] | Some d \<Rightarrow> [d]) @ snd r))"

definition tr_flush ::
  "(nat \<Rightarrow> ns) \<Rightarrow> tr_state \<Rightarrow> (sample \<times> sample) list list \<Rightarrow> tr_state \<times> pydict list" where
  "tr_flush cost s ws =
     (let r = flush_windows cost (tr_use_cuda s = Some True) (tr_syncs s) ws
      in (s\<lparr>tr_syncs := fst r\<rparr>, snd r))"

text \<open>
  The \<open>times\<close> pipeline on one input of the bus timeline: a timer instant flushes
  the windows due; a \<open>step\<close>/\<open>batch\<close> event becomes a sample, pairs with the
  previous one, and the pair enters the buffer after the due windows are flushed.  A
  \<open>len\<close> error ends the pipeline (its subscription is disposed, the timer with it).
\<close>

fun tr_times :: "(nat \<Rightarrow> ns) \<Rightarrow> (tr_state, event clock_in, pydict) op" where
  "tr_times cost s (Tick t) =
     (if tr_err s \<noteq> None then (s, [])
      else let r = flush_due 1000000000 t (tr_buf s) in tr_flush cost (s\<lparr>tr_buf := fst r\<rparr>) (snd r))"
| "tr_times cost s (Item t e) =
     (if tr_err s \<noteq> None \<or> \<not> where_keys [''step'', ''batch''] e then (s, [])
      else case train_sample t e of
        Inl err \<Rightarrow> (s\<lparr>tr_err := Some err\<rparr>, [])
      | Inr x \<Rightarrow>
          (case tr_prev s of
             None \<Rightarrow> (s\<lparr>tr_prev := Some x\<rparr>, [])
           | Some p \<Rightarrow>
               let r = flush_due 1000000000 t (tr_buf s)
               in tr_flush cost (s\<lparr>tr_prev := Some x,
                                   tr_buf := (fst (fst r), snd (fst r) @ [(p, x)])\<rparr>) (snd r)))"

text \<open>
  One input for the whole instrument.  Windows due at an event's time were flushed by
  the timer before it, so they see the sync state before the event's own
  \<open>use_cuda\<close> value is handled.
\<close>

fun train_rate_on :: "(nat \<Rightarrow> ns) \<Rightarrow> (tr_state, event clock_in, pydict) op" where
  "train_rate_on cost s (Tick t) = tr_times cost s (Tick t)"
| "train_rate_on cost s (Item t e) =
     (let r = tr_times cost s (Item t e) in (set_sync (fst r) e, snd r))"

subsection \<open>Sums over adjacent pairs\<close>

lemma sum_first_of_adjacent:
  "(\<Sum>(e1, e2) \<leftarrow> adjacent xs. f e1) = sum_list (map f (butlast xs))"
  by (induction xs rule: induct_list012) simp_all

lemma sum_time_adjacent:
  "ss \<noteq> [] \<Longrightarrow> (\<Sum>(e1, e2) \<leftarrow> adjacent ss. s_time e2 - s_time e1) = s_time (last ss) - s_time (hd ss)"
  by (rule sum_adjacent_diff)

subsection \<open>The instrument end to end: lemmas\<close>

lemma flush_windows_append:
  "flush_windows cost cu k (ws @ vs) =
     (let r = flush_windows cost cu k ws; q = flush_windows cost cu (fst r) vs in (fst q, snd r @ snd q))"
  by (induction ws arbitrary: k) (simp_all add: Let_def)

lemma flush_windows_count:
  "fst (flush_windows cost cu k ws) = (if cu then k + length ws else k)"
  by (induction ws arbitrary: k) (simp_all add: Let_def)

lemma flush_windows_plain:
  "snd (flush_windows cost False k ws) = List.map_filter (train_rate_flush None) ws"
  by (induction ws arbitrary: k) (simp_all add: Let_def map_filter_simps split: option.split)

lemma flush_windows_cuda:
  "snd (flush_windows cost True k ws) =
     List.map_filter (\<lambda>(i, w). train_rate_flush (Some (cost i)) w) (zip [k..<k + length ws] ws)"
proof (induction ws arbitrary: k)
  case Nil
  then show ?case by (simp add: map_filter_simps)
next
  case (Cons w ws)
  have "[k..<k + length (w # ws)] = k # [Suc k..<Suc k + length ws]"
    by (simp add: upt_rec)
  then show ?case
    using Cons by (simp add: Let_def map_filter_simps split: option.split)
qed

lemma set_sync_keeps [simp]:
  "tr_prev (set_sync s e) = tr_prev s" "tr_buf (set_sync s e) = tr_buf s"
  "tr_syncs (set_sync s e) = tr_syncs s" "tr_err (set_sync s e) = tr_err s"
  by (simp_all add: set_sync_def split: option.split prod.split)

lemma tr_times_use_cuda [simp]: "tr_use_cuda (fst (tr_times cost s x)) = tr_use_cuda s"
  by (cases x) (simp_all add: tr_flush_def Let_def split: sum.split option.split)

lemma set_sync_use_cuda [simp]:
  "tr_use_cuda (set_sync s e) =
     (case tr_use_cuda s of None \<Rightarrow> map_option py_truthy (py_get (ev_data e) ''use_cuda'') | c \<Rightarrow> c)"
  by (simp add: set_sync_def split: option.split)

lemma train_rate_on_Item [simp]:
  "fst (train_rate_on cost s (Item t e)) = set_sync (fst (tr_times cost s (Item t e))) e"
  "snd (train_rate_on cost s (Item t e)) = snd (tr_times cost s (Item t e))"
  by (simp_all add: Let_def)

declare train_rate_on.simps(2) [simp del]

lemma tr_errored:
  "tr_err s \<noteq> None \<Longrightarrow>
     snd (run_op (train_rate_on cost) s xs) = [] \<and>
     tr_err (fst (run_op (train_rate_on cost) s xs)) = tr_err s \<and>
     tr_syncs (fst (run_op (train_rate_on cost) s xs)) = tr_syncs s"
proof (induction xs arbitrary: s)
  case (Cons x xs)
  then show ?case by (cases x) simp_all
qed simp

lemma train_rate_on_use_cuda:
  "tr_use_cuda (fst (run_op (train_rate_on cost) s xs)) =
     (case tr_use_cuda s of
        None \<Rightarrow> (case getitem ''use_cuda'' (items xs) of [] \<Rightarrow> None | v # _ \<Rightarrow> Some (py_truthy (snd v)))
      | Some c \<Rightarrow> Some c)"
proof (induction xs arbitrary: s)
  case (Cons x xs)
  then show ?case
    by (cases x) (simp_all del: tr_times.simps split: option.split)
qed (simp split: option.split)

lemma train_rate_on_pipeline:
  assumes "tr_err s = None" and "tr_use_cuda s \<noteq> None \<or> getitem ''use_cuda'' (items xs) = []"
  shows "snd (run_op (train_rate_on cost) s xs) =
           snd (flush_windows cost (tr_use_cuda s = Some True) (tr_syncs s)
             (outputs (buffer_step 1000000000) (tr_buf s)
               (outputs (lift_item pairwise_step) (tr_prev s) (fst (train_samples xs))))) \<and>
         tr_syncs (fst (run_op (train_rate_on cost) s xs)) =
           fst (flush_windows cost (tr_use_cuda s = Some True) (tr_syncs s)
             (outputs (buffer_step 1000000000) (tr_buf s)
               (outputs (lift_item pairwise_step) (tr_prev s) (fst (train_samples xs))))) \<and>
         tr_err (fst (run_op (train_rate_on cost) s xs)) = snd (train_samples xs)"
  using assms
proof (induction xs arbitrary: s)
  case Nil
  then show ?case by simp
next
  case (Cons x xs)
  show ?case
  proof (cases x)
    case (Tick t)
    then show ?thesis
      using Cons by (simp add: tr_flush_def Let_def flush_windows_append)
  next
    case (Item t e)
    then show ?thesis
      using Cons tr_errored [of _ cost xs]
      by (auto simp: tr_flush_def Let_def flush_windows_append set_sync_def
          split: sum.split option.split)
  qed
qed

subsection \<open>Properties\<close>

text \<open>
  C1 (train_rate_formula): over a window of consecutive samples \<open>s_1 .. s_k\<close>, the rate
  given without synchronisation is the sum of the batch sizes of \<open>s_1 .. s_(k-1)\<close>
  over the elapsed seconds \<open>time(s_k) - time(s_1)\<close> (the differences of adjacent
  samples telescope), and nothing is given when either is zero.
\<close>

theorem train_rate_formula:
  assumes "ss \<noteq> []"
  shows "train_rate_flush None (adjacent ss) =
    (let T = s_time (last ss) - s_time (hd ss); n = sum_list (map s_batch_size (butlast ss))
     in if n \<noteq> 0 \<and> T \<noteq> 0
        then Some [(''train_rate'', VFloat (real n * 1000000000 / real_of_int T)),
                   (''units'', VStr ''items/s'')]
        else None)"
proof -
  have "real n / (real_of_int T / 1000000000) = real n * 1000000000 / real_of_int T"
    for n :: nat and T :: int
    by simp
  then show ?thesis
    using assms by (simp add: train_rate_flush_def sum_first_of_adjacent sum_time_adjacent Let_def
        del: sum_list_eq_0_iff)
qed

theorem train_rate_formula_witness:
  "[\<lparr>s_time = 0, s_batch_size = 32\<rparr>, \<lparr>s_time = 500000000, s_batch_size = 32\<rparr>,
    \<lparr>s_time = 1000000000, s_batch_size = 16\<rparr>] \<noteq> [] \<and>
   train_rate_flush None (adjacent [\<lparr>s_time = 0, s_batch_size = 32\<rparr>,
     \<lparr>s_time = 500000000, s_batch_size = 32\<rparr>, \<lparr>s_time = 1000000000, s_batch_size = 16\<rparr>]) =
   Some [(''train_rate'', VFloat 64), (''units'', VStr ''items/s'')]"
  using train_rate_formula [of "[\<lparr>s_time = 0, s_batch_size = 32\<rparr>,
     \<lparr>s_time = 500000000, s_batch_size = 32\<rparr>, \<lparr>s_time = 1000000000, s_batch_size = 16\<rparr>]"]
  by simp

text \<open>
  C2 (train_rate_windows): the windows handed to the subscriber, followed by the pairs
  still pending, are exactly the adjacent pairs of the sample stream, in order: no
  pair of consecutive batches is lost, duplicated or counted in two windows.
\<close>

theorem train_rate_windows:
  "concat (snd (train_rate_run t0 xs)) @ snd (fst (train_rate_run t0 xs)) = adjacent (items xs)"
  using buffer_conserves_gen [of 1000000000 "(t0 + 1000000000, [])"
      "outputs (lift_item pairwise_step) None xs"]
  by (simp add: train_rate_run_def items_lift_item pairwise_adjacent)

text \<open>
  C3 (train_rate_instrument): the instrument as the code composes it, event by event,
  gives exactly the rates of the windows \<open>train_rate_run\<close> flushes from the sample
  stream, once \<open>use_cuda\<close> is decided (or never given): without sync each window's
  rate is the bare formula; with sync the window flushed \<open>i\<close>-th adds the duration of
  the \<open>i\<close>-th synchronize call, which is made once per window, empty ones included.  A
  batch without \<open>len\<close> ends the pipeline with that error.
\<close>

theorem train_rate_instrument:
  assumes "c \<noteq> None \<or> getitem ''use_cuda'' (items xs) = []"
  shows "outputs (train_rate_on cost) ((tr_init t0)\<lparr>tr_use_cuda := c\<rparr>) xs =
           (if c = Some True
            then List.map_filter (\<lambda>(i, w). train_rate_flush (Some (cost i)) w)
                   (enumerate 0 (snd (train_rate_run t0 (fst (train_samples xs)))))
            else List.map_filter (train_rate_flush None) (snd (train_rate_run t0 (fst (train_samples xs))))) \<and>
         tr_syncs (fst (run_op (train_rate_on cost) ((tr_init t0)\<lparr>tr_use_cuda := c\<rparr>) xs)) =
           (if c = Some True then length (snd (train_rate_run t0 (fst (train_samples xs)))) else 0) \<and>
         tr_err (fst (run_op (train_rate_on cost) ((tr_init t0)\<lparr>tr_use_cuda := c\<rparr>) xs)) =
           snd (train_samples xs)"
  using train_rate_on_pipeline [of "(tr_init t0)\<lparr>tr_use_cuda := c\<rparr>" xs cost] assms
  by (simp add: tr_init_def train_rate_run_def flush_windows_count flush_windows_plain
      flush_windows_cuda enumerate_eq_zip)

theorem train_rate_instrument_witness:
  "outputs (train_rate_on (\<lambda>_. 500000000)) ((tr_init 0)\<lparr>tr_use_cuda := Some True\<rparr>)
     [Item 0 \<lparr>ev_data = [(''step'', VInt 0), (''batch'', VObj ''tensor'' (Some 32))], ev_time = 0\<rparr>,
      Item 500000000 \<lparr>ev_data = [(''step'', VInt 1), (''batch'', VObj ''tensor'' (Some 32))], ev_time = 1\<rparr>,
      Item 1000000000 \<lparr>ev_data = [(''step'', VInt 2), (''batch'', VObj ''tensor'' (Some 32))], ev_time = 2\<rparr>,
      Tick 2000000000] =
   [[(''train_rate'', VFloat 32), (''units'', VStr ''items/s'')],
    [(''train_rate'', VFloat 32), (''units'', VStr ''items/s'')]]"
proof -
  have "Some True \<noteq> None \<or> getitem ''use_cuda'' (items
     [Item 0 \<lparr>ev_data = [(''step'', VInt 0), (''batch'', VObj ''tensor'' (Some 32))], ev_time = 0\<rparr>,
      Item 500000000 \<lparr>ev_data = [(''step'', VInt 1), (''batch'', VObj ''tensor'' (Some 32))], ev_time = 1\<rparr>,
      Item 1000000000 \<lparr>ev_data = [(''step'', VInt 2), (''batch'', VObj ''tensor'' (Some 32))], ev_time = 2\<rparr>,
      Tick 2000000000]) = []"
    by simp
  note r = conjunct1 [OF train_rate_instrument [OF this, of "\<lambda>_. 500000000" 0]]
  show ?thesis
    by (subst r) (simp add: train_rate_run_def train_sample_def where_keys_def train_rate_flush_def
        map_filter_simps enumerate_eq_zip flush_due.simps Let_def)
qed

text \<open>
  C23 (train_rate_sync_first): at the end of any run, the instrument synchronises CUDA
  exactly when the first \<open>use_cuda\<close> value given was truthy, as
  \<open>first_or_default(False)\<close> decides; later values change nothing.
\<close>

theorem train_rate_sync_first:
  "(tr_use_cuda (fst (run_op (train_rate_on cost) (tr_init t0) xs)) = Some True) =
     train_rate_sync (items xs)"
  by (simp add: train_rate_on_use_cuda tr_init_def train_rate_sync_def first_or_default_def
      split: list.split)

text \<open>
  The times are \<open>time.time_ns()\<close> wall-clock readings, not a
  monotonic clock; when the clock steps back between two batches the instrument gives
  a negative throughput.
\<close>

theorem train_rate_negative_rate:
  "train_rate_flush None (adjacent [\<lparr>s_time = 2000000000, s_batch_size = 8\<rparr>,
      \<lparr>s_time = 1000000000, s_batch_size = 8\<rparr>]) =
   Some [(''train_rate'', VFloat (-8)), (''units'', VStr ''items/s'')]"
  by (simp add: train_rate_flush_def)

end
