(* ===== verification/StopControl.thy ===== *)
theory StopControl
  imports Streams
begin

text \<open>
  The \<open>stop\<close> instrument (\<open>src/milabench/instruments.py\<close>, lines 92-111).  With
  \<open>--stop N\<close> non-zero, at \<open>load_script\<close> it subscribes twice to the \<open>train_rate\<close>
  events: \<open>map_indexed\<close> gives a progress dict for each, and \<open>skip(N)\<close> passes the
  later ones to \<open>_stop\<close>, which calls \<open>ov.stop\<close> once thanks to its \<open>called\<close> flag.
  As the comment at line 97 says, \<open>ov.stop\<close> makes the host give another
  \<open>train_rate\<close>, processed synchronously inside the call: the host's reaction is the
  parameter \<open>react\<close> of the model.
\<close>

datatype stop_action = GiveProgress pydict | StopSignal pyval

record stop_state =
  called :: bool
  progress_idx :: nat
  skip_count :: nat

text \<open>\<open>_stop(value)\<close>: the closure over \<open>called\<close>.\<close>

definition stop_call :: "(bool, pyval, stop_action) op" where
  "stop_call c v = (if \<not> c then (True, [StopSignal v]) else (c, []))"

text \<open>The dict that \<open>map_indexed\<close> gives for the train rate of index \<open>idx\<close>.\<close>

definition progress_dict :: "nat \<Rightarrow> nat \<Rightarrow> pydict" where
  "progress_dict tot idx =
     [(''progress'', VInt (int idx)), (''total'', VInt (int tot)), (''descr'', VStr ''train'')]"

definition is_train_rate :: "event \<Rightarrow> bool" where
  "is_train_rate = where_keys [''train_rate'']"

text \<open>
  One event through both subscriptions, in subscription order: first the progress
  give, then \<open>skip(N) >> _stop\<close> with the event's dict as value.  With \<open>N = 0\<close>
  (\<open>if stop:\<close> at line 106 is false) neither subscription exists.
\<close>

definition stop_event :: "nat \<Rightarrow> (stop_state, event, stop_action) op" where
  "stop_event n st e =
     (if 0 < n \<and> is_train_rate e then
        (let mi = map_indexed_step (\<lambda>_ idx. progress_dict n idx) (progress_idx st) e;
             sk = skip_step n (skip_count st) e;
             sc = run_op stop_call (called st) (map (\<lambda>x. VDict (ev_data x)) (snd sk))
         in (st\<lparr>called := fst sc, progress_idx := fst mi, skip_count := fst sk\<rparr>,
             map GiveProgress (snd mi) @ snd sc))
      else (st, []))"

text \<open>
  The instrument over the events the host gives: each event is processed, and when it
  leads to a stop signal with value \<open>v\<close>, the events \<open>react v\<close> the host gives inside
  \<open>ov.stop(v)\<close> are processed before the next one.  Those inner events meet a set
  \<open>called\<close> flag, so they cannot signal again (\<open>stop_inner_silent\<close> below): the nesting
  never goes deeper than one level.
\<close>

fun stop_run :: "(pyval \<Rightarrow> event list) \<Rightarrow> nat \<Rightarrow> (stop_state, event, stop_action) op" where
  "stop_run react n st e =
     (let r = stop_event n st e;
          inner = concat (map (\<lambda>a. case a of StopSignal v \<Rightarrow> react v | _ \<Rightarrow> []) (snd r));
          q = run_op (stop_event n) (fst r) inner
      in (fst q, snd r @ snd q))"

declare stop_run.simps [simp del]

definition stop_init :: stop_state where
  "stop_init = \<lparr>called = False, progress_idx = 0, skip_count = 0\<rparr>"

text \<open>
  \<open>stop = ov.options.stop; if stop: ...\<close>: zero leaves the instrument without
  subscription; a negative value reaches \<open>skip\<close>, which rejects a negative count.
\<close>

definition stop_setup :: "int \<Rightarrow> py_error + nat option" where
  "stop_setup opt =
     (if opt = 0 then Inr None
      else if opt < 0 then Inl ArgumentOutOfRange
      else Inr (Some (nat opt)))"

subsection \<open>The counting invariant\<close>

fun is_signal :: "stop_action \<Rightarrow> bool" where
  "is_signal (StopSignal _) = True"
| "is_signal (GiveProgress _) = False"

abbreviation signals :: "stop_action list \<Rightarrow> nat" where
  "signals acts \<equiv> length (filter is_signal acts)"

definition stop_inv :: "nat \<Rightarrow> stop_state \<Rightarrow> bool" where
  "stop_inv n st \<longleftrightarrow> called st = (n < skip_count st) \<and> progress_idx st = skip_count st"

lemma stop_inv_init: "stop_inv n stop_init"
  by (simp add: stop_inv_def stop_init_def)

text \<open>What one event does, from a state satisfying the invariant.\<close>

lemma stop_event_off: "stop_event 0 st e = (st, [])"
  by (simp add: stop_event_def)

lemma stop_run_off: "outputs (stop_run react 0) st es = []"
  by (induction es arbitrary: st) (simp_all add: stop_run.simps stop_event_off Let_def)

lemma stop_event_effect:
  assumes "stop_inv n st" and "0 < n"
  shows "stop_event n st e =
    (if is_train_rate e
     then (st\<lparr>called := n < Suc (skip_count st), progress_idx := Suc (skip_count st),
              skip_count := Suc (skip_count st)\<rparr>,
           GiveProgress (progress_dict n (skip_count st)) #
           (if skip_count st = n then [StopSignal (VDict (ev_data e))] else []))
     else (st, []))"
  using assms
  by (auto simp: stop_event_def stop_inv_def map_indexed_step_def skip_step_def stop_call_def Let_def)

lemma stop_event_inv: "stop_inv n st \<Longrightarrow> stop_inv n (fst (stop_event n st e))"
  by (cases "n = 0") (simp_all add: stop_event_off stop_event_effect stop_inv_def)

abbreviation rate_count :: "event list \<Rightarrow> nat" where
  "rate_count es \<equiv> length (filter is_train_rate es)"

lemma stop_events_count:
  "stop_inv n st \<Longrightarrow> 0 < n \<Longrightarrow>
     stop_inv n (fst (run_op (stop_event n) st es)) \<and>
     skip_count (fst (run_op (stop_event n) st es)) = skip_count st + rate_count es"
  by (induction es arbitrary: st) (simp_all add: stop_event_inv, simp add: stop_event_effect)

lemma stop_events_signals:
  "stop_inv n st \<Longrightarrow> 0 < n \<Longrightarrow>
     signals (outputs (stop_event n) st es) =
       (if skip_count st \<le> n \<and> n < skip_count st + rate_count es then 1 else 0)"
proof (induction es arbitrary: st)
  case Nil
  then show ?case by simp
next
  case (Cons e es)
  have inv': "stop_inv n (fst (stop_event n st e))" using Cons.prems(1) by (rule stop_event_inv)
  show ?case
    using Cons.IH [OF inv' Cons.prems(2)] Cons.prems by (auto simp: stop_event_effect)
qed

lemma stop_inner_silent:
  "stop_inv n st \<Longrightarrow> 0 < n \<Longrightarrow> n < skip_count st \<Longrightarrow> signals (outputs (stop_event n) st es) = 0"
  by (simp add: stop_events_signals)

lemma stop_run_effect:
  assumes "stop_inv n st" and "0 < n"
  shows "stop_inv n (fst (stop_run react n st e)) \<and>
    signals (snd (stop_run react n st e)) =
      (if is_train_rate e \<and> skip_count st = n then 1 else 0) \<and>
    (if is_train_rate e \<and> skip_count st = n
     then n < skip_count (fst (stop_run react n st e))
     else skip_count (fst (stop_run react n st e)) =
            skip_count st + (if is_train_rate e then 1 else 0))"
proof (cases "is_train_rate e \<and> skip_count st = n")
  case True
  let ?r = "stop_event n st e"
  let ?inner = "react (VDict (ev_data e))"
  have r: "?r = (st\<lparr>called := True, progress_idx := Suc n, skip_count := Suc n\<rparr>,
      [GiveProgress (progress_dict n n), StopSignal (VDict (ev_data e))])"
    using True assms by (simp add: stop_event_effect)
  have inv1: "stop_inv n (fst ?r)" using assms(1) by (rule stop_event_inv)
  have "n < skip_count (fst ?r)" using r by simp
  then have "signals (outputs (stop_event n) (fst ?r) ?inner) = 0"
    by (rule stop_inner_silent [OF inv1 assms(2)])
  moreover have "stop_inv n (fst (run_op (stop_event n) (fst ?r) ?inner)) \<and>
      skip_count (fst (run_op (stop_event n) (fst ?r) ?inner)) = Suc n + rate_count ?inner"
    using stop_events_count [OF inv1 assms(2), of ?inner] r by simp
  ultimately show ?thesis using True r by (simp add: Let_def stop_run.simps)
next
  case False
  have "stop_event n st e = (if is_train_rate e
      then (st\<lparr>called := n < Suc (skip_count st), progress_idx := Suc (skip_count st),
              skip_count := Suc (skip_count st)\<rparr>, [GiveProgress (progress_dict n (skip_count st))])
      else (st, []))"
    using False assms by (simp add: stop_event_effect)
  moreover have "stop_inv n (fst (stop_event n st e))" using assms(1) by (rule stop_event_inv)
  ultimately show ?thesis using False by (auto simp: Let_def stop_run.simps)
qed

lemma stop_run_signals:
  "stop_inv n st \<Longrightarrow> 0 < n \<Longrightarrow>
     signals (outputs (stop_run react n) st es) =
       (if skip_count st \<le> n \<and> n < skip_count st + rate_count es then 1 else 0)"
proof (induction es arbitrary: st)
  case Nil
  then show ?case by simp
next
  case (Cons e es)
  let ?st' = "fst (stop_run react n st e)"
  have eff: "stop_inv n ?st' \<and>
    signals (snd (stop_run react n st e)) = (if is_train_rate e \<and> skip_count st = n then 1 else 0) \<and>
    (if is_train_rate e \<and> skip_count st = n then n < skip_count ?st'
     else skip_count ?st' = skip_count st + (if is_train_rate e then 1 else 0))"
    using Cons.prems by (rule stop_run_effect)
  then have IH: "signals (outputs (stop_run react n) ?st' es) =
      (if skip_count ?st' \<le> n \<and> n < skip_count ?st' + rate_count es then 1 else 0)"
    using Cons.IH Cons.prems(2) by blast
  show ?case
    using eff IH by (auto split: if_splits)
qed

subsection \<open>Properties\<close>

text \<open>
  C4 (stop_fires_once): whatever events the host gives back inside \<open>ov.stop\<close>, the
  instrument issues exactly one stop signal when \<open>N\<close> is non-zero and more than
  \<open>N\<close> train rates are given, and none otherwise (with \<open>--stop 0\<close>, the default,
  it subscribes to nothing): the \<open>called\<close> flag makes the signal single-fire.
\<close>

theorem stop_fires_once:
  "signals (outputs (stop_run react n) stop_init es) = (if 0 < n \<and> n < rate_count es then 1 else 0)"
proof (cases "n = 0")
  case True
  then show ?thesis by (simp add: stop_run_off)
next
  case False
  then show ?thesis using stop_run_signals [OF stop_inv_init] by (simp add: stop_init_def)
qed

text \<open>
  C16 (stop_signal_at_total): with \<open>N\<close> non-zero, the signal is issued on the train rate of index \<open>N\<close>
  (the \<open>N+1\<close>-th, since \<open>skip(N)\<close> drops the first \<open>N\<close>), right after the progress
  dict whose \<open>progress\<close> equals its \<open>total\<close>.
\<close>

theorem stop_signal_at_total:
  assumes "0 < n" and "stop_inv n st" and "skip_count st = n" and "is_train_rate e"
  shows "snd (stop_event n st e) =
    [GiveProgress (progress_dict n n), StopSignal (VDict (ev_data e))]"
  using assms by (simp add: stop_event_effect)

theorem stop_signal_at_total_witness:
  "0 < (3::nat) \<and> stop_inv 3 \<lparr>called = False, progress_idx = 3, skip_count = 3\<rparr> \<and>
   skip_count \<lparr>called = False, progress_idx = 3, skip_count = 3\<rparr> = 3 \<and>
   is_train_rate \<lparr>ev_data = [(''train_rate'', VFloat 250)], ev_time = 0\<rparr> \<and>
   snd (stop_event 3 \<lparr>called = False, progress_idx = 3, skip_count = 3\<rparr>
          \<lparr>ev_data = [(''train_rate'', VFloat 250)], ev_time = 0\<rparr>) =
   [GiveProgress [(''progress'', VInt 3), (''total'', VInt 3), (''descr'', VStr ''train'')],
    StopSignal (VDict [(''train_rate'', VFloat 250)])]"
proof -
  have h: "0 < (3::nat)" "stop_inv 3 \<lparr>called = False, progress_idx = 3, skip_count = 3\<rparr>"
    "skip_count \<lparr>called = False, progress_idx = 3, skip_count = 3\<rparr> = 3"
    "is_train_rate \<lparr>ev_data = [(''train_rate'', VFloat 250)], ev_time = 0\<rparr>"
    by (simp_all add: stop_inv_def is_train_rate_def where_keys_def)
  show ?thesis
    using h stop_signal_at_total [OF h] by (simp add: progress_dict_def)
qed

text \<open>
  \<open>--stop\<close> is parsed as any \<open>int\<close>; a negative value is
  truthy, reaches \<open>skip\<close>, and the instrument fails with an out-of-range argument
  at \<open>load_script\<close> instead of being rejected or ignored.
\<close>

theorem stop_setup_negative:
  "opt < 0 \<Longrightarrow> stop_setup opt = Inl ArgumentOutOfRange"
  by (simp add: stop_setup_def)

theorem stop_setup_negative_witness:
  "(-2::int) < 0 \<and> stop_setup (-2) = Inl ArgumentOutOfRange"
  using stop_setup_negative [of "-2"] by simp

end
