(* ===== verification/Dashboard.thy ===== *)
theory Dashboard
  imports Prelude
begin

text \<open>
  The \<open>dash\<close> instrument's table (\<open>src/milabench/instruments.py\<close>, lines 17-89):
  \<open>rows\<close> maps a key to the object shown in its row, and the rich table holds the
  rows in the order they were added.  The table's cells are the very objects stored in
  \<open>rows\<close> (Python aliasing), so the model keeps the table as the list of keys and the
  row objects in \<open>rows\<close>: assigning \<open>rows[k]._object\<close> changes the table's cell.
  How a \<open>Plain\<close> cell renders is in \<open>Render\<close>; the output feed and the subscription
  to the bus are in \<open>DashFeed\<close>; rich's drawing of the table is not modelled.
\<close>

text \<open>A row: a \<open>ProgressBar\<close> (total, completed) or a \<open>Plain\<close> (object, format).\<close>

datatype row = RowBar pyval pyval | RowPlain pyval string

record dash =
  rows :: "string \<Rightarrow> row option"
  table :: "string list"

definition dash_init :: dash where
  "dash_init = \<lparr>rows = Map.empty, table = []\<rparr>"

text \<open>\<open>{"total", "progress", "descr"}.issubset(values.keys())\<close>\<close>

definition is_progress :: "pydict \<Rightarrow> bool" where
  "is_progress values = list_all (py_has values) [''total'', ''progress'', ''descr'']"

text \<open>\<open>k = f"\\[{k}]"\<close>: a backslash, a bracket, the description, a bracket.\<close>

definition bar_key :: "pyval \<Rightarrow> string" where
  "bar_key descr = [CHR 0x5C, CHR ''[''] @ py_str descr @ '']''"

text \<open>\<open>k.startswith("$") or k.startswith("#") or k == "units"\<close>\<close>

definition reserved_key :: "string \<Rightarrow> bool" where
  "reserved_key k = (take 1 k = ''$'' \<or> take 1 k = ''#'' \<or> k = ''units'')"

text \<open>The format of a new \<open>Plain\<close> row: \<open>f"{{}} {units}"\<close> when \<open>units\<close> is truthy.\<close>

definition plain_fmt :: "pyval option \<Rightarrow> string" where
  "plain_fmt units =
     (case units of
        Some u \<Rightarrow> if py_truthy u then ''{} '' @ py_str u else ''{}''
      | None \<Rightarrow> ''{}'')"

text \<open>
  The progress-bar branch: a new bar (rich's defaults, total 100 and completed 0) is
  added when the key is new, then \<open>progress_bar.update(...)\<close> sets it (rich keeps the
  old total when \<open>total\<close> is \<open>None\<close>).  If the key
  already holds a \<open>Plain\<close> row, \<open>Plain\<close> has no \<open>update\<close> and the call raises.
\<close>

definition update_bar :: "pydict \<Rightarrow> dash \<Rightarrow> py_error + dash" where
  "update_bar values st =
     (case (py_get values ''descr'', py_get values ''total'', py_get values ''progress'') of
        (Some d, Some tot, Some prog) \<Rightarrow>
          (let k = bar_key d;
               st1 = (if rows st k = None
                      then st\<lparr>rows := (rows st)(k \<mapsto> RowBar (VFloat 100) (VFloat 0)),
                              table := table st @ [k]\<rparr>
                      else st)
           in case rows st1 k of
                Some (RowBar a _) \<Rightarrow>
                  Inr (st1\<lparr>rows := (rows st1)(k \<mapsto> RowBar (if tot = VNone then a else tot) prog)\<rparr>)
              | _ \<Rightarrow> Inl (AttributeError ''update''))
      | _ \<Rightarrow> Inl (KeyError ''descr''))"

text \<open>
  The plain branch, the loop over \<open>values.items()\<close>: reserved keys are skipped, a
  known key gets its object replaced (its format is kept; a \<open>ProgressBar\<close> only gains
  an unused attribute), a new key gets a \<open>Plain\<close> row appended to the table.
\<close>

fun update_plain :: "pyval option \<Rightarrow> dash \<Rightarrow> pydict \<Rightarrow> dash" where
  "update_plain units st [] = st"
| "update_plain units st ((k, v) # kvs) =
     update_plain units
       (if reserved_key k then st
        else (case rows st k of
                Some (RowPlain _ fmt) \<Rightarrow> st\<lparr>rows := (rows st)(k \<mapsto> RowPlain v fmt)\<rparr>
              | Some (RowBar _ _) \<Rightarrow> st
              | None \<Rightarrow> st\<lparr>rows := (rows st)(k \<mapsto> RowPlain v (plain_fmt units)),
                          table := table st @ [k]\<rparr>))
       kvs"

text \<open>\<open>update_with(values)\<close>, also installed as \<open>ov.send\<close>.\<close>

definition update_with :: "pydict \<Rightarrow> dash \<Rightarrow> py_error + dash" where
  "update_with values st =
     (if is_progress values then update_bar values st
      else Inr (update_plain (py_get values ''units'') st values))"

subsection \<open>The table invariant\<close>

text \<open>Every row is in the table once, and the table shows only rows.\<close>

definition dash_inv :: "dash \<Rightarrow> bool" where
  "dash_inv st \<longleftrightarrow> distinct (table st) \<and> set (table st) = dom (rows st)"

lemma dash_inv_init: "dash_inv dash_init"
  by (simp add: dash_inv_def dash_init_def)

lemma dash_inv_add:
  "dash_inv st \<Longrightarrow> rows st k = None \<Longrightarrow>
     dash_inv (st\<lparr>rows := (rows st)(k \<mapsto> r), table := table st @ [k]\<rparr>)"
  by (auto simp: dash_inv_def)

lemma dash_inv_set:
  "dash_inv st \<Longrightarrow> rows st k \<noteq> None \<Longrightarrow> dash_inv (st\<lparr>rows := (rows st)(k \<mapsto> r)\<rparr>)"
  by (auto simp: dash_inv_def)

lemma update_plain_inv: "dash_inv st \<Longrightarrow> dash_inv (update_plain u st kvs)"
proof (induction u st kvs rule: update_plain.induct)
  case (1 units st)
  then show ?case by simp
next
  case (2 units st k v kvs)
  then show ?case
    by (auto simp: dash_inv_add dash_inv_set split: option.splits row.splits)
qed

lemma update_bar_inv: "dash_inv st \<Longrightarrow> update_bar values st = Inr st' \<Longrightarrow> dash_inv st'"
  by (auto simp: update_bar_def Let_def dash_inv_def split: option.splits row.splits if_splits)

subsection \<open>What a row shows after an update\<close>

lemma update_plain_other:
  "k \<notin> fst ` set kvs \<Longrightarrow> rows (update_plain u st kvs) k = rows st k"
  by (induction u st kvs rule: update_plain.induct) (auto split: option.splits row.splits)

lemma update_plain_key:
  assumes "distinct (map fst kvs)" and "(k, v) \<in> set kvs" and "\<not> reserved_key k"
    and "\<forall>a b. rows st k \<noteq> Some (RowBar a b)"
  shows "rows (update_plain u st kvs) k =
           Some (RowPlain v (case rows st k of Some (RowPlain _ f) \<Rightarrow> f | _ \<Rightarrow> plain_fmt u))"
  using assms
proof (induction u st kvs rule: update_plain.induct)
  case (1 units st)
  then show ?case by simp
next
  case (2 units st k' v' kvs)
  show ?case
  proof (cases "k' = k")
    case True
    with "2.prems" have "v' = v" and "k \<notin> fst ` set kvs" by force+
    then show ?thesis
      using True "2.prems" by (auto simp: update_plain_other split: option.splits row.splits)
  next
    case False
    with "2.prems" have "(k, v) \<in> set kvs" by auto
    with False "2.prems" "2.IH" show ?thesis
      by (auto split: option.splits row.splits if_splits)
  qed
qed

lemma update_with_single:
  assumes "\<not> reserved_key k" and "\<forall>a b. rows st k \<noteq> Some (RowBar a b)"
  shows "\<exists>st'. update_with [(k, v)] st = Inr st' \<and>
    rows st' k = Some (RowPlain v (case rows st k of Some (RowPlain _ f) \<Rightarrow> f | _ \<Rightarrow> ''{}'')) \<and>
    (\<forall>k'. k' \<noteq> k \<longrightarrow> rows st' k' = rows st k') \<and> (dash_inv st \<longrightarrow> dash_inv st')"
proof -
  have np: "\<not> is_progress [(k, v)]" by (auto simp: is_progress_def)
  let ?st' = "update_plain (py_get [(k, v)] ''units'') st [(k, v)]"
  have r: "rows ?st' k = Some (RowPlain v (case rows st k of Some (RowPlain _ f) \<Rightarrow> f
                                     | _ \<Rightarrow> plain_fmt (py_get [(k, v)] ''units'')))"
    using assms by (intro update_plain_key) simp_all
  have f: "plain_fmt (py_get [(k, v)] ''units'') = ''{}''"
    using assms(1) by (auto simp: plain_fmt_def reserved_key_def)
  have o: "\<forall>k'. k' \<noteq> k \<longrightarrow> rows ?st' k' = rows st k'"
  proof (intro allI impI)
    fix k' assume "k' \<noteq> k"
    then show "rows ?st' k' = rows st k'" by (intro update_plain_other) simp
  qed
  have u: "update_with [(k, v)] st = Inr ?st'"
    using np by (simp add: update_with_def del: update_plain.simps py_get_Cons)
  have i: "dash_inv st \<longrightarrow> dash_inv ?st'"
    using update_plain_inv by blast
  show ?thesis
    using u i o r f by (intro exI [of _ ?st']) (simp del: update_plain.simps py_get_Cons
        split: option.split row.split)
qed

subsection \<open>Properties\<close>

text \<open>
  C9 (dash_update_inv): every successful \<open>update_with\<close> keeps the table and the row map
  in step: each row appears once in the table, and the table shows only rows.
\<close>

theorem dash_update_inv:
  "dash_inv st \<Longrightarrow> update_with values st = Inr st' \<Longrightarrow> dash_inv st'"
  by (auto simp: update_with_def update_plain_inv update_bar_inv split: if_splits)

theorem dash_update_inv_witness:
  "dash_inv dash_init \<and> update_with [(''loss'', VFloat 2)] dash_init =
     Inr \<lparr>rows = [''loss'' \<mapsto> RowPlain (VFloat 2) ''{}''], table = [''loss'']\<rparr> \<and>
   dash_inv \<lparr>rows = [''loss'' \<mapsto> RowPlain (VFloat 2) ''{}''], table = [''loss'']\<rparr>"
proof -
  have u: "update_with [(''loss'', VFloat 2)] dash_init =
     Inr \<lparr>rows = [''loss'' \<mapsto> RowPlain (VFloat 2) ''{}''], table = [''loss'']\<rparr>"
    by (simp add: update_with_def is_progress_def reserved_key_def plain_fmt_def dash_init_def)
  show ?thesis using dash_update_inv [OF dash_inv_init u] dash_inv_init u by simp
qed

text \<open>
  C17 (dash_plain_value): given a dict that is not a progress update, each of its keys
  that is not reserved and not a progress bar shows the value just given; a new row
  takes its format from the dict's \<open>units\<close>, while an existing row keeps the format it
  was created with, whatever \<open>units\<close> the new dict carries.
\<close>

theorem dash_plain_value:
  assumes "\<not> is_progress values" and "distinct (map fst values)" and "(k, v) \<in> set values"
    and "\<not> reserved_key k" and "\<forall>a b. rows st k \<noteq> Some (RowBar a b)"
  shows "\<exists>st'. update_with values st = Inr st' \<and>
    rows st' k = Some (RowPlain v (case rows st k of Some (RowPlain _ f) \<Rightarrow> f
                                  | _ \<Rightarrow> plain_fmt (py_get values ''units'')))"
  using assms by (simp add: update_with_def update_plain_key)

theorem dash_plain_value_witness:
  "\<not> is_progress [(''train_rate'', VFloat 512), (''units'', VStr ''items/s'')] \<and>
   distinct (map fst [(''train_rate'', VFloat 512), (''units'', VStr ''items/s'')]) \<and>
   (''train_rate'', VFloat 512) \<in> set [(''train_rate'', VFloat 512), (''units'', VStr ''items/s'')] \<and>
   \<not> reserved_key ''train_rate'' \<and>
   (\<forall>a b. rows \<lparr>rows = [''train_rate'' \<mapsto> RowPlain (VFloat 300) ''{}''], table = [''train_rate'']\<rparr>
      ''train_rate'' \<noteq> Some (RowBar a b)) \<and>
   (\<exists>st'. update_with [(''train_rate'', VFloat 512), (''units'', VStr ''items/s'')]
        \<lparr>rows = [''train_rate'' \<mapsto> RowPlain (VFloat 300) ''{}''], table = [''train_rate'']\<rparr> = Inr st' \<and>
      rows st' ''train_rate'' = Some (RowPlain (VFloat 512) ''{}''))"
proof -
  have h: "\<not> is_progress [(''train_rate'', VFloat 512), (''units'', VStr ''items/s'')]"
    "distinct (map fst [(''train_rate'', VFloat 512), (''units'', VStr ''items/s'')])"
    "(''train_rate'', VFloat 512) \<in> set [(''train_rate'', VFloat 512), (''units'', VStr ''items/s'')]"
    "\<not> reserved_key ''train_rate''"
    "\<forall>a b. rows \<lparr>rows = [''train_rate'' \<mapsto> RowPlain (VFloat 300) ''{}''], table = [''train_rate'']\<rparr>
      ''train_rate'' \<noteq> Some (RowBar a b)"
    by (simp_all add: is_progress_def reserved_key_def)
  show ?thesis using h dash_plain_value [OF h] by simp
qed

text \<open>
  A progress dict shows its \<open>total\<close> and \<open>progress\<close> in the bar
  keyed by its description, created on first use, as long as that key is not
  already a plain row.
\<close>

theorem dash_progress_row:
  assumes "py_get values ''descr'' = Some d" and "py_get values ''total'' = Some tot"
    and "py_get values ''progress'' = Some prog"
    and "\<forall>a f. rows st (bar_key d) \<noteq> Some (RowPlain a f)" and "tot \<noteq> VNone"
  shows "\<exists>st'. update_with values st = Inr st' \<and>
    rows st' (bar_key d) = Some (RowBar tot prog) \<and>
    (dash_inv st \<longrightarrow> dash_inv st' \<and> bar_key d \<in> set (table st'))"
proof -
  have p: "is_progress values"
    using assms(1-3) by (simp add: is_progress_def py_has_get)
  define st1 where "st1 = (if rows st (bar_key d) = None
      then st\<lparr>rows := (rows st)(bar_key d \<mapsto> RowBar (VFloat 100) (VFloat 0)),
              table := table st @ [bar_key d]\<rparr>
      else st)"
  define st' where "st' = st1\<lparr>rows := (rows st1)(bar_key d \<mapsto> RowBar tot prog)\<rparr>"
  have u: "update_bar values st = Inr st'"
  proof (cases "rows st (bar_key d)")
    case None
    then show ?thesis using assms(1-3,5) by (simp add: update_bar_def st1_def st'_def Let_def)
  next
    case (Some r)
    then show ?thesis
      using assms by (cases r) (simp_all add: update_bar_def st1_def st'_def Let_def)
  qed
  have r: "rows st' (bar_key d) = Some (RowBar tot prog)"
    by (simp add: st'_def)
  then have "dash_inv st' \<Longrightarrow> bar_key d \<in> set (table st')"
    by (auto simp: dash_inv_def)
  moreover have "dash_inv st \<longrightarrow> dash_inv st'"
    using u update_bar_inv by blast
  ultimately show ?thesis using p u r by (simp add: update_with_def)
qed

theorem dash_progress_row_witness:
  "py_get [(''progress'', VInt 2), (''total'', VInt 3), (''descr'', VStr ''train'')] ''descr''
     = Some (VStr ''train'') \<and>
   py_get [(''progress'', VInt 2), (''total'', VInt 3), (''descr'', VStr ''train'')] ''total''
     = Some (VInt 3) \<and>
   py_get [(''progress'', VInt 2), (''total'', VInt 3), (''descr'', VStr ''train'')] ''progress''
     = Some (VInt 2) \<and>
   (\<forall>a f. rows dash_init (bar_key (VStr ''train'')) \<noteq> Some (RowPlain a f)) \<and> VInt 3 \<noteq> VNone \<and>
   (\<exists>st'. update_with [(''progress'', VInt 2), (''total'', VInt 3), (''descr'', VStr ''train'')]
       dash_init = Inr st' \<and>
     rows st' (bar_key (VStr ''train'')) = Some (RowBar (VInt 3) (VInt 2)) \<and>
     (dash_inv dash_init \<longrightarrow> dash_inv st' \<and> bar_key (VStr ''train'') \<in> set (table st')))"
proof -
  have h: "py_get [(''progress'', VInt 2), (''total'', VInt 3), (''descr'', VStr ''train'')] ''descr''
     = Some (VStr ''train'')"
    "py_get [(''progress'', VInt 2), (''total'', VInt 3), (''descr'', VStr ''train'')] ''total''
     = Some (VInt 3)"
    "py_get [(''progress'', VInt 2), (''total'', VInt 3), (''descr'', VStr ''train'')] ''progress''
     = Some (VInt 2)"
    "\<forall>a f. rows dash_init (bar_key (VStr ''train'')) \<noteq> Some (RowPlain a f)" "VInt 3 \<noteq> VNone"
    by (simp_all add: dash_init_def)
  show ?thesis using h dash_progress_row [OF h] by blast
qed

end
