(* ===== verification/DashFeed.thy ===== *)
theory DashFeed
  imports Streams Dashboard
begin

text \<open>
  The dashboard's feed of captured output and its subscription to the bus
  (\<open>src/milabench/instruments.py\<close>, lines 52-56 and 85).  voir gives every line the
  benchmark writes as an event \<open>{"#stdout": line}\<close> or \<open>{"#stderr": line}\<close>.  The
  dash keeps the last ten lines of each stream (\<open>roll(10)\<close>), merges the two windows
  (\<open>|\<close>) and gives each window, joined, as \<open>stdout\<close>: that give is delivered at once to
  every subscriber, \<open>update_with\<close> included, before the original event reaches
  \<open>update_with\<close> (its subscription is the later one).  An exception in a subscriber
  propagates to the code that gave the event; the model stops the run with it.
\<close>

text \<open>\<open>"".join(txt)\<close>: only strings can be joined.\<close>

fun py_join :: "pyval list \<Rightarrow> py_error + string" where
  "py_join [] = Inr []"
| "py_join (VStr s # vs) = map_sum id ((@) s) (py_join vs)"
| "py_join (_ # vs) = Inl (TypeError ''sequence item: expected str instance'')"

text \<open>\<open>gv["?k"].roll(10)\<close>: events without \<open>k\<close> are not seen by the window.\<close>

definition roll_key :: "string \<Rightarrow> (pyval list, event, pyval list) op" where
  "roll_key k w e = (case py_get (ev_data e) k of None \<Rightarrow> (w, []) | Some v \<Rightarrow> roll_step 10 w v)"

text \<open>\<open>out_err = gv["?#stdout"].roll(10) | gv["?#stderr"].roll(10)\<close>\<close>

definition out_err_step :: "(pyval list \<times> pyval list, event, pyval list) op" where
  "out_err_step st e =
     (let (a, o1) = roll_key ''#stdout'' (fst st) e;
          (b, o2) = roll_key ''#stderr'' (snd st) e
      in ((a, b), o1 @ o2))"

text \<open>\<open>@out_err.subscribe def _(txt): ov.give(stdout="".join(txt))\<close>, each give reaching
  \<open>update_with\<close> through \<open>gv.where("!silent")\<close>.\<close>

fun give_stdout :: "pyval list list \<Rightarrow> dash \<Rightarrow> py_error + dash" where
  "give_stdout [] d = Inr d"
| "give_stdout (w # ws) d =
     (case py_join w of
        Inl err \<Rightarrow> Inl err
      | Inr txt \<Rightarrow>
          (case update_with [(''stdout'', VStr txt)] d of
             Inl err \<Rightarrow> Inl err
           | Inr d' \<Rightarrow> give_stdout ws d'))"

text \<open>One event of the bus as the dash sees it: the feed first, then \<open>update_with\<close>.\<close>

definition dash_event ::
  "(pyval list \<times> pyval list) \<times> dash \<Rightarrow> event \<Rightarrow> py_error + (pyval list \<times> pyval list) \<times> dash" where
  "dash_event st e =
     (let (fs, ws) = out_err_step (fst st) e in
      case give_stdout ws (snd st) of
        Inl err \<Rightarrow> Inl err
      | Inr d \<Rightarrow> if where_not ''silent'' e then map_sum id (Pair fs) (update_with (ev_data e) d)
                 else Inr (fs, d))"

fun dash_run ::
  "(pyval list \<times> pyval list) \<times> dash \<Rightarrow> event list \<Rightarrow> py_error + (pyval list \<times> pyval list) \<times> dash" where
  "dash_run st [] = Inr st"
| "dash_run st (e # es) = (case dash_event st e of Inl err \<Rightarrow> Inl err | Inr st' \<Rightarrow> dash_run st' es)"

definition out_lines :: "string \<Rightarrow> event list \<Rightarrow> pyval list" where
  "out_lines k es = map snd (getitem k es)"


subsection \<open>The \<open>display\<close> instrument\<close>

text \<open>
  \<open>display\<close> (lines 12-14) is the other terminal consumer: \<open>ov.given.display()\<close>.
  It has no \<open>yield\<close>, so its body runs when it is started, before any phase, and
  every dict given from then on is printed as it is given (giving formats each as
  its keys and values; the model keeps the printed dicts, in order).
\<close>

definition display_out :: "event list \<Rightarrow> pydict list" where
  "display_out es = map ev_data es"

subsection \<open>The windows\<close>

lemma out_lines_simps [simp]:
  "out_lines k [] = []"
  "out_lines k (e # es) = (case py_get (ev_data e) k of None \<Rightarrow> [] | Some v \<Rightarrow> [v]) @ out_lines k es"
  by (simp_all add: out_lines_def split: option.split)

lemma roll_key_lastn:
  "fst (roll_key k (lastn 10 ys) e) = lastn 10 (ys @ out_lines k [e])"
  by (simp add: roll_key_def roll_step_def lastn_snoc Let_def split: option.split)

lemma out_err_fst:
  "fst (out_err_step st e) = (fst (roll_key ''#stdout'' (fst st) e), fst (roll_key ''#stderr'' (snd st) e))"
  by (simp add: out_err_step_def split_def Let_def)

lemma out_err_state:
  "fst (run_op out_err_step (lastn 10 a, lastn 10 b) es) =
     (lastn 10 (a @ out_lines ''#stdout'' es), lastn 10 (b @ out_lines ''#stderr'' es))"
proof (induction es arbitrary: a b)
  case Nil
  then show ?case by simp
next
  case (Cons e es)
  have "fst (out_err_step (lastn 10 a, lastn 10 b) e) =
      (lastn 10 (a @ out_lines ''#stdout'' [e]), lastn 10 (b @ out_lines ''#stderr'' [e]))"
    by (simp add: out_err_fst roll_key_lastn del: out_lines_simps)
  then show ?case using Cons.IH [of "a @ out_lines ''#stdout'' [e]" "b @ out_lines ''#stderr'' [e]"]
    by simp
qed

text \<open>An event with output on one stream only gives that stream's window.\<close>

lemma out_err_single:
  assumes "k = ''#stdout'' \<or> k = ''#stderr''" and "py_get (ev_data e) k = Some v"
    and "\<not> (py_has (ev_data e) ''#stdout'' \<and> py_has (ev_data e) ''#stderr'')"
  shows "snd (out_err_step st e) =
    [lastn 10 ((if k = ''#stdout'' then fst st else snd st) @ [v])]"
  using assms by (auto simp: out_err_step_def roll_key_def roll_step_def Let_def py_has_get
      split: option.split)

subsection \<open>Runs\<close>

lemma dash_run_snoc:
  "dash_run st (es @ [e]) = Inr r \<Longrightarrow> \<exists>st'. dash_run st es = Inr st' \<and> dash_event st' e = Inr r"
  by (induction st es rule: dash_run.induct) (auto split: sum.splits)

lemma dash_event_feed: "dash_event st e = Inr st' \<Longrightarrow> fst st' = fst (out_err_step (fst st) e)"
  by (auto simp: dash_event_def split_def Let_def split: sum.splits if_splits)

lemma dash_run_feed: "dash_run st es = Inr st' \<Longrightarrow> fst st' = fst (run_op out_err_step (fst st) es)"
  by (induction st es rule: dash_run.induct) (auto split: sum.splits dest: dash_event_feed)


subsection \<open>Bars only under bar keys\<close>

text \<open>Progress bars sit only under keys \<open>\[descr]\<close>, which begin with a backslash.\<close>

definition backslashed :: "string \<Rightarrow> bool" where
  "backslashed k \<longleftrightarrow> take 1 k = [CHR 0x5C]"

definition bar_keys :: "dash \<Rightarrow> bool" where
  "bar_keys d \<longleftrightarrow> (\<forall>k a b. rows d k = Some (RowBar a b) \<longrightarrow> backslashed k)"

lemma bar_keys_init: "bar_keys dash_init"
  by (simp add: bar_keys_def dash_init_def)

lemma backslashed_bar_key [simp]: "backslashed (bar_key x)"
  by (simp add: bar_key_def backslashed_def)

lemma update_plain_bars:
  "rows (update_plain u st kvs) k = Some (RowBar a b) \<Longrightarrow> rows st k = Some (RowBar a b)"
  by (induction u st kvs rule: update_plain.induct) (auto split: option.splits row.splits if_splits)

lemma update_with_bar_keys: "bar_keys d \<Longrightarrow> update_with vals d = Inr d' \<Longrightarrow> bar_keys d'"
  unfolding update_with_def bar_keys_def
  by (auto simp: update_bar_def Let_def dest!: update_plain_bars
      split: if_splits option.splits row.splits)

lemma update_with_frame:
  "\<not> py_has vals k \<Longrightarrow> \<not> backslashed k \<Longrightarrow> update_with vals d = Inr d' \<Longrightarrow> rows d' k = rows d k"
  unfolding update_with_def
  by (auto simp: update_bar_def Let_def py_has_def update_plain_other
      split: if_splits option.splits row.splits)

lemma give_stdout_bar_keys: "give_stdout ws d = Inr d' \<Longrightarrow> bar_keys d \<Longrightarrow> bar_keys d'"
  by (induction ws d rule: give_stdout.induct) (auto split: sum.splits intro: update_with_bar_keys)

lemma dash_event_bar_keys: "dash_event st e = Inr st' \<Longrightarrow> bar_keys (snd st) \<Longrightarrow> bar_keys (snd st')"
  by (auto simp: dash_event_def split_def Let_def split: sum.splits if_splits
      intro: give_stdout_bar_keys update_with_bar_keys)

lemma dash_run_bar_keys: "dash_run st es = Inr st' \<Longrightarrow> bar_keys (snd st) \<Longrightarrow> bar_keys (snd st')"
  by (induction st es rule: dash_run.induct) (auto split: sum.splits dest: dash_event_bar_keys)


subsection \<open>The \<open>stdout\<close> row\<close>

lemma stdout_not_bar:
  assumes "bar_keys d" shows "rows d ''stdout'' \<noteq> Some (RowBar a b)"
proof
  assume "rows d ''stdout'' = Some (RowBar a b)"
  then have "backslashed ''stdout''" using assms unfolding bar_keys_def by blast
  then show False by (simp add: backslashed_def)
qed

lemma give_stdout_single:
  assumes "give_stdout [w] d = Inr d'" and "bar_keys d"
  shows "\<exists>txt fmt. py_join w = Inr txt \<and> rows d' ''stdout'' = Some (RowPlain (VStr txt) fmt)"
proof -
  obtain out where j: "py_join w = Inr out" and u: "update_with [(''stdout'', VStr out)] d = Inr d'"
    using assms(1) by (auto split: sum.splits)
  have "\<not> reserved_key ''stdout''" by (simp add: reserved_key_def)
  then obtain st' where "update_with [(''stdout'', VStr out)] d = Inr st'"
      and "\<exists>fmt. rows st' ''stdout'' = Some (RowPlain (VStr out) fmt)"
    using update_with_single [of "''stdout''" d "VStr out"] stdout_not_bar [OF assms(2)] by blast
  then show ?thesis using j u by auto
qed

lemma dash_event_stdout_row:
  assumes ev: "dash_event (fs, d) e = Inr (fs', d')" and bk: "bar_keys d"
    and k: "k = ''#stdout'' \<or> k = ''#stderr''" and v: "py_get (ev_data e) k = Some v"
    and one: "\<not> (py_has (ev_data e) ''#stdout'' \<and> py_has (ev_data e) ''#stderr'')"
    and no: "\<not> py_has (ev_data e) ''stdout''"
  shows "\<exists>txt fmt. py_join (lastn 10 ((if k = ''#stdout'' then fst fs else snd fs) @ [v])) = Inr txt \<and>
           rows d' ''stdout'' = Some (RowPlain (VStr txt) fmt)"
proof -
  let ?w = "lastn 10 ((if k = ''#stdout'' then fst fs else snd fs) @ [v])"
  have o: "snd (out_err_step fs e) = [?w]" using out_err_single [OF k v one] by simp
  obtain d1 where g: "give_stdout [?w] d = Inr d1"
    and d': "d' = d1 \<or> update_with (ev_data e) d1 = Inr d'"
    using ev o by (auto simp: dash_event_def split_def Let_def split: sum.splits if_splits)
  have "rows d' ''stdout'' = rows d1 ''stdout''"
    using d' update_with_frame [OF no] by (auto simp: backslashed_def)
  then show ?thesis using give_stdout_single [OF g bk] by simp
qed

subsection \<open>What can go wrong\<close>

text \<open>\<open>update_with\<close> raises only when a progress dict meets a plain row under its key.\<close>

lemma update_with_error: "update_with vals d = Inl e \<Longrightarrow> e = AttributeError ''update''"
  by (auto simp: update_with_def is_progress_def update_bar_def py_has_get Let_def
      split: option.splits row.splits if_splits)

lemma give_stdout_error:
  "give_stdout ws d = Inl e \<Longrightarrow> e = AttributeError ''update'' \<or> e = TypeError ''sequence item: expected str instance''"
proof (induction ws d rule: give_stdout.induct)
  case (2 w ws d)
  have "py_join w = Inl e' \<Longrightarrow> e' = TypeError ''sequence item: expected str instance''" for e'
    by (induction w rule: py_join.induct) auto
  then show ?case using 2 by (auto split: sum.splits dest: update_with_error)
qed simp

lemma dash_event_error:
  "dash_event st e = Inl err \<Longrightarrow> err = AttributeError ''update'' \<or> err = TypeError ''sequence item: expected str instance''"
  by (auto simp: dash_event_def split_def Let_def split: sum.splits if_splits
      dest: give_stdout_error update_with_error)

lemma dash_run_error:
  "dash_run st es = Inl err \<Longrightarrow> err = AttributeError ''update'' \<or> err = TypeError ''sequence item: expected str instance''"
  by (induction st es rule: dash_run.induct) (auto split: sum.splits dest: dash_event_error)

lemma out_err_windows:
  "fst (run_op out_err_step ([], []) es) =
     (lastn 10 (out_lines ''#stdout'' es), lastn 10 (out_lines ''#stderr'' es))"
  using out_err_state [of "[]" "[]" es] by (simp add: lastn_def)

subsection \<open>Properties\<close>

text \<open>
  C29 (stdout_row_last_lines): after any run of the bus, if the last event is a line of
  captured output (on \<open>stdout\<close> or on \<open>stderr\<close>), the dash's \<open>stdout\<close> row shows the
  last ten lines (at most) of that same stream, joined.  A line on \<open>stderr\<close> thus
  replaces the \<open>stdout\<close> lines in the row, which is labelled \<open>stdout\<close> in both cases.
\<close>

theorem stdout_row_last_lines:
  assumes run: "dash_run (([], []), dash_init) (es @ [e]) = Inr (fs, d)"
    and k: "k = ''#stdout'' \<or> k = ''#stderr''" and has: "py_has (ev_data e) k"
    and one: "\<not> (py_has (ev_data e) ''#stdout'' \<and> py_has (ev_data e) ''#stderr'')"
    and no: "\<not> py_has (ev_data e) ''stdout''"
  shows "\<exists>txt fmt. py_join (lastn 10 (out_lines k (es @ [e]))) = Inr txt \<and>
           rows d ''stdout'' = Some (RowPlain (VStr txt) fmt)"
proof -
  obtain fs0 d0 where r0: "dash_run (([], []), dash_init) es = Inr (fs0, d0)"
      and ev: "dash_event (fs0, d0) e = Inr (fs, d)"
    using dash_run_snoc [OF run] by auto
  have bk: "bar_keys d0" using dash_run_bar_keys [OF r0] bar_keys_init by simp
  have "fs0 = fst (run_op out_err_step (lastn 10 [], lastn 10 []) es)"
    using dash_run_feed [OF r0] by (simp add: lastn_def)
  then have fs0: "fs0 = (lastn 10 (out_lines ''#stdout'' es), lastn 10 (out_lines ''#stderr'' es))"
    by (simp add: out_err_state)
  obtain v where v: "py_get (ev_data e) k = Some v" using has by (auto simp: py_has_get)
  have "out_lines k (es @ [e]) = out_lines k es @ [v]"
    using v by (simp add: out_lines_def getitem_append)
  moreover have "lastn 10 (lastn 10 (out_lines k es) @ [v]) = lastn 10 (out_lines k es @ [v])"
    by (simp add: lastn_snoc)
  ultimately show ?thesis
    using dash_event_stdout_row [OF ev bk k v one no] fs0 k by auto
qed



theorem stdout_row_last_lines_witness:
  "\<exists>fs d. dash_run (([], []), dash_init)
       ([\<lparr>ev_data = [(''#stdout'', VStr ''epoch 1'')], ev_time = 0\<rparr>] @
        [\<lparr>ev_data = [(''#stderr'', VStr ''warning'')], ev_time = 1\<rparr>]) = Inr (fs, d) \<and>
     (\<exists>fmt. rows d ''stdout'' = Some (RowPlain (VStr ''warning'') fmt))"
proof -
  let ?e1 = "\<lparr>ev_data = [(''#stdout'', VStr ''epoch 1'')], ev_time = 0::int\<rparr>"
  let ?e2 = "\<lparr>ev_data = [(''#stderr'', VStr ''warning'')], ev_time = 1::int\<rparr>"
  let ?d1 = "\<lparr>rows = [''stdout'' \<mapsto> RowPlain (VStr ''epoch 1'') ''{}''], table = [''stdout'']\<rparr>"
  let ?d2 = "\<lparr>rows = [''stdout'' \<mapsto> RowPlain (VStr ''warning'') ''{}''], table = [''stdout'']\<rparr>"
  have "out_err_step ([], []) ?e1 = (([VStr ''epoch 1''], []), [[VStr ''epoch 1'']])"
    by (simp add: out_err_step_def roll_key_def roll_step_def lastn_def Let_def)
  moreover have "give_stdout [[VStr ''epoch 1'']] dash_init = Inr ?d1"
    by (simp add: update_with_def is_progress_def reserved_key_def plain_fmt_def dash_init_def)
  moreover have "update_with (ev_data ?e1) ?d1 = Inr ?d1"
    by (simp add: update_with_def is_progress_def reserved_key_def)
  ultimately have s1: "dash_event (([], []), dash_init) ?e1 = Inr (([VStr ''epoch 1''], []), ?d1)"
    by (simp add: dash_event_def where_not_def)
  have "out_err_step ([VStr ''epoch 1''], []) ?e2 = (([VStr ''epoch 1''], [VStr ''warning'']), [[VStr ''warning'']])"
    by (simp add: out_err_step_def roll_key_def roll_step_def lastn_def Let_def)
  moreover have "give_stdout [[VStr ''warning'']] ?d1 = Inr ?d2"
    by (simp add: update_with_def is_progress_def reserved_key_def)
  moreover have "update_with (ev_data ?e2) ?d2 = Inr ?d2"
    by (simp add: update_with_def is_progress_def reserved_key_def)
  ultimately have s2: "dash_event (([VStr ''epoch 1''], []), ?d1) ?e2 = Inr (([VStr ''epoch 1''], [VStr ''warning'']), ?d2)"
    by (simp add: dash_event_def where_not_def)
  have r: "dash_run (([], []), dash_init) ([?e1] @ [?e2]) = Inr (([VStr ''epoch 1''], [VStr ''warning'']), ?d2)"
    using s1 s2 by simp
  have "\<exists>txt fmt. py_join (lastn 10 (out_lines ''#stderr'' ([?e1] @ [?e2]))) = Inr txt \<and>
      rows ?d2 ''stdout'' = Some (RowPlain (VStr txt) fmt)"
    by (rule stdout_row_last_lines [OF r]) simp_all
  then show ?thesis using r by (auto simp: lastn_def)
qed


text \<open>
  C35 (dash_run_typed): the dash's subscription keeps its state well typed: after any run
  of the bus, progress bars sit only under \<open>\[...]\<close> keys and each output window holds
  at most ten lines; and a run can fail in two ways only, a progress dict whose key
  holds a plain row (\<open>AttributeError\<close> on \<open>update\<close>) or a captured line that is not a
  string (\<open>TypeError\<close> in \<open>join\<close>).
\<close>

theorem dash_run_typed:
  "(dash_run (([], []), dash_init) es = Inr (fs, d) \<longrightarrow>
      bar_keys d \<and> length (fst fs) \<le> 10 \<and> length (snd fs) \<le> 10) \<and>
   (dash_run (([], []), dash_init) es = Inl err \<longrightarrow>
      err = AttributeError ''update'' \<or> err = TypeError ''sequence item: expected str instance'')"
proof (intro conjI impI)
  assume r: "dash_run (([], []), dash_init) es = Inr (fs, d)"
  show "bar_keys d" using dash_run_bar_keys [OF r] bar_keys_init by simp
  have "fs = (lastn 10 (out_lines ''#stdout'' es), lastn 10 (out_lines ''#stderr'' es))"
    using dash_run_feed [OF r] out_err_windows by simp
  then show "length (fst fs) \<le> 10" and "length (snd fs) \<le> 10" by (simp_all add: length_lastn)
next
  assume "dash_run (([], []), dash_init) es = Inl err"
  then show "err = AttributeError ''update'' \<or> err = TypeError ''sequence item: expected str instance''"
    by (rule dash_run_error)
qed

theorem dash_run_typed_witness:
  "dash_run (([], []), dash_init) [] = Inr (([], []), dash_init) \<and> bar_keys dash_init \<and>
   dash_run (([], []), dash_init) [\<lparr>ev_data = [(''#stdout'', VInt 3)], ev_time = 0\<rparr>] =
     Inl (TypeError ''sequence item: expected str instance'')"
proof -
  have e: "dash_run (([], []), dash_init) [\<lparr>ev_data = [(''#stdout'', VInt 3)], ev_time = 0\<rparr>] =
     Inl (TypeError ''sequence item: expected str instance'')"
    by (simp add: dash_event_def out_err_step_def roll_key_def roll_step_def lastn_def Let_def)
  show ?thesis
    using dash_run_typed [of "[]" "([], [])" dash_init]
          dash_run_typed [of "[\<lparr>ev_data = [(''#stdout'', VInt 3)], ev_time = 0\<rparr>]"
                          _ _ "TypeError ''sequence item: expected str instance''"] e
    by simp
qed

end
