(* ===== verification/PyFormat.thy ===== *)
theory PyFormat
  imports Prelude
begin

text \<open>
  Python's \<open>str.format\<close> with positional arguments, as CPython's \<open>MarkupIterator\<close>
  (\<open>Objects/stringlib/unicode_format.h\<close>) runs it: one pass over the format string that
  copies literal text, turns \<open>{{\<close> and \<open>}}\<close> into single braces, and replaces each
  field \<open>{...}\<close> by an argument as soon as the field is complete, so the first error in
  reading order is the one raised.  Fields are numbered automatically (\<open>{}\<close>) or
  manually (\<open>{0}\<close>), never both; a named field raises \<open>KeyError\<close> since no keyword
  arguments are passed.  Arguments are already strings (\<open>Plain\<close> passes a \<open>str\<close>).
  Conversions (\<open>!r\<close>), format specs (\<open>:>5\<close>) and attribute or index access in a field
  are outside this model: such a field yields \<open>NotImplementedError\<close>.
\<close>

datatype fmt_mode =
    FText                    \<comment> \<open>copying literal text\<close>
  | FOpen                    \<comment> \<open>just read \<open>{\<close> in literal text\<close>
  | FClose                   \<comment> \<open>just read \<open>}\<close> in literal text\<close>
  | FField "char list" nat   \<comment> \<open>inside a field: its text so far (reversed) and the open nesting\<close>

datatype numbering = NumNone | NumAuto nat | NumManual

definition is_digit :: "char \<Rightarrow> bool" where
  "is_digit c \<longleftrightarrow> 48 \<le> (of_char c :: nat) \<and> (of_char c :: nat) \<le> 57"

definition digits_val :: "string \<Rightarrow> nat" where
  "digits_val s = foldl (\<lambda>n c. 10 * n + (of_char c - 48)) 0 s"

text \<open>\<open>args[i]\<close> for the field's index, or the \<open>IndexError\<close> of \<open>get_field_object\<close>.\<close>

definition fmt_arg :: "string list \<Rightarrow> nat \<Rightarrow> numbering \<Rightarrow> py_error + string \<times> numbering" where
  "fmt_arg args i nb = (if i < length args then Inr (args ! i, nb) else Inl IndexError)"

text \<open>One complete field: its name, then the argument it selects.\<close>

definition fmt_field :: "string list \<Rightarrow> numbering \<Rightarrow> string \<Rightarrow> py_error + string \<times> numbering" where
  "fmt_field args nb f =
     (let name = takeWhile (\<lambda>c. c \<noteq> CHR '':'' \<and> c \<noteq> CHR ''!'') f;
          arg = takeWhile (\<lambda>c. c \<noteq> CHR ''.'' \<and> c \<noteq> CHR ''['') name
      in if CHR ''{'' \<in> set name then Inl (ValueError ''unexpected '{' in field name'')
         else if name \<noteq> f \<or> arg \<noteq> name then Inl (NotImplementedError ''format spec'')
         else if arg = [] then
           (case nb of
              NumManual \<Rightarrow>
                Inl (ValueError ''cannot switch from manual field specification to automatic field numbering'')
            | NumNone \<Rightarrow> fmt_arg args 0 (NumAuto 1)
            | NumAuto n \<Rightarrow> fmt_arg args n (NumAuto (Suc n)))
         else if list_all is_digit arg then
           (case nb of
              NumAuto _ \<Rightarrow>
                Inl (ValueError ''cannot switch from automatic field numbering to manual field specification'')
            | _ \<Rightarrow> fmt_arg args (digits_val arg) NumManual)
         else Inl (KeyError arg))"

fun fmt_rank :: "fmt_mode \<Rightarrow> nat" where
  "fmt_rank FOpen = 1"
| "fmt_rank _ = 0"

text \<open>The scan.  After \<open>{\<close> the next character either escapes it or starts the field.\<close>

function fmt_run :: "string list \<Rightarrow> numbering \<Rightarrow> fmt_mode \<Rightarrow> string \<Rightarrow> py_error + string" where
  "fmt_run args nb FText [] = Inr []"
| "fmt_run args nb FText (c # cs) =
     (if c = CHR ''{'' then fmt_run args nb FOpen cs
      else if c = CHR ''}'' then fmt_run args nb FClose cs
      else map_sum id (Cons c) (fmt_run args nb FText cs))"
| "fmt_run args nb FOpen [] = Inl (ValueError ''Single '{' encountered in format string'')"
| "fmt_run args nb FOpen (c # cs) =
     (if c = CHR ''{'' then map_sum id (Cons c) (fmt_run args nb FText cs)
      else fmt_run args nb (FField [] 0) (c # cs))"
| "fmt_run args nb FClose [] = Inl (ValueError ''Single '}' encountered in format string'')"
| "fmt_run args nb FClose (c # cs) =
     (if c = CHR ''}'' then map_sum id (Cons c) (fmt_run args nb FText cs)
      else Inl (ValueError ''Single '}' encountered in format string''))"
| "fmt_run args nb (FField acc k) [] = Inl (ValueError ''expected '}' before end of string'')"
| "fmt_run args nb (FField acc k) (c # cs) =
     (if c = CHR ''}'' then
        (if k = 0 then
           (case fmt_field args nb (rev acc) of
              Inl e \<Rightarrow> Inl e
            | Inr (v, nb') \<Rightarrow> map_sum id ((@) v) (fmt_run args nb' FText cs))
         else fmt_run args nb (FField (c # acc) (k - 1)) cs)
      else if c = CHR ''{'' then fmt_run args nb (FField (c # acc) (Suc k)) cs
      else if c = CHR '':'' then fmt_run args nb (FField (c # acc) 0) cs
      else fmt_run args nb (FField (c # acc) k) cs)"
  by pat_completeness auto
termination
  by (relation "measures [\<lambda>(_, _, _, s). length s, \<lambda>(_, _, m, _). fmt_rank m]") auto

text \<open>\<open>fmt.format(*args)\<close>\<close>

definition py_format :: "string \<Rightarrow> string list \<Rightarrow> py_error + string" where
  "py_format fmt args = fmt_run args NumNone FText fmt"


subsection \<open>Literal text and exhausted arguments\<close>

definition has_brace :: "string \<Rightarrow> bool" where
  "has_brace s \<longleftrightarrow> CHR ''{'' \<in> set s \<or> CHR ''}'' \<in> set s"

lemma has_brace_simps [simp]:
  "\<not> has_brace []"
  "has_brace (c # cs) \<longleftrightarrow> c = CHR ''{'' \<or> c = CHR ''}'' \<or> has_brace cs"
  by (auto simp: has_brace_def)

text \<open>Text without braces is copied unchanged.\<close>

lemma fmt_literal: "\<not> has_brace s \<Longrightarrow> fmt_run args nb FText s = Inr s"
  by (induction s) auto

text \<open>
  Once automatic numbering has used every argument, every field raises; so a format
  that succeeds has only literal text and escapes, and each escape shortens it.
\<close>

lemma fmt_field_exhausted:
  "length args \<le> n \<Longrightarrow> fmt_field args (NumAuto n) f \<noteq> Inr x"
  by (auto simp: fmt_field_def fmt_arg_def Let_def)

lemma fmt_run_exhausted:
  "fmt_run args nb m s = Inr r \<Longrightarrow> nb = NumAuto n \<Longrightarrow> length args \<le> n \<Longrightarrow>
     (case m of
        FText \<Rightarrow> length r \<le> length s \<and> (has_brace s \<longrightarrow> length r < length s)
      | FField _ _ \<Rightarrow> False
      | _ \<Rightarrow> length r \<le> length s)"
proof (induction args nb m s arbitrary: r rule: fmt_run.induct)
  case (8 args nb acc k c cs)
  then show ?case
    by (auto split: if_splits sum.splits prod.splits dest: fmt_field_exhausted)
qed (auto split: if_splits)

lemma fmt_run_exhausted_text:
  "fmt_run args (NumAuto n) FText s = Inr r \<Longrightarrow> length args \<le> n \<Longrightarrow> has_brace s \<Longrightarrow>
     length r < length s"
  using fmt_run_exhausted [of args "NumAuto n" FText s r n] by simp

text \<open>A leading \<open>{}\<close> takes the first argument.\<close>

lemma fmt_field_first [simp]: "fmt_field (a # args) NumNone [] = Inr (a, NumAuto 1)"
  by (simp add: fmt_field_def fmt_arg_def)

lemma fmt_run_auto_first:
  "fmt_run (a # args) NumNone FText (CHR ''{'' # CHR ''}'' # cs) =
     map_sum id ((@) a) (fmt_run (a # args) (NumAuto 1) FText cs)"
  by simp

end
