(* ===== verification/Render.thy ===== *)
theory Render
  imports Dashboard PyFormat
begin

text \<open>
  How a \<open>Plain\<close> cell of the dashboard renders (\<open>src/milabench/instruments.py\<close>,
  lines 17-23): rich calls \<open>Plain.__rich__\<close>, which formats the row's \<open>fmt\<close> with the
  text of the object, \<open>str(trepr(self._object, max_depth=2, sequence_max=10))\<close>.
  That text comes from \<open>hrepr\<close> and is an input of the model.  The \<open>fmt\<close> of a row is
  \<open>"{}"\<close> or \<open>f"{{}} {units}"\<close> (\<open>Dashboard.plain_fmt\<close>); the f-string escapes its own
  braces but not those of the units text, which \<open>format\<close> then reads as markup.
\<close>

text \<open>\<open>Plain.__rich__\<close>: \<open>self.fmt.format(text)\<close>.\<close>

definition plain_rich :: "string \<Rightarrow> string \<Rightarrow> py_error + string" where
  "plain_rich fmt txt = py_format fmt [txt]"

text \<open>A cell of the table: a \<open>Plain\<close> row renders through \<open>__rich__\<close> with the text
  \<open>trepr\<close> gives its object; a \<open>ProgressBar\<close> is rendered by rich itself.\<close>

definition row_rich :: "(pyval \<Rightarrow> string) \<Rightarrow> row \<Rightarrow> py_error + string option" where
  "row_rich trepr r =
     (case r of
        RowPlain v fmt \<Rightarrow> map_sum id Some (plain_rich fmt (trepr v))
      | RowBar _ _ \<Rightarrow> Inr None)"

lemma plain_fmt_units: "py_truthy u \<Longrightarrow> plain_fmt (Some u) = ''{} '' @ py_str u"
  by (simp add: plain_fmt_def)

lemma plain_rich_units:
  "plain_rich (CHR ''{'' # CHR ''}'' # CHR '' '' # s) txt =
     map_sum id ((@) (txt @ '' '')) (fmt_run [txt] (NumAuto 1) FText s)"
  by (cases "fmt_run [txt] (NumAuto 1) FText s") (simp_all add: plain_rich_def py_format_def)

subsection \<open>Properties\<close>

text \<open>
  C28 (plain_units_shown): a row without units renders exactly the object's text, braces
  included; a row made with units renders the text, a space and the units exactly when
  the units' text has no brace.  Units such as \<open>"items/{s}"\<close> make \<open>__rich__\<close> raise
  (here \<open>KeyError\<close>) or show altered units (\<open>"{{}}"\<close> shows as \<open>"{}"\<close>).
\<close>

theorem plain_units_shown:
  "plain_rich ''{}'' txt = Inr txt \<and>
   (py_truthy u \<longrightarrow>
      (plain_rich (plain_fmt (Some u)) txt = Inr (txt @ '' '' @ py_str u) \<longleftrightarrow> \<not> has_brace (py_str u)))"
proof -
  have "plain_rich ''{}'' txt = Inr txt"
    by (simp add: plain_rich_def py_format_def fmt_run_auto_first)
  moreover have "plain_rich (plain_fmt (Some u)) txt = Inr (txt @ '' '' @ py_str u) \<longleftrightarrow>
      \<not> has_brace (py_str u)" if t: "py_truthy u"
  proof
    assume ok: "plain_rich (plain_fmt (Some u)) txt = Inr (txt @ '' '' @ py_str u)"
    then obtain r where r: "fmt_run [txt] (NumAuto 1) FText (py_str u) = Inr r" and "r = py_str u"
      by (auto simp: plain_fmt_units [OF t] plain_rich_units)
    then show "\<not> has_brace (py_str u)" using fmt_run_exhausted_text [OF r] by auto
  next
    assume "\<not> has_brace (py_str u)"
    then show "plain_rich (plain_fmt (Some u)) txt = Inr (txt @ '' '' @ py_str u)"
      by (simp add: plain_fmt_units [OF t] plain_rich_units fmt_literal)
  qed
  ultimately show ?thesis by blast
qed

theorem plain_units_shown_witness:
  "plain_rich ''{}'' ''{0.5}'' = Inr ''{0.5}'' \<and> py_truthy (VStr ''items/{s}'') \<and>
   plain_rich (plain_fmt (Some (VStr ''items/{s}''))) ''0.5'' \<noteq> Inr (''0.5'' @ '' '' @ ''items/{s}'') \<and>
   plain_rich (plain_fmt (Some (VStr ''items/{s}''))) ''0.5'' = Inl (KeyError ''s'')"
proof -
  have "plain_rich (plain_fmt (Some (VStr ''items/{s}''))) ''0.5'' = Inl (KeyError ''s'')"
    by (simp add: plain_fmt_def plain_rich_def py_format_def fmt_field_def fmt_arg_def is_digit_def Let_def)
  then show ?thesis
    using plain_units_shown [of "''{0.5}''" "VStr ''items/{s}''"]
          plain_units_shown [of "''0.5''" "VStr ''items/{s}''"] by simp
qed

end
