(* ===== verification/Observables.thy ===== *)
theory Observables
  imports Streams
begin

text \<open>
  The reactive operators at the level of notifications, as RxPY delivers them to an
  observer: \<open>on_next(x)\<close>, \<open>on_error(e)\<close>, \<open>on_completed()\<close>.  The stream reductions of
  \<open>Streams\<close> (\<open>first_of\<close>, \<open>last_of\<close>) describe what a pipeline computes over the whole
  observed stream; this theory describes how the operators that \<open>verify\<close> chains
  (\<open>first()\<close>, \<open>last()\<close>, the merge \<open>|\<close>, \<open>pairwise()\<close>, \<open>map\<close> and \<open>starmap\<close>) pass
  values, errors and completion along, one source notification at a time, so that
  the reductions can be checked against them.  A stream observed until teardown is
  its values followed by one completion.
\<close>

datatype 'a notif = ONext 'a | OError py_error | OCompleted

definition stream_of :: "'a list \<Rightarrow> 'a notif list" where
  "stream_of xs = map ONext xs @ [OCompleted]"

text \<open>The notifications of a pipeline that yields one value or fails.\<close>

definition result_notifs :: "py_error + 'a \<Rightarrow> 'a notif list" where
  "result_notifs r = (case r of Inr v \<Rightarrow> [ONext v, OCompleted] | Inl e \<Rightarrow> [OError e])"

text \<open>\<open>first()\<close>: the first value then completion; completion with no value is an error.
  The state records that the operator has finished.\<close>

definition first_obs :: "(bool, 'a notif, 'a notif) op" where
  "first_obs fin n =
     (if fin then (fin, [])
      else case n of
             ONext x \<Rightarrow> (True, [ONext x, OCompleted])
           | OError e \<Rightarrow> (True, [OError e])
           | OCompleted \<Rightarrow> (True, [OError SequenceContainsNoElements]))"

text \<open>\<open>last()\<close>: remembers the latest value and gives it at completion.\<close>

definition last_obs :: "('a option, 'a notif, 'a notif) op" where
  "last_obs s n =
     (case n of
        ONext x \<Rightarrow> (Some x, [])
      | OError e \<Rightarrow> (s, [OError e])
      | OCompleted \<Rightarrow>
          (s, case s of None \<Rightarrow> [OError SequenceContainsNoElements] | Some x \<Rightarrow> [ONext x, OCompleted]))"

text \<open>
  \<open>a | b\<close> (merge): both are subscribed to the same source, \<open>a\<close> first, so on each source
  notification \<open>a\<close>'s outputs are delivered before \<open>b\<close>'s.  Values pass; the first
  error is passed and ends the merge; completion is passed once both have completed.
  The merge's own state: left completed, right completed, ended.
\<close>

fun merge_in :: "bool \<times> bool \<times> bool \<Rightarrow> (bool \<times> 'b notif) list \<Rightarrow> (bool \<times> bool \<times> bool) \<times> 'b notif list" where
  "merge_in m [] = (m, [])"
| "merge_in (l, r, fin) ((left, n) # ns) =
     (if fin then ((l, r, fin), [])
      else case n of
             ONext v \<Rightarrow> (let q = merge_in (l, r, fin) ns in (fst q, ONext v # snd q))
           | OError e \<Rightarrow> ((l, r, True), [OError e])
           | OCompleted \<Rightarrow>
               (let l' = l \<or> left; r' = r \<or> \<not> left in
                if l' \<and> r' then ((l', r', True), [OCompleted]) else merge_in (l', r', fin) ns))"

definition merge_obs ::
  "('s, 'a notif, 'b notif) op \<Rightarrow> ('t, 'a notif, 'b notif) op \<Rightarrow>
     (('s \<times> 't) \<times> bool \<times> bool \<times> bool, 'a notif, 'b notif) op" where
  "merge_obs f g st n =
     (let ((s, t), m) = st; (s', o1) = f s n; (t', o2) = g t n;
          (m', out) = merge_in m (map (Pair True) o1 @ map (Pair False) o2)
      in (((s', t'), m'), out))"

text \<open>\<open>pairwise()\<close> on notifications; errors and completion pass.\<close>

definition pairwise_obs :: "('a option, 'a notif, ('a \<times> 'a) notif) op" where
  "pairwise_obs p n =
     (case n of
        ONext x \<Rightarrow> (Some x, case p of None \<Rightarrow> [] | Some y \<Rightarrow> [ONext (y, x)])
      | OError e \<Rightarrow> (p, [OError e])
      | OCompleted \<Rightarrow> (p, [OCompleted]))"

text \<open>\<open>map(f)\<close> with an \<open>f\<close> that may raise: the exception becomes the stream's error and
  ends it.  \<open>starmap(f)\<close> is \<open>map\<close> of \<open>f\<close> on the pair's components.\<close>

definition map_obs :: "('a \<Rightarrow> py_error + 'b) \<Rightarrow> (bool, 'a notif, 'b notif) op" where
  "map_obs f fin n =
     (if fin then (fin, [])
      else case n of
             ONext x \<Rightarrow> (case f x of Inr y \<Rightarrow> (False, [ONext y]) | Inl e \<Rightarrow> (True, [OError e]))
           | OError e \<Rightarrow> (True, [OError e])
           | OCompleted \<Rightarrow> (True, [OCompleted]))"

subsection \<open>The operators on a completed stream\<close>

lemma first_last_middle:
  "run_op (merge_obs first_obs last_obs) ((True, Some y), True, False, False) (map ONext ys) =
     (((True, Some (last (y # ys))), True, False, False), [])"
  by (induction ys arbitrary: y) (simp_all add: merge_obs_def first_obs_def last_obs_def run_op.simps(2))

text \<open>\<open>first() | last()\<close> over a completed stream: the first value, the last value,
  completion; or the error of \<open>first()\<close> when the stream is empty.\<close>

lemma first_merge_last:
  "outputs (merge_obs first_obs last_obs) ((False, None), False, False, False) (stream_of xs) =
     (case xs of [] \<Rightarrow> [OError SequenceContainsNoElements] | x # _ \<Rightarrow> [ONext x, ONext (last xs), OCompleted])"
proof (cases xs)
  case Nil
  then show ?thesis by (simp add: stream_of_def merge_obs_def first_obs_def last_obs_def)
next
  case (Cons x ys)
  have "merge_obs first_obs last_obs ((False, None), False, False, False) (ONext x) =
      (((True, Some x), True, False, False), [ONext x])"
    by (simp add: merge_obs_def first_obs_def last_obs_def)
  moreover have "merge_obs first_obs last_obs ((True, Some (last (x # ys))), True, False, False) OCompleted =
      (((True, Some (last (x # ys))), True, True, True), [ONext (last (x # ys)), OCompleted])"
    by (simp add: merge_obs_def first_obs_def last_obs_def)
  ultimately show ?thesis
    using Cons first_last_middle [of x ys]
    by (simp add: stream_of_def run_op_append Let_def)
qed

lemma last_stream:
  "outputs last_obs s (stream_of xs) = result_notifs (if xs = [] then (case s of None \<Rightarrow> Inl SequenceContainsNoElements | Some x \<Rightarrow> Inr x) else Inr (last xs))"
  by (induction xs arbitrary: s) (simp_all add: stream_of_def last_obs_def result_notifs_def split: option.split)

lemma map_obs_result:
  "outputs (map_obs f) False (result_notifs r) = result_notifs (case r of Inl e \<Rightarrow> Inl e | Inr x \<Rightarrow> f x)"
  by (simp add: result_notifs_def map_obs_def split: sum.split)

end
