(* ===== verification/Verify.thy ===== *)
theory Verify
  imports Observables "HOL-Library.Multiset"
begin

text \<open>
  The \<open>verify\<close> instrument (\<open>src/milabench/instruments.py\<close>, lines 250-281).  It
  subscribes at \<open>parse_args\<close>.  The checks are first defined as reductions of the
  completed stream (the list of all events given), then verify's observers are run
  event by event and at completion, in their subscription order, which decides what
  reaches \<open>ov.send\<close> (the dashboard's \<open>update_with\<close>) and when an error is raised.
\<close>

text \<open>\<open>losses = ov.given["?loss"]\<close>\<close>

definition losses :: "event list \<Rightarrow> pyval list" where
  "losses evs = map snd (getitem ''loss'' evs)"

text \<open>
  \<open>(first_loss | last_loss).pairwise().starmap(lambda fl, ll: ll < fl)\<close>: the merged
  stream carries the first loss (emitted at the first loss event) then the last one
  (emitted at completion), so its single pair is (first, last).  An empty loss stream
  makes \<open>first()\<close> fail, and the error ends the pipeline.
\<close>

definition loss_decreases :: "event list \<Rightarrow> py_error + bool" where
  "loss_decreases evs =
     (case first_of (losses evs) of
        Inl err \<Rightarrow> Inl err
      | Inr fl \<Rightarrow>
          (case last_of (losses evs) of
             Inl err \<Rightarrow> Inl err
           | Inr ll \<Rightarrow> py_lt ll fl))"

text \<open>\<open>last_loss.map(lambda x: x < 1)\<close>\<close>

definition loss_below_threshold :: "event list \<Rightarrow> py_error + bool" where
  "loss_below_threshold evs =
     (case last_of (losses evs) of
        Inl err \<Rightarrow> Inl err
      | Inr ll \<Rightarrow> py_lt ll (VInt 1))"

text \<open>\<open>ov.given.getitem(field, strict=False).is_empty().map(lambda x: not x)\<close>\<close>

definition has_field :: "string \<Rightarrow> event list \<Rightarrow> bool" where
  "has_field field evs = (\<not> is_empty (getitem field evs))"

definition verify_fields :: "string list" where
  "verify_fields = [''train_rate'', ''loading_rate'', ''compute_rate'']"

text \<open>
  The results in the order of their subscriptions, each tagged by \<open>as_(name)\<close>;
  a result that ended in an error is never sent.
\<close>

definition verify_results :: "event list \<Rightarrow> (string \<times> (py_error + bool)) list" where
  "verify_results evs =
     [(''verify.loss_decreases'', loss_decreases evs),
      (''verify.loss_below_threshold'', loss_below_threshold evs)] @
     map (\<lambda>f. (''verify.has_'' @ f, Inr (has_field f evs))) verify_fields"

text \<open>
  What verify does on the bus, observer by observer.  Its subscriptions to
  \<open>ov.given\<close>, in order: \<open>first_loss.give(...)\<close>, the \<open>first\<close> and the \<open>last\<close> of the
  merge, \<open>last_loss.map(...)\<close>, then the three presence checks.  \<open>first()\<close> and
  \<open>is_empty()\<close> emit (and complete) at the first matching event; \<open>last()\<close> emits at
  completion.  The state keeps the first loss (the merge's pairwise holds it), the last
  loss seen, and the fields whose presence check already sent \<open>True\<close>, in order.
\<close>

record vstate =
  v_first :: "pyval option"
  v_last :: "pyval option"
  v_has :: "string list"

definition vstate_init :: vstate where
  "vstate_init = \<lparr>v_first = None, v_last = None, v_has = []\<rparr>"

text \<open>What verify puts on the bus: a give (\<open>initial_loss\<close>) or a dict sent to \<open>ov.send\<close>.\<close>

datatype vout = VGive pydict | VSend pydict

text \<open>
  One given event: the first loss is given as \<open>initial_loss\<close> and kept; every loss
  becomes the last one; a field seen for the first time sends \<open>verify.has_<field>\<close>
  as \<open>True\<close> (\<open>is_empty()\<close> emits \<open>False\<close> at once, negated by the \<open>map\<close>).
\<close>

definition verify_event :: "(vstate, event, vout) op" where
  "verify_event st e =
     (let (st1, o1) =
        (case py_get (ev_data e) ''loss'' of
           None \<Rightarrow> (st, [])
         | Some v \<Rightarrow>
             (st\<lparr>v_first := (case v_first st of None \<Rightarrow> Some v | f \<Rightarrow> f), v_last := Some v\<rparr>,
              (case v_first st of None \<Rightarrow> [VGive [(''initial_loss'', v)]] | Some _ \<Rightarrow> [])));
          new = [f \<leftarrow> verify_fields. py_has (ev_data e) f \<and> f \<notin> set (v_has st)]
      in (st1\<lparr>v_has := v_has st @ new\<rparr>,
          o1 @ map (\<lambda>f. VSend [(''verify.has_'' @ f, VBool True)]) new))"

text \<open>
  Completion of the given stream, observers in subscription order.  Without a loss,
  \<open>first()\<close> fails in the first observer, whose \<open>give\<close> has no error handler: the
  error is raised out of the completion and no later observer completes.  Otherwise
  \<open>last()\<close> emits: the pair (first, last) is compared and sent, then \<open>x < 1\<close>; a
  comparison that raises ends the completion there.  Last, each presence check that
  never matched sends \<open>False\<close>.
\<close>

definition verify_complete :: "vstate \<Rightarrow> vout list \<times> py_error option" where
  "verify_complete st =
     (case (v_first st, v_last st) of
        (Some fl, Some ll) \<Rightarrow>
          (case py_lt ll fl of
             Inl err \<Rightarrow> ([], Some err)
           | Inr b \<Rightarrow>
               (case py_lt ll (VInt 1) of
                  Inl err \<Rightarrow> ([VSend [(''verify.loss_decreases'', VBool b)]], Some err)
                | Inr c \<Rightarrow>
                    ([VSend [(''verify.loss_decreases'', VBool b)],
                      VSend [(''verify.loss_below_threshold'', VBool c)]] @
                     map (\<lambda>f. VSend [(''verify.has_'' @ f, VBool False)])
                       [f \<leftarrow> verify_fields. f \<notin> set (v_has st)], None)))
      | _ \<Rightarrow> ([], Some SequenceContainsNoElements))"

text \<open>A whole run: the events given, then completion; the error, if any, is raised.\<close>

definition verify_run :: "event list \<Rightarrow> vout list \<times> py_error option" where
  "verify_run evs =
     (let r = run_op verify_event vstate_init evs; c = verify_complete (fst r)
      in (snd r @ fst c, snd c))"

text \<open>The dicts \<open>ov.send\<close> receives, in order.\<close>

definition verify_sends :: "event list \<Rightarrow> pydict list" where
  "verify_sends evs = [d. VSend d \<leftarrow> fst (verify_run evs)]"

definition loss_events :: "pyval list \<Rightarrow> event list" where
  "loss_events vs = map (\<lambda>v. \<lparr>ev_data = [(''loss'', v)], ev_time = 0\<rparr>) vs"

lemma losses_loss_events [simp]: "losses (loss_events vs) = vs"
  by (induction vs) (simp_all add: losses_def loss_events_def)

lemma loss_results_numeric:
  assumes "losses evs \<noteq> []" and "py_num (hd (losses evs)) = Some a"
    and "py_num (last (losses evs)) = Some b"
  shows "loss_decreases evs = Inr (b < a)" and "loss_below_threshold evs = Inr (b < 1)"
  using assms
  by (auto simp: loss_decreases_def loss_below_threshold_def first_of_def last_of_def py_lt_def
      split: list.splits)

lemma loss_results_empty:
  "losses evs = [] \<Longrightarrow>
     loss_decreases evs = Inl SequenceContainsNoElements \<and>
     loss_below_threshold evs = Inl SequenceContainsNoElements"
  by (simp add: loss_decreases_def loss_below_threshold_def first_of_def last_of_def)

subsection \<open>The pipelines on notifications\<close>

text \<open>
  The two loss checks as chains of operators on the notifications of \<open>losses\<close>
  (\<open>Observables\<close>): \<open>(first_loss | last_loss).pairwise().starmap(...)\<close> and
  \<open>last_loss.map(...)\<close>.  What reaches \<open>ov.send\<close> is the values they pass; an error
  reaching the subscriber is raised to the code that completed the stream.
\<close>

definition loss_decreases_obs :: "pyval notif list \<Rightarrow> bool notif list" where
  "loss_decreases_obs src =
     outputs (map_obs (\<lambda>(fl, ll). py_lt ll fl)) False
       (outputs pairwise_obs None
          (outputs (merge_obs first_obs last_obs) ((False, None), False, False, False) src))"

definition loss_below_obs :: "pyval notif list \<Rightarrow> bool notif list" where
  "loss_below_obs src = outputs (map_obs (\<lambda>ll. py_lt ll (VInt 1))) False (outputs last_obs None src)"

subsection \<open>Properties\<close>

text \<open>
  C8 (verify_loss_checks): when the given losses are numbers, \<open>loss_decreases\<close> is
  whether the last loss is below the first, and \<open>loss_below_threshold\<close> whether the
  last loss is below 1 (the threshold is fixed in the code).
\<close>

theorem verify_loss_checks:
  assumes "losses evs \<noteq> []" and "py_num (hd (losses evs)) = Some a"
    and "py_num (last (losses evs)) = Some b"
  shows "verify_results evs =
    [(''verify.loss_decreases'', Inr (b < a)), (''verify.loss_below_threshold'', Inr (b < 1)),
     (''verify.has_train_rate'', Inr (has_field ''train_rate'' evs)),
     (''verify.has_loading_rate'', Inr (has_field ''loading_rate'' evs)),
     (''verify.has_compute_rate'', Inr (has_field ''compute_rate'' evs))]"
  using loss_results_numeric [OF assms] by (simp add: verify_results_def verify_fields_def)

text \<open>The spec's example: losses 2.0, 1.5, 0.8 both decrease and end below the threshold.\<close>

theorem verify_loss_checks_witness:
  "losses (loss_events [VFloat 2, VFloat (3/2), VFloat (4/5)]) \<noteq> [] \<and>
   py_num (hd (losses (loss_events [VFloat 2, VFloat (3/2), VFloat (4/5)]))) = Some 2 \<and>
   py_num (last (losses (loss_events [VFloat 2, VFloat (3/2), VFloat (4/5)]))) = Some (4/5) \<and>
   take 2 (verify_results (loss_events [VFloat 2, VFloat (3/2), VFloat (4/5)])) =
     [(''verify.loss_decreases'', Inr True), (''verify.loss_below_threshold'', Inr True)]"
proof -
  have h: "losses (loss_events [VFloat 2, VFloat (3/2), VFloat (4/5)]) \<noteq> []"
    "py_num (hd (losses (loss_events [VFloat 2, VFloat (3/2), VFloat (4/5)]))) = Some 2"
    "py_num (last (losses (loss_events [VFloat 2, VFloat (3/2), VFloat (4/5)]))) = Some (4/5)"
    by simp_all
  show ?thesis using h verify_loss_checks [OF h] by simp
qed

text \<open>The spec's other example: losses 1.0, 1.0 do not decrease.\<close>

lemma verify_equal_losses:
  "loss_decreases (loss_events [VFloat 1, VFloat 1]) = Inr False"
  using loss_results_numeric(1) [of "loss_events [VFloat 1, VFloat 1]" 1 1] by simp

subsection \<open>The run of verify on the bus\<close>

lemma losses_Cons [simp]:
  "losses [] = []"
  "losses (e # evs) = (case py_get (ev_data e) ''loss'' of None \<Rightarrow> losses evs | Some v \<Rightarrow> v # losses evs)"
  by (simp_all add: losses_def split: option.split)

lemma has_field_Cons [simp]:
  "has_field f [] = False"
  "has_field f (e # evs) = (py_has (ev_data e) f \<or> has_field f evs)"
  by (simp_all add: has_field_def is_empty_def py_has_get split: option.split)

lemma sends_map_VSend [simp]:
  "[d. VSend d \<leftarrow> map (\<lambda>x. VSend (g x)) xs] = map g xs"
  "concat (map (case_vout (\<lambda>_. []) (\<lambda>d. [d]) \<circ> (\<lambda>x. VSend (g x))) xs) = map g xs"
  by (induction xs) simp_all

lemma verify_event_keeps:
  "v_has (fst (verify_event st e)) = v_has st @ [f \<leftarrow> verify_fields. py_has (ev_data e) f \<and> f \<notin> set (v_has st)]"
  "v_first (fst (verify_event st e)) =
     (case v_first st of None \<Rightarrow> py_get (ev_data e) ''loss'' | f \<Rightarrow> f)"
  "v_last (fst (verify_event st e)) =
     (case py_get (ev_data e) ''loss'' of None \<Rightarrow> v_last st | Some v \<Rightarrow> Some v)"
  "[d. VSend d \<leftarrow> snd (verify_event st e)] =
     map (\<lambda>f. [(''verify.has_'' @ f, VBool True)])
       [f \<leftarrow> verify_fields. py_has (ev_data e) f \<and> f \<notin> set (v_has st)]"
  by (auto simp: verify_event_def Let_def split: option.split)

lemma verify_events_losses:
  "v_first (fst (run_op verify_event st evs)) =
     (case v_first st of None \<Rightarrow> (case losses evs of [] \<Rightarrow> None | v # _ \<Rightarrow> Some v) | f \<Rightarrow> f) \<and>
   v_last (fst (run_op verify_event st evs)) =
     (if losses evs = [] then v_last st else Some (last (losses evs)))"
proof (induction evs arbitrary: st)
  case (Cons e evs)
  then show ?case
    by (auto simp: verify_event_keeps split: option.split list.split)
qed (simp split: option.split)

lemma verify_events_has:
  "\<exists>new. v_has (fst (run_op verify_event st evs)) = v_has st @ new \<and>
     [d. VSend d \<leftarrow> snd (run_op verify_event st evs)] =
       map (\<lambda>f. [(''verify.has_'' @ f, VBool True)]) new \<and>
     set new = {f \<in> set verify_fields. has_field f evs} - set (v_has st) \<and> distinct new"
proof (induction evs arbitrary: st)
  case Nil
  then show ?case by simp
next
  case (Cons e evs)
  let ?n1 = "[f \<leftarrow> verify_fields. py_has (ev_data e) f \<and> f \<notin> set (v_has st)]"
  obtain new where h: "v_has (fst (run_op verify_event (fst (verify_event st e)) evs)) =
      v_has (fst (verify_event st e)) @ new"
    and snd_eq: "[d. VSend d \<leftarrow> snd (run_op verify_event (fst (verify_event st e)) evs)] =
      map (\<lambda>f. [(''verify.has_'' @ f, VBool True)]) new"
    and sn: "set new = {f \<in> set verify_fields. has_field f evs} - set (v_has (fst (verify_event st e)))"
    and dn: "distinct new"
    using Cons.IH by blast
  have "distinct (?n1 @ new)"
    using dn sn by (auto simp: verify_event_keeps verify_fields_def)
  moreover have "set (?n1 @ new) = {f \<in> set verify_fields. has_field f (e # evs)} - set (v_has st)"
    using sn by (auto simp: verify_event_keeps)
  ultimately show ?case
    using h snd_eq by (intro exI [of _ "?n1 @ new"]) (simp add: verify_event_keeps)
qed

lemma verify_run_sends:
  "verify_sends evs =
     [d. VSend d \<leftarrow> snd (run_op verify_event vstate_init evs)] @
     [d. VSend d \<leftarrow> fst (verify_complete (fst (run_op verify_event vstate_init evs)))]"
  by (simp add: verify_sends_def verify_run_def Let_def)

lemma verify_run_error: "snd (verify_run evs) = snd (verify_complete (fst (run_op verify_event vstate_init evs)))"
  by (simp add: verify_run_def Let_def)

text \<open>A run that completes without raising sends every check exactly once.\<close>

lemma verify_sends_ok:
  assumes ok: "snd (verify_run evs) = None"
  shows "\<exists>kvs. verify_sends evs = map (\<lambda>kv. [kv]) kvs \<and> distinct (map fst kvs) \<and>
    set kvs = {(name, VBool b) | name b. (name, Inr b) \<in> set (verify_results evs)} \<and>
    (\<forall>(name, r) \<in> set (verify_results evs). \<exists>b. r = Inr b)"
proof -
  let ?st = "fst (run_op verify_event vstate_init evs)"
  obtain new where hs: "v_has ?st = new"
    and sr: "[d. VSend d \<leftarrow> snd (run_op verify_event vstate_init evs)] =
      map (\<lambda>f. [(''verify.has_'' @ f, VBool True)]) new"
    and sn: "set new = {f \<in> set verify_fields. has_field f evs}" and dn: "distinct new"
    using verify_events_has [of vstate_init evs] by (auto simp: vstate_init_def)
  have lf: "v_first ?st = (case losses evs of [] \<Rightarrow> None | v # _ \<Rightarrow> Some v)"
    and ll: "v_last ?st = (if losses evs = [] then None else Some (last (losses evs)))"
    using verify_events_losses [of vstate_init evs] by (simp_all add: vstate_init_def)
  obtain b c where ne: "losses evs \<noteq> []"
    and b: "py_lt (last (losses evs)) (hd (losses evs)) = Inr b"
    and c: "py_lt (last (losses evs)) (VInt 1) = Inr c"
    using ok lf ll unfolding verify_run_error
    by (auto simp: verify_complete_def split: list.splits sum.splits if_splits)
  have rd: "loss_decreases evs = Inr b" and rb: "loss_below_threshold evs = Inr c"
    using ne b c by (auto simp: loss_decreases_def loss_below_threshold_def first_of_def last_of_def
        split: list.split)
  let ?kvs = "map (\<lambda>f. (''verify.has_'' @ f, VBool True)) new @
    [(''verify.loss_decreases'', VBool b), (''verify.loss_below_threshold'', VBool c)] @
    map (\<lambda>f. (''verify.has_'' @ f, VBool False)) [f \<leftarrow> verify_fields. f \<notin> set new]"
  have cmp: "verify_complete ?st =
      ([VSend [(''verify.loss_decreases'', VBool b)], VSend [(''verify.loss_below_threshold'', VBool c)]] @
       map (\<lambda>f. VSend [(''verify.has_'' @ f, VBool False)]) [f \<leftarrow> verify_fields. f \<notin> set new], None)"
    using ne b c lf ll hs by (auto simp: verify_complete_def split: list.split)
  have "verify_sends evs = map (\<lambda>kv. [kv]) ?kvs"
    unfolding verify_run_sends using sr cmp by simp
  moreover have "distinct (map fst ?kvs)"
    using dn sn by (auto simp: verify_fields_def distinct_map inj_on_def)
  moreover have "set ?kvs = {(name, VBool b) | name b. (name, Inr b) \<in> set (verify_results evs)}"
  proof -
    let ?h = "\<lambda>f. (''verify.has_'' @ f, VBool (has_field f evs))"
    have s1: "set (map (\<lambda>f. (''verify.has_'' @ f, VBool True)) new) \<union>
        set (map (\<lambda>f. (''verify.has_'' @ f, VBool False)) [f \<leftarrow> verify_fields. f \<notin> set new]) =
        ?h ` set verify_fields"
      using sn by auto
    have s2: "{(name, VBool b) | name b. (name, Inr b) \<in> set (verify_results evs)} =
        insert (''verify.loss_decreases'', VBool b)
          (insert (''verify.loss_below_threshold'', VBool c) (?h ` set verify_fields))"
      unfolding verify_results_def using rd rb by auto
    show ?thesis using s1 s2 by auto
  qed
  moreover have "\<forall>(name, r) \<in> set (verify_results evs). \<exists>b. r = Inr b"
    using rd rb by (auto simp: verify_results_def)
  ultimately show ?thesis by blast
qed

text \<open>
  C14 (verify_fail_closed): when no loss was ever given, completing the stream raises
  the \<open>first()\<close> error (\<open>SequenceContainsNoElements\<close>) out of verify's first
  observer, so no loss check and no \<open>False\<close> presence check is ever sent: what
  \<open>ov.send\<close> received is exactly the \<open>True\<close> presence checks of the fields that were
  given, each once.
\<close>

theorem verify_fail_closed:
  assumes "losses evs = []"
  shows "snd (verify_run evs) = Some SequenceContainsNoElements \<and>
    mset (verify_sends evs) =
      mset (map (\<lambda>f. [(''verify.has_'' @ f, VBool True)]) (filter (\<lambda>f. has_field f evs) verify_fields))"
proof -
  let ?st = "fst (run_op verify_event vstate_init evs)"
  obtain new where sr: "[d. VSend d \<leftarrow> snd (run_op verify_event vstate_init evs)] =
      map (\<lambda>f. [(''verify.has_'' @ f, VBool True)]) new"
    and sn: "set new = {f \<in> set verify_fields. has_field f evs}" and dn: "distinct new"
    using verify_events_has [of vstate_init evs] by (auto simp: vstate_init_def)
  have "v_first ?st = None"
    using verify_events_losses [of vstate_init evs] assms by (simp add: vstate_init_def)
  then have c: "verify_complete ?st = ([], Some SequenceContainsNoElements)"
    by (simp add: verify_complete_def)
  have df: "distinct verify_fields" by (simp add: verify_fields_def)
  have "mset new = mset (filter (\<lambda>f. has_field f evs) verify_fields)"
  proof (rule set_eq_iff_mset_eq_distinct [THEN iffD1])
    show "distinct new" "distinct (filter (\<lambda>f. has_field f evs) verify_fields)" using dn df by simp_all
    show "set new = set (filter (\<lambda>f. has_field f evs) verify_fields)" using sn by simp
  qed
  then show ?thesis
    using c sr by (simp add: verify_run_error verify_run_sends)
qed

theorem verify_fail_closed_witness:
  "losses [\<lparr>ev_data = [(''train_rate'', VFloat 100)], ev_time = 5\<rparr>] = [] \<and>
   snd (verify_run [\<lparr>ev_data = [(''train_rate'', VFloat 100)], ev_time = 5\<rparr>]) =
     Some SequenceContainsNoElements \<and>
   mset (verify_sends [\<lparr>ev_data = [(''train_rate'', VFloat 100)], ev_time = 5\<rparr>]) =
     mset [[(''verify.has_train_rate'', VBool True)]]"
proof -
  have h: "losses [\<lparr>ev_data = [(''train_rate'', VFloat 100)], ev_time = 5\<rparr>] = []"
    by simp
  show ?thesis
    using h verify_fail_closed [OF h] by (simp add: verify_fields_def)
qed

text \<open>
  C32 (verify_pipelines_refine): over the completed stream of losses, the notification-level
  pipelines of the two loss checks deliver exactly one value then completion, the
  value being \<open>loss_decreases\<close> and \<open>loss_below_threshold\<close>, or exactly the error those
  reductions report: the reductions used for \<open>verify\<close> are what its operators compute.
\<close>

theorem verify_pipelines_refine:
  "loss_decreases_obs (stream_of (losses evs)) = result_notifs (loss_decreases evs) \<and>
   loss_below_obs (stream_of (losses evs)) = result_notifs (loss_below_threshold evs)"
proof
  show "loss_decreases_obs (stream_of (losses evs)) = result_notifs (loss_decreases evs)"
  proof (cases "losses evs")
    case Nil
    then show ?thesis
      by (simp add: loss_decreases_obs_def first_merge_last loss_decreases_def first_of_def
          result_notifs_def pairwise_obs_def map_obs_def)
  next
    case (Cons x ys)
    have "outputs pairwise_obs None [ONext x, ONext (last (x # ys)), OCompleted] =
        result_notifs (Inr (x, last (x # ys)))"
      by (simp add: pairwise_obs_def result_notifs_def)
    then show ?thesis
      using Cons map_obs_result [of "\<lambda>(fl, ll). py_lt ll fl" "Inr (x, last (x # ys))"]
      by (simp add: loss_decreases_obs_def first_merge_last loss_decreases_def first_of_def last_of_def)
  qed
next
  show "loss_below_obs (stream_of (losses evs)) = result_notifs (loss_below_threshold evs)"
    using map_obs_result [of "\<lambda>ll. py_lt ll (VInt 1)"]
    by (simp add: loss_below_obs_def last_stream loss_below_threshold_def last_of_def split: sum.split)
qed

end
