(* ===== verification/SpanRates.thy ===== *)
theory SpanRates
  imports Streams
begin

text \<open>
  The \<open>loading_rate\<close> and \<open>compute_rate\<close> instruments (\<open>src/milabench/instruments.py\<close>,
  lines 155-220).  Each wraps a span of the host's execution (a loader's iteration,
  a \<open>compute_start\<close> block) with the generator \<open>_timing\<close>: \<open>t0\<close> is read on entry,
  \<open>t1\<close> and the values captured in the span on exit, and the rate is
  \<open>len(batch) / seconds\<close>.  The rates are averaged over a window of five, throttled
  to one per second and given.
\<close>

record span =
  sp_enter :: ns
  sp_exit :: ns
  sp_results :: pydict

text \<open>\<open>data[0]\<close> on a list or tuple.\<close>

fun py_index0 :: "pyval \<Rightarrow> py_error + pyval" where
  "py_index0 (VList xs) = (case xs of [] \<Rightarrow> Inl IndexError | x # _ \<Rightarrow> Inr x)"
| "py_index0 (VTuple xs) = (case xs of [] \<Rightarrow> Inl IndexError | x # _ \<Rightarrow> Inr x)"
| "py_index0 _ = Inl (TypeError ''object is not subscriptable'')"

text \<open>\<open>len(data) / seconds\<close>, a float division that raises on a zero divisor.\<close>

definition rate_of :: "real \<Rightarrow> pyval \<Rightarrow> py_error + real option" where
  "rate_of seconds data =
     (case py_len data of
        Inl err \<Rightarrow> Inl err
      | Inr n \<Rightarrow> if seconds = 0 then Inl ZeroDivisionError else Inr (Some (real n / seconds)))"

text \<open>\<open>_timing\<close> of \<open>loading_rate\<close>: a list or a tuple stands for its first element.\<close>

definition timing_loading :: "ns \<Rightarrow> ns \<Rightarrow> pydict \<Rightarrow> py_error + real option" where
  "timing_loading t0 t1 results =
     (case py_get results ''batch'' of
        None \<Rightarrow> Inr None
      | Some data \<Rightarrow>
          (let seconds = real_of_int (t1 - t0) / 1000000000
           in case data of
                VList _ \<Rightarrow> (case py_index0 data of Inl err \<Rightarrow> Inl err | Inr d \<Rightarrow> rate_of seconds d)
              | VTuple _ \<Rightarrow> (case py_index0 data of Inl err \<Rightarrow> Inl err | Inr d \<Rightarrow> rate_of seconds d)
              | _ \<Rightarrow> rate_of seconds data))"

text \<open>\<open>_timing\<close> of \<open>compute_rate\<close>: only a list stands for its first element.\<close>

definition timing_compute :: "ns \<Rightarrow> ns \<Rightarrow> pydict \<Rightarrow> py_error + real option" where
  "timing_compute t0 t1 results =
     (case py_get results ''batch'' of
        None \<Rightarrow> Inr None
      | Some data \<Rightarrow>
          (let seconds = real_of_int (t1 - t0) / 1000000000
           in case data of
                VList _ \<Rightarrow> (case py_index0 data of Inl err \<Rightarrow> Inl err | Inr d \<Rightarrow> rate_of seconds d)
              | _ \<Rightarrow> rate_of seconds data))"

text \<open>
  How the loader is probed: a generator \<open>__iter__\<close> is probed at its \<open>yield\<close>; otherwise
  \<open>iter(loader)\<close> is built and its type probed at a method named \<open>next\<close>; otherwise the
  instrument prints an error and gives up on that loader.  \<open>iter\<close> of a non-iterable
  raises.
\<close>

record loader_info =
  iter_is_genfunc :: bool
  iterable :: bool
  iter_type_attrs :: "string list"

datatype loader_kind = GeneratorLoader | IteratorLoader | Unsupported

definition classify_loader :: "loader_info \<Rightarrow> py_error + loader_kind" where
  "classify_loader l =
     (if iter_is_genfunc l then Inr GeneratorLoader
      else if \<not> iterable l then Inl (TypeError ''object is not iterable'')
      else if ''next'' \<in> set (iter_type_attrs l) then Inr IteratorLoader
      else Inr Unsupported)"

text \<open>
  The given dicts, with the time at which each is given (the exit of the span that
  produced it), and the error that ended the pipeline, if any.
\<close>

definition rate_dict :: "string \<Rightarrow> real timed \<Rightarrow> pydict timed" where
  "rate_dict name x = (fst x, [(name, VFloat (snd x)), (''units'', VStr ''items/s'')])"

text \<open>\<open>.average(scan=5).throttle(1).map(...)\<close>, shared by both instruments.\<close>

definition smooth_rates :: "string \<Rightarrow> real timed list \<Rightarrow> pydict timed list" where
  "smooth_rates name rs =
     map (rate_dict name)
       (outputs (throttle_step 1000000000) None (outputs (timed_op (average_step 5)) [] rs))"

text \<open>\<open>prb.wmap(_timing).filter(lambda xs: xs is not None)\<close> then the smoothing.\<close>

definition loading_rate_run :: "span list \<Rightarrow> pydict timed list \<times> py_error option" where
  "loading_rate_run sps =
     (let r = map_raise (\<lambda>sp. map_sum id (Pair (sp_exit sp))
                  (timing_loading (sp_enter sp) (sp_exit sp) (sp_results sp))) sps;
          rates = List.map_filter (\<lambda>(t, x). map_option (Pair t) x) (fst r)
      in (smooth_rates ''loading_rate'' rates, snd r))"

text \<open>
  \<open>ov.given.wmap("compute_start", _timing)\<close> then the smoothing: there is no
  \<open>filter\<close>, so a \<open>None\<close> from a span without \<open>batch\<close> reaches the average, whose sum
  raises on it.
\<close>

definition compute_rate_run :: "span list \<Rightarrow> pydict timed list \<times> py_error option" where
  "compute_rate_run sps =
     (let r = map_raise (\<lambda>sp. case timing_compute (sp_enter sp) (sp_exit sp) (sp_results sp) of
                  Inl err \<Rightarrow> Inl err
                | Inr None \<Rightarrow> Inl (TypeError ''unsupported operand type(s) for +: NoneType'')
                | Inr (Some x) \<Rightarrow> Inr (sp_exit sp, x)) sps
      in (smooth_rates ''compute_rate'' (fst r), snd r))"

subsection \<open>Properties\<close>

lemma smooth_rates_avg:
  "smooth_rates name rs =
     map (rate_dict name) (outputs (throttle_step 1000000000) None
       (map (\<lambda>k. (fst (rs ! k), mean (lastn 5 (take (Suc k) (map snd rs))))) [0..<length rs]))"
  by (simp add: smooth_rates_def timed_average_outputs)

text \<open>
  C12 (smooth_rates_spaced): the rates a span instrument gives are at least one second
  apart (\<open>throttle(1)\<close>): a burst of fast spans never floods the bus.
\<close>

theorem smooth_rates_spaced:
  "list_all (\<lambda>(a, b). 1000000000 \<le> fst b - fst a) (adjacent (smooth_rates name rs))"
proof -
  have "fst (rate_dict name x) = fst x" for x by (simp add: rate_dict_def)
  then show ?thesis
    using throttle_spaced [of 1000000000]
    by (simp add: smooth_rates_def adjacent_map list_all_iff split_def)
qed

text \<open>
  C11 (smooth_rates_values): each rate given is stamped with the exit time of some span
  \<open>k\<close> and is the mean of the rates of the last five spans up to \<open>k\<close> (fewer at the
  start, never padded).
\<close>

theorem smooth_rates_values:
  assumes "x \<in> set (smooth_rates name rs)"
  shows "\<exists>k < length rs. x = (fst (rs ! k),
     [(name, VFloat (mean (lastn 5 (take (Suc k) (map snd rs))))), (''units'', VStr ''items/s'')])"
proof -
  let ?avg = "map (\<lambda>k. (fst (rs ! k), mean (lastn 5 (take (Suc k) (map snd rs))))) [0..<length rs]"
  obtain y where y: "y \<in> set (outputs (throttle_step 1000000000) None ?avg)" and x: "x = rate_dict name y"
    using assms by (auto simp: smooth_rates_avg)
  have "y \<in> set ?avg" using y subseq_set [OF throttle_subseq] by blast
  then show ?thesis using x by (auto simp: rate_dict_def)
qed

theorem smooth_rates_values_witness:
  "(5, [(''loading_rate'', VFloat 32), (''units'', VStr ''items/s'')])
     \<in> set (smooth_rates ''loading_rate'' [(5, 32)]) \<and>
   (\<exists>k < length [(5::int, 32::real)]. (5::int, [(''loading_rate'', VFloat 32), (''units'', VStr ''items/s'')]) =
     (fst ([(5::int, 32::real)] ! k), [(''loading_rate'', VFloat (mean (lastn 5 (take (Suc k) (map snd [(5::int, 32::real)]))))),
        (''units'', VStr ''items/s'')]))"
proof -
  have h: "(5, [(''loading_rate'', VFloat 32), (''units'', VStr ''items/s'')])
     \<in> set (smooth_rates ''loading_rate'' [(5, 32)])"
    by (simp add: smooth_rates_avg rate_dict_def mean_def lastn_def)
  show ?thesis using h smooth_rates_values [OF h] by blast
qed


text \<open>The averaging keeps the spans' times: only the throttle drops any.\<close>

lemma smooth_rates_throttled:
  "\<exists>avg. map fst avg = map fst rs \<and>
     smooth_rates name rs = map (rate_dict name) (outputs (throttle_step 1000000000) None avg)"
  using timed_op_times [OF average_step_single] by (auto simp: smooth_rates_def)

text \<open>
  C27 (smooth_rates_bounded): over spans whose exit times lie within \<open>T\<close> nanoseconds of
  each other, a span instrument gives at most \<open>T / 10^9 + 1\<close> rates: throttling bounds
  the bus traffic by the elapsed time, whatever the number of spans.
\<close>

theorem smooth_rates_bounded:
  assumes "rs \<noteq> []"
  shows "(int (length (smooth_rates name rs)) - 1) * 1000000000 \<le> Max (fst ` set rs) - Min (fst ` set rs)"
proof -
  obtain avg where t: "map fst avg = map fst rs"
    and sr: "smooth_rates name rs = map (rate_dict name) (outputs (throttle_step 1000000000) None avg)"
    using smooth_rates_throttled by blast
  let ?ys = "outputs (throttle_step 1000000000) None avg"
  have len: "length (smooth_rates name rs) = length ?ys" by (simp add: sr)
  have "fst ` set avg = fst ` set rs" by (metis t list.set_map)
  then have sub: "fst ` set ?ys \<subseteq> fst ` set rs"
    using subseq_set [OF throttle_subseq] by blast
  show ?thesis
  proof (cases "?ys = []")
    case True
    have "fst (hd rs) \<in> fst ` set rs" using assms by simp
    then have "Min (fst ` set rs) \<le> Max (fst ` set rs)"
      by (meson Min_le Max_ge finite_set finite_imageI order.trans)
    then show ?thesis using True len by simp
  next
    case False
    have "fst (last ?ys) \<le> Max (fst ` set rs)" and "Min (fst ` set rs) \<le> fst (hd ?ys)"
      using sub False by (auto intro!: Max_ge Min_le)
    then show ?thesis using throttle_span [OF False] len False by (simp add: of_nat_diff)
  qed
qed

theorem smooth_rates_bounded_witness:
  "[(0::int, 32::real), (400000000, 32), (800000000, 32)] \<noteq> [] \<and>
   (int (length (smooth_rates ''loading_rate'' [(0, 32), (400000000, 32), (800000000, 32)])) - 1) * 1000000000
     \<le> Max (fst ` set [(0::int, 32::real), (400000000, 32), (800000000, 32)])
        - Min (fst ` set [(0::int, 32::real), (400000000, 32), (800000000, 32)])"
  using smooth_rates_bounded [of "[(0, 32), (400000000, 32), (800000000, 32)]" "''loading_rate''"] by simp

text \<open>
  C20 (span_zero_duration): a span whose entry and exit read the same nanosecond (coarse
  clocks make this possible) raises \<open>ZeroDivisionError\<close> in \<open>_timing\<close>, in both
  instruments, instead of giving nothing.
\<close>

theorem span_zero_duration:
  "py_get results ''batch'' = Some (VObj s (Some n)) \<Longrightarrow>
     timing_loading t t results = Inl ZeroDivisionError \<and>
     timing_compute t t results = Inl ZeroDivisionError"
  by (simp add: timing_loading_def timing_compute_def rate_of_def)

theorem span_zero_duration_witness:
  "py_get [(''batch'', VObj ''tensor'' (Some 64))] ''batch'' = Some (VObj ''tensor'' (Some 64)) \<and>
   timing_loading 7 7 [(''batch'', VObj ''tensor'' (Some 64))] = Inl ZeroDivisionError \<and>
   timing_compute 7 7 [(''batch'', VObj ''tensor'' (Some 64))] = Inl ZeroDivisionError"
  using span_zero_duration [of "[(''batch'', VObj ''tensor'' (Some 64))]" "''tensor''" 64 7]
  by simp

text \<open>
  C21 (loading_rate_stops): once a span raises in \<open>_timing\<close>, the error ends the
  \<open>loading_rate\<close> pipeline: nothing computed from later spans is ever given.
\<close>

theorem loading_rate_stops:
  assumes "snd (loading_rate_run sps1) = None"
    and "timing_loading (sp_enter sp) (sp_exit sp) (sp_results sp) = Inl err"
  shows "loading_rate_run (sps1 @ sp # sps2) = (fst (loading_rate_run sps1), Some err)"
  using assms by (simp add: loading_rate_run_def Let_def map_raise_append)

theorem loading_rate_stops_witness:
  "snd (loading_rate_run []) = None \<and>
   timing_loading (sp_enter \<lparr>sp_enter = 5, sp_exit = 5, sp_results = [(''batch'', VObj ''t'' (Some 8))]\<rparr>)
     (sp_exit \<lparr>sp_enter = 5, sp_exit = 5, sp_results = [(''batch'', VObj ''t'' (Some 8))]\<rparr>)
     (sp_results \<lparr>sp_enter = 5, sp_exit = 5, sp_results = [(''batch'', VObj ''t'' (Some 8))]\<rparr>)
     = Inl ZeroDivisionError \<and>
   loading_rate_run ([] @ \<lparr>sp_enter = 5, sp_exit = 5, sp_results = [(''batch'', VObj ''t'' (Some 8))]\<rparr> #
       [\<lparr>sp_enter = 6, sp_exit = 10, sp_results = [(''batch'', VObj ''t'' (Some 8))]\<rparr>]) =
     (fst (loading_rate_run []), Some ZeroDivisionError)"
proof -
  have h: "snd (loading_rate_run []) = None"
    "timing_loading (sp_enter \<lparr>sp_enter = 5, sp_exit = 5, sp_results = [(''batch'', VObj ''t'' (Some 8))]\<rparr>)
     (sp_exit \<lparr>sp_enter = 5, sp_exit = 5, sp_results = [(''batch'', VObj ''t'' (Some 8))]\<rparr>)
     (sp_results \<lparr>sp_enter = 5, sp_exit = 5, sp_results = [(''batch'', VObj ''t'' (Some 8))]\<rparr>)
     = Inl ZeroDivisionError"
    by (simp_all add: loading_rate_run_def timing_loading_def rate_of_def)
  show ?thesis using h loading_rate_stops [OF h] by blast
qed

text \<open>
  For a batch given as a tuple \<open>(inputs, targets)\<close>,
  \<open>loading_rate\<close> counts the rows of its first element while \<open>compute_rate\<close> takes
  \<open>len\<close> of the tuple itself, 2, whatever the batch size.
\<close>

theorem compute_tuple_batch:
  assumes "py_len x = Inr n" and "t0 \<noteq> t1"
  shows "timing_loading t0 t1 [(''batch'', VTuple [x, y])] =
           Inr (Some (real n * 1000000000 / real_of_int (t1 - t0))) \<and>
         timing_compute t0 t1 [(''batch'', VTuple [x, y])] =
           Inr (Some (2 * 1000000000 / real_of_int (t1 - t0)))"
  using assms by (simp add: timing_loading_def timing_compute_def rate_of_def)

theorem compute_tuple_batch_witness:
  "py_len (VObj ''inputs'' (Some 32)) = Inr 32 \<and> (0::int) \<noteq> 1000000000 \<and>
   timing_loading 0 1000000000 [(''batch'', VTuple [VObj ''inputs'' (Some 32), VObj ''targets'' (Some 32)])] =
     Inr (Some 32) \<and>
   timing_compute 0 1000000000 [(''batch'', VTuple [VObj ''inputs'' (Some 32), VObj ''targets'' (Some 32)])] =
     Inr (Some 2)"
  using compute_tuple_batch [of "VObj ''inputs'' (Some 32)" 32 0 1000000000 "VObj ''targets'' (Some 32)"]
  by simp

text \<open>
  C22 (compute_missing_batch): a \<open>compute_start\<close> block that gives no \<open>batch\<close>, at
  any position after blocks that timed normally, makes \<open>_timing\<close> return
  \<open>None\<close>; with no filter before \<open>average\<close>, the \<open>None\<close> raises in the window's
  sum and ends the \<open>compute_rate\<close> pipeline: nothing beyond the rates of the blocks
  before it is given, whatever the later blocks hold.
\<close>

theorem compute_missing_batch:
  assumes "snd (compute_rate_run sps1) = None" and "py_get (sp_results sp) ''batch'' = None"
  shows "compute_rate_run (sps1 @ sp # sps2) =
    (fst (compute_rate_run sps1), Some (TypeError ''unsupported operand type(s) for +: NoneType''))"
  using assms by (simp add: compute_rate_run_def timing_compute_def Let_def map_raise_append)

theorem compute_missing_batch_witness:
  "snd (compute_rate_run [\<lparr>sp_enter = 0, sp_exit = 1000000000, sp_results = [(''batch'', VObj ''t'' (Some 8))]\<rparr>]) = None \<and>
   py_get (sp_results \<lparr>sp_enter = 1000000000, sp_exit = 2000000000, sp_results = [(''loss'', VFloat 1)]\<rparr>) ''batch'' = None \<and>
   compute_rate_run ([\<lparr>sp_enter = 0, sp_exit = 1000000000, sp_results = [(''batch'', VObj ''t'' (Some 8))]\<rparr>] @
       \<lparr>sp_enter = 1000000000, sp_exit = 2000000000, sp_results = [(''loss'', VFloat 1)]\<rparr> #
       [\<lparr>sp_enter = 2000000000, sp_exit = 3000000000, sp_results = [(''batch'', VObj ''t'' (Some 8))]\<rparr>]) =
     (fst (compute_rate_run [\<lparr>sp_enter = 0, sp_exit = 1000000000, sp_results = [(''batch'', VObj ''t'' (Some 8))]\<rparr>]),
      Some (TypeError ''unsupported operand type(s) for +: NoneType''))"
proof -
  have h: "snd (compute_rate_run [\<lparr>sp_enter = 0, sp_exit = 1000000000, sp_results = [(''batch'', VObj ''t'' (Some 8))]\<rparr>]) = None"
    "py_get (sp_results \<lparr>sp_enter = 1000000000, sp_exit = 2000000000, sp_results = [(''loss'', VFloat 1)]\<rparr>) ''batch'' = None"
    by (simp_all add: compute_rate_run_def timing_compute_def rate_of_def Let_def)
  show ?thesis using h compute_missing_batch [OF h] by blast
qed

end
