(* ===== verification/GPUMonitor.thy ===== *)
theory GPUMonitor
  imports Prelude
begin

text \<open>
  The \<open>GPUMonitor\<close> thread and the \<open>profile_gpu\<close> instrument that drives it
  (\<open>src/milabench/instruments.py\<close>, lines 223-247).  At \<open>load_script\<close> the instrument
  starts the thread; at \<open>run_script\<close> it calls \<open>monitor.stop()\<close>, which sets the
  \<open>stopped\<close> flag and returns at once (there is no \<open>join\<close>).  The thread imports
  \<open>GPUtil\<close>, then loops: check the flag, give \<open>gpudata=GPUtil.getGPUs()\<close>, sleep.
  The two threads interleave arbitrarily, so the system is a step relation: one rule
  per atomic step of either thread.  The state counts the \<open>gpudata\<close> gives, and
  those made after \<open>stop()\<close> returned.
\<close>

text \<open>Where the monitor thread is in \<open>run()\<close>.\<close>

datatype mon_pc =
    MStart    \<comment> \<open>started, before \<open>import GPUtil\<close>\<close>
  | MCheck    \<comment> \<open>at \<open>while not self.stopped\<close>\<close>
  | MPoll     \<comment> \<open>at \<open>self.ov.give(gpudata=GPUtil.getGPUs())\<close>\<close>
  | MSleep    \<comment> \<open>at \<open>time.sleep(self.delay)\<close>\<close>
  | MExited   \<comment> \<open>\<open>run()\<close> returned\<close>
  | MCrashed  \<comment> \<open>\<open>run()\<close> raised; the thread is dead\<close>

record gpu_sys =
  mpc :: mon_pc
  stopped :: bool
  gives :: nat
  stop_returned :: bool
  gives_after_stop :: nat

text \<open>\<open>GPUMonitor(ov, 100)\<close> then \<open>monitor.start()\<close>: \<open>stopped\<close> is false.\<close>

definition gpu_init :: gpu_sys where
  "gpu_init = \<lparr>mpc = MStart, stopped = False, gives = 0, stop_returned = False, gives_after_stop = 0\<rparr>"

text \<open>
  The atomic steps.  A failing \<open>getGPUs()\<close> (or import) raises out of \<open>run()\<close>; nothing
  in the loop catches it.  \<open>stop()\<close> is one assignment made by the instrument's thread,
  and is made once.
\<close>

inductive gpu_step :: "gpu_sys \<Rightarrow> gpu_sys \<Rightarrow> bool" where
  import_ok: "mpc s = MStart \<Longrightarrow> gpu_step s (s\<lparr>mpc := MCheck\<rparr>)"
| import_fail: "mpc s = MStart \<Longrightarrow> gpu_step s (s\<lparr>mpc := MCrashed\<rparr>)"
| check_stopped: "mpc s = MCheck \<Longrightarrow> stopped s \<Longrightarrow> gpu_step s (s\<lparr>mpc := MExited\<rparr>)"
| check_running: "mpc s = MCheck \<Longrightarrow> \<not> stopped s \<Longrightarrow> gpu_step s (s\<lparr>mpc := MPoll\<rparr>)"
| poll_ok: "mpc s = MPoll \<Longrightarrow>
     gpu_step s (s\<lparr>mpc := MSleep, gives := Suc (gives s),
                  gives_after_stop := gives_after_stop s + (if stop_returned s then 1 else 0)\<rparr>)"
| poll_fail: "mpc s = MPoll \<Longrightarrow> gpu_step s (s\<lparr>mpc := MCrashed\<rparr>)"
| wake: "mpc s = MSleep \<Longrightarrow> gpu_step s (s\<lparr>mpc := MCheck\<rparr>)"
| stop_call: "\<not> stop_returned s \<Longrightarrow> gpu_step s (s\<lparr>stopped := True, stop_returned := True\<rparr>)"

inductive_cases gpu_stepE: "gpu_step s t"

inductive gpu_reachable :: "gpu_sys \<Rightarrow> bool" where
  init: "gpu_reachable gpu_init"
| step: "gpu_reachable s \<Longrightarrow> gpu_step s t \<Longrightarrow> gpu_reachable t"

subsection \<open>The invariant\<close>

text \<open>
  \<open>stop()\<close> having returned means the flag is set; at most one give happens after it,
  and only from a poll already past the check, so the thread is then on its way out.
\<close>

definition gpu_inv :: "gpu_sys \<Rightarrow> bool" where
  "gpu_inv s \<longleftrightarrow>
     stopped s = stop_returned s \<and>
     (\<not> stop_returned s \<longrightarrow> gives_after_stop s = 0) \<and>
     gives_after_stop s \<le> 1 \<and>
     (gives_after_stop s = 1 \<longrightarrow> mpc s \<in> {MSleep, MCheck, MExited})"

lemma gpu_inv_init: "gpu_inv gpu_init"
  by (simp add: gpu_inv_def gpu_init_def)

lemma gpu_step_inv: "gpu_step s t \<Longrightarrow> gpu_inv s \<Longrightarrow> gpu_inv t"
  by (induction rule: gpu_step.induct) (auto simp: gpu_inv_def)

lemma gpu_reachable_inv: "gpu_reachable s \<Longrightarrow> gpu_inv s"
proof (induction rule: gpu_reachable.induct)
  case init
  show ?case by (rule gpu_inv_init)
next
  case (step s t)
  then show ?case by (blast intro: gpu_step_inv)
qed

text \<open>A dead thread stays dead and gives nothing more.\<close>

lemma gpu_step_crashed:
  "gpu_step s t \<Longrightarrow> mpc s = MCrashed \<Longrightarrow> mpc t = MCrashed \<and> gives t = gives s"
  by (induction rule: gpu_step.induct) auto

lemma gpu_steps_crashed:
  "gpu_step\<^sup>*\<^sup>* s t \<Longrightarrow> mpc s = MCrashed \<Longrightarrow> mpc t = MCrashed \<and> gives t = gives s"
  by (induction rule: rtranclp_induct) (auto dest: gpu_step_crashed)

text \<open>A run that gives after \<open>stop()\<close> returned: the thread passes the check, then the
  instrument calls \<open>stop()\<close>, then the thread gives.\<close>

lemma gpu_reach_poll:
  "gpu_reachable ((gpu_init\<lparr>mpc := MCheck\<rparr>)\<lparr>mpc := MPoll\<rparr>)"
proof -
  have r1: "gpu_reachable (gpu_init\<lparr>mpc := MCheck\<rparr>)"
    by (rule gpu_reachable.step [OF gpu_reachable.init], rule gpu_step.import_ok)
       (simp add: gpu_init_def)
  show ?thesis
    by (rule gpu_reachable.step [OF r1], rule gpu_step.check_running) (simp_all add: gpu_init_def)
qed

lemma gpu_reach_stopped:
  "gpu_reachable (((gpu_init\<lparr>mpc := MCheck\<rparr>)\<lparr>mpc := MPoll\<rparr>)\<lparr>stopped := True, stop_returned := True\<rparr>)"
  by (rule gpu_reachable.step [OF gpu_reach_poll], rule gpu_step.stop_call) (simp add: gpu_init_def)

subsection \<open>The loop after \<open>stop()\<close>\<close>

text \<open>
  Once the flag is set, every step of the thread brings it closer to the end of
  \<open>run()\<close>: the number of steps left is at most \<open>mon_rank\<close> of its position (at the poll:
  give, sleep, check).  This is the loop's termination measure.
\<close>

fun mon_rank :: "mon_pc \<Rightarrow> nat" where
  "mon_rank MStart = 2"
| "mon_rank MCheck = 1"
| "mon_rank MPoll = 3"
| "mon_rank MSleep = 2"
| "mon_rank MExited = 0"
| "mon_rank MCrashed = 0"

lemma mon_rank_le: "mon_rank pc \<le> 3"
  by (cases pc) simp_all

lemma gpu_step_rank:
  "gpu_step s t \<Longrightarrow> stopped s \<Longrightarrow> stop_returned s \<Longrightarrow>
     mon_rank (mpc t) < mon_rank (mpc s) \<and> stopped t \<and> stop_returned t"
  by (induction rule: gpu_step.induct) auto

lemma gpu_steps_rank:
  "(gpu_step ^^ n) s t \<Longrightarrow> stopped s \<Longrightarrow> stop_returned s \<Longrightarrow> n \<le> mon_rank (mpc s)"
proof (induction n arbitrary: s)
  case 0
  then show ?case by simp
next
  case (Suc n)
  obtain u where su: "gpu_step s u" and ut: "(gpu_step ^^ n) u t"
    using relpowp_Suc_D2 [OF Suc.prems(1)] by blast
  with Suc.prems have "mon_rank (mpc u) < mon_rank (mpc s)" and "n \<le> mon_rank (mpc u)"
    using gpu_step_rank [OF su] Suc.IH [OF ut] by auto
  then show ?case by simp
qed

text \<open>With the flag set, a live thread can always run to the end of \<open>run()\<close>.\<close>

lemma gpu_check_exit:
  "mpc s = MCheck \<Longrightarrow> stopped s \<Longrightarrow> gpu_step\<^sup>*\<^sup>* s (s\<lparr>mpc := MExited\<rparr>)"
  by (blast intro: gpu_step.check_stopped)

lemma gpu_stopped_exit:
  assumes "stopped s" and "mpc s \<noteq> MCrashed"
  shows "\<exists>t. gpu_step\<^sup>*\<^sup>* s t \<and> mpc t = MExited \<and> stop_returned t = stop_returned s"
proof (cases "mpc s")
  case MStart
  then have "gpu_step s (s\<lparr>mpc := MCheck\<rparr>)" by (rule gpu_step.import_ok)
  then show ?thesis
    using gpu_check_exit [of "s\<lparr>mpc := MCheck\<rparr>"] assms(1)
    by (auto intro!: exI [of _ "s\<lparr>mpc := MExited\<rparr>"] intro: converse_rtranclp_into_rtranclp)
next
  case MCheck
  then show ?thesis using gpu_check_exit [OF MCheck assms(1)] by auto
next
  case MPoll
  let ?u = "s\<lparr>mpc := MSleep, gives := Suc (gives s),
              gives_after_stop := gives_after_stop s + (if stop_returned s then 1 else 0)\<rparr>"
  have "gpu_step s ?u" using MPoll by (rule gpu_step.poll_ok)
  moreover have "gpu_step ?u (?u\<lparr>mpc := MCheck\<rparr>)" by (rule gpu_step.wake) simp
  ultimately show ?thesis
    using gpu_check_exit [of "?u\<lparr>mpc := MCheck\<rparr>"] assms(1)
    by (auto intro!: exI [of _ "?u\<lparr>mpc := MExited\<rparr>"] intro: converse_rtranclp_into_rtranclp)
next
  case MSleep
  then have "gpu_step s (s\<lparr>mpc := MCheck\<rparr>)" by (rule gpu_step.wake)
  then show ?thesis
    using gpu_check_exit [of "s\<lparr>mpc := MCheck\<rparr>"] assms(1)
    by (auto intro!: exI [of _ "s\<lparr>mpc := MExited\<rparr>"] intro: converse_rtranclp_into_rtranclp)
next
  case MExited
  then show ?thesis by auto
next
  case MCrashed
  then show ?thesis using assms(2) by simp
qed

subsection \<open>Properties\<close>

text \<open>
  C10 (gpu_late_gives_bound): in every reachable state at most one \<open>gpudata\<close> give
  happens after \<open>monitor.stop()\<close> has returned.
\<close>

theorem gpu_late_gives_bound: "gpu_reachable s \<Longrightarrow> gives_after_stop s \<le> 1"
  using gpu_reachable_inv by (simp add: gpu_inv_def)

theorem gpu_late_gives_bound_witness:
  "gpu_reachable ((gpu_init\<lparr>mpc := MCheck\<rparr>)\<lparr>mpc := MPoll\<rparr>) \<and>
   gives_after_stop ((gpu_init\<lparr>mpc := MCheck\<rparr>)\<lparr>mpc := MPoll\<rparr>) \<le> 1"
  using gpu_late_gives_bound [OF gpu_reach_poll] gpu_reach_poll by simp

text \<open>
  C18 (gpu_give_after_stop): that one give does happen: \<open>stop()\<close> does not join the
  thread, so a run reaches a state where \<open>stop()\<close> has returned and a \<open>gpudata\<close>
  give has been made after it (the spec requires none).
\<close>

theorem gpu_give_after_stop:
  "\<exists>s. gpu_reachable s \<and> stop_returned s \<and> gives_after_stop s = 1"
proof -
  let ?p = "(gpu_init\<lparr>mpc := MCheck\<rparr>)\<lparr>mpc := MPoll\<rparr>"
  let ?q = "?p\<lparr>stopped := True, stop_returned := True\<rparr>"
  let ?r = "?q\<lparr>mpc := MSleep, gives := Suc (gives ?q),
              gives_after_stop := gives_after_stop ?q + (if stop_returned ?q then 1 else 0)\<rparr>"
  have q: "gpu_reachable ?q" by (rule gpu_reach_stopped)
  have "gpu_reachable ?r"
    by (rule gpu_reachable.step [OF q], rule gpu_step.poll_ok) simp
  moreover have "stop_returned ?r \<and> gives_after_stop ?r = 1" by (simp add: gpu_init_def)
  ultimately show ?thesis by blast
qed

text \<open>
  C19 (gpu_poll_failure_fatal): one failing \<open>getGPUs()\<close> kills the monitor: from any
  reachable polling state the failure is a step, after which no run of the system
  gives \<open>gpudata\<close> again (the spec asks that a failed poll be skipped).
\<close>

theorem gpu_poll_failure_fatal:
  assumes "gpu_reachable s" and "mpc s = MPoll"
  shows "gpu_step s (s\<lparr>mpc := MCrashed\<rparr>) \<and>
    (\<forall>u. gpu_step\<^sup>*\<^sup>* (s\<lparr>mpc := MCrashed\<rparr>) u \<longrightarrow> gives u = gives s \<and> mpc u = MCrashed)"
  using assms(2) gpu_step.poll_fail [OF assms(2)] gpu_steps_crashed [of "s\<lparr>mpc := MCrashed\<rparr>"]
  by auto

theorem gpu_poll_failure_fatal_witness:
  "gpu_reachable ((gpu_init\<lparr>mpc := MCheck\<rparr>)\<lparr>mpc := MPoll\<rparr>) \<and>
   mpc ((gpu_init\<lparr>mpc := MCheck\<rparr>)\<lparr>mpc := MPoll\<rparr>) = MPoll \<and>
   gpu_step ((gpu_init\<lparr>mpc := MCheck\<rparr>)\<lparr>mpc := MPoll\<rparr>) (((gpu_init\<lparr>mpc := MCheck\<rparr>)\<lparr>mpc := MPoll\<rparr>)\<lparr>mpc := MCrashed\<rparr>)"
  using gpu_poll_failure_fatal [OF gpu_reach_poll] gpu_reach_poll by simp


text \<open>
  C25 (gpu_stop_terminates): once \<open>monitor.stop()\<close> has returned, the monitor thread ends
  within three more steps of any interleaving: the \<open>while not self.stopped\<close> loop
  terminates (at worst it finishes a poll, sleeps once and sees the flag).
\<close>

theorem gpu_stop_terminates:
  assumes "gpu_reachable s" and "stop_returned s" and "(gpu_step ^^ n) s t"
  shows "n \<le> 3"
proof -
  have "stopped s" using gpu_reachable_inv [OF assms(1)] assms(2) by (simp add: gpu_inv_def)
  then show ?thesis using gpu_steps_rank [OF assms(3)] assms(2) mon_rank_le [of "mpc s"] by simp
qed

theorem gpu_stop_terminates_witness:
  "gpu_reachable (((gpu_init\<lparr>mpc := MCheck\<rparr>)\<lparr>mpc := MPoll\<rparr>)\<lparr>stopped := True, stop_returned := True\<rparr>) \<and>
   stop_returned (((gpu_init\<lparr>mpc := MCheck\<rparr>)\<lparr>mpc := MPoll\<rparr>)\<lparr>stopped := True, stop_returned := True\<rparr>) \<and>
   (gpu_step ^^ 1) (((gpu_init\<lparr>mpc := MCheck\<rparr>)\<lparr>mpc := MPoll\<rparr>)\<lparr>stopped := True, stop_returned := True\<rparr>)
     ((((gpu_init\<lparr>mpc := MCheck\<rparr>)\<lparr>mpc := MPoll\<rparr>)\<lparr>stopped := True, stop_returned := True\<rparr>)\<lparr>mpc := MCrashed\<rparr>) \<and>
   (1::nat) \<le> 3"
proof -
  have st: "(gpu_step ^^ 1) (((gpu_init\<lparr>mpc := MCheck\<rparr>)\<lparr>mpc := MPoll\<rparr>)\<lparr>stopped := True, stop_returned := True\<rparr>)
     ((((gpu_init\<lparr>mpc := MCheck\<rparr>)\<lparr>mpc := MPoll\<rparr>)\<lparr>stopped := True, stop_returned := True\<rparr>)\<lparr>mpc := MCrashed\<rparr>)"
    unfolding relpowp_1 by (rule gpu_step.poll_fail) simp
  show ?thesis using gpu_stop_terminates [OF gpu_reach_stopped _ st] gpu_reach_stopped st by simp
qed

text \<open>
  C26 (gpu_monitor_exits): from every reachable state in which the thread is alive, there is
  a run in which the instrument calls \<open>stop()\<close> (if it has not yet) and the thread
  leaves \<open>run()\<close> normally: the monitor can always be shut down.
\<close>

theorem gpu_monitor_exits:
  assumes "gpu_reachable s" and "mpc s \<noteq> MCrashed"
  shows "\<exists>t. gpu_step\<^sup>*\<^sup>* s t \<and> mpc t = MExited \<and> stop_returned t"
proof (cases "stop_returned s")
  case True
  then have "stopped s" using gpu_reachable_inv [OF assms(1)] by (simp add: gpu_inv_def)
  then show ?thesis using gpu_stopped_exit [OF _ assms(2)] True by blast
next
  case False
  let ?u = "s\<lparr>stopped := True, stop_returned := True\<rparr>"
  have su: "gpu_step s ?u" using False by (rule gpu_step.stop_call)
  obtain t where "gpu_step\<^sup>*\<^sup>* ?u t" "mpc t = MExited" "stop_returned t"
    using gpu_stopped_exit [of ?u] assms(2) by auto
  then show ?thesis using su by (blast intro: converse_rtranclp_into_rtranclp)
qed

theorem gpu_monitor_exits_witness:
  "gpu_reachable gpu_init \<and> mpc gpu_init \<noteq> MCrashed \<and>
   (\<exists>t. gpu_step\<^sup>*\<^sup>* gpu_init t \<and> mpc t = MExited \<and> stop_returned t)"
  using gpu_monitor_exits [OF gpu_reachable.init] gpu_reachable.init by (simp add: gpu_init_def)

end
