(* ===== verification/Profiler.thy ===== *)
theory Profiler
  imports Prelude
begin

text \<open>
  The \<open>profile\<close> instrument and its two profilers (\<open>src/milabench/instruments.py\<close>,
  lines 284-360).  The option \<open>--profile\<close> is a string whose default is \<open>""\<close>; the
  code treats only \<open>None\<close> as "no profiler".  \<open>wmap("compute_start", ...)\<close> runs the
  chosen profiler around every \<open>compute_start\<close> block, its results are accumulated,
  and at \<open>run_script\<close> a summary line is printed.  Of torch's profiler the model keeps
  the list of averaged events; of deepspeed's \<open>FlopsProfiler\<close> its counters, as its
  documentation describes them; what the block computes is an input.
\<close>

datatype profiler = TorchProfiler | DeepspeedProfiler

definition profile_select :: "pyval \<Rightarrow> py_error + profiler option" where
  "profile_select name =
     (if name = VNone then Inr None
      else if name = VStr ''torch'' then Inr (Some TorchProfiler)
      else if name = VStr ''deepspeed'' then Inr (Some DeepspeedProfiler)
      else Inl (NotImplementedError (''Unknown profiler: '' @ py_str name)))"

text \<open>
  \<open>ov.given.wmap("compute_start", profile_method).give("profiler_stats")\<close>: one
  profiling session per \<open>compute_start\<close> block, each giving its statistics.
\<close>

definition profile_sessions :: "pyval \<Rightarrow> 'b list \<Rightarrow> py_error + (profiler \<times> 'b) list" where
  "profile_sessions name blocks =
     (case profile_select name of
        Inl err \<Rightarrow> Inl err
      | Inr None \<Rightarrow> Inr []
      | Inr (Some p) \<Rightarrow> Inr (map (Pair p) blocks))"

subsection \<open>The profilers\<close>

text \<open>
  \<open>_profile_with_torch_profiler\<close> (lines 306-331): the block runs inside
  \<open>torch.profiler.profile(...)\<close>; afterwards \<open>prof.key_averages()\<close> is the list of
  averaged events, known here by their \<open>flops\<close>.  The function prints the total
  flops, the number of events, the list's type and the type of its first event,
  then returns the list.  Indexing the first event raises on an empty list.
\<close>

definition torch_profile_block :: "nat list \<Rightarrow> py_error + (pyval \<times> pyval list)" where
  "torch_profile_block evts =
     (if evts = [] then Inl IndexError
      else Inr (VObj ''<class 'EventList'>'' (Some (length evts)),
                [VInt (int (sum_list evts)), VInt (int (length evts)),
                 VStr ''<class 'EventList'>'', VStr ''<class 'FunctionEventAvg'>'']))"

text \<open>
  deepspeed's \<open>FlopsProfiler\<close>, as \<open>_profile_with_deepspeed\<close> (lines 284-303) drives
  it: \<open>start_profile\<close> resets the counters and starts counting the work of the model,
  \<open>stop_profile\<close> stops counting, the \<open>get_total_*\<close> calls read the counters and the
  model's parameter count, \<open>end_profile\<close> removes the counters (they read 0 after).
\<close>

record flops_profiler =
  fp_active :: bool
  fp_flops :: nat
  fp_macs :: nat
  fp_params :: nat

definition fp_new :: "nat \<Rightarrow> flops_profiler" where
  "fp_new params = \<lparr>fp_active = False, fp_flops = 0, fp_macs = 0, fp_params = params\<rparr>"

definition fp_start :: "flops_profiler \<Rightarrow> flops_profiler" where
  "fp_start p = p\<lparr>fp_active := True, fp_flops := 0, fp_macs := 0\<rparr>"

definition fp_work :: "nat \<times> nat \<Rightarrow> flops_profiler \<Rightarrow> flops_profiler" where
  "fp_work w p = (if fp_active p then p\<lparr>fp_flops := fp_flops p + fst w, fp_macs := fp_macs p + snd w\<rparr> else p)"

definition fp_stop :: "flops_profiler \<Rightarrow> flops_profiler" where
  "fp_stop p = p\<lparr>fp_active := False\<rparr>"

definition fp_end :: "flops_profiler \<Rightarrow> flops_profiler" where
  "fp_end p = p\<lparr>fp_active := False, fp_flops := 0, fp_macs := 0\<rparr>"

text \<open>
  The generator's body: \<open>kwargs["model"]\<close> (the \<open>compute_start\<close> entry's keys), the
  profiler around the block, whose work \<open>w\<close> (flops and MACs) and model size are
  inputs; the result and the printed line.
\<close>

definition deepspeed_block ::
  "pydict \<Rightarrow> nat \<Rightarrow> nat \<times> nat \<Rightarrow> py_error + ((nat \<times> nat \<times> nat) \<times> pyval list)" where
  "deepspeed_block kwargs params w =
     (case py_get kwargs ''model'' of
        None \<Rightarrow> Inl (KeyError ''model'')
      | Some _ \<Rightarrow>
          (let prof = fp_new params;
               prof = fp_start prof;
               prof = fp_work w prof;
               prof = fp_stop prof;
               flops = fp_flops prof;
               macs = fp_macs prof;
               ps = fp_params prof;
               prof = fp_end prof
           in Inr ((flops, macs, ps), [VInt (int flops), VInt (int macs), VInt (int ps)])))"

subsection \<open>The instrument's run\<close>

text \<open>
  One \<open>compute_start\<close> block as the profilers see it: the entry's dict, the events torch
  records, the model's parameter count and the work done.
\<close>

record block_in =
  blk_entry :: pydict
  blk_events :: "nat list"
  blk_params :: nat
  blk_work :: "nat \<times> nat"

definition profile_block :: "profiler \<Rightarrow> block_in \<Rightarrow> py_error + (pyval \<times> pyval list)" where
  "profile_block p b =
     (case p of
        TorchProfiler \<Rightarrow> torch_profile_block (blk_events b)
      | DeepspeedProfiler \<Rightarrow>
          map_sum id (\<lambda>((f, m, n), out). (VTuple [VInt (int f), VInt (int m), VInt (int n)], out))
            (deepspeed_block (blk_entry b) (blk_params b) (blk_work b)))"

text \<open>
  \<open>wmap("compute_start", profile_method).give("profiler_stats")\<close> collected by
  \<open>ov.given["?profiler_stats"].accum()\<close>: the blocks' results in order.  An exception
  in a block propagates out of the give that closed it and ends the run.
\<close>

fun profile_results :: "profiler \<Rightarrow> block_in list \<Rightarrow> py_error + pyval list" where
  "profile_results p [] = Inr []"
| "profile_results p (b # bs) =
     (case profile_block p b of
        Inl err \<Rightarrow> Inl err
      | Inr (r, _) \<Rightarrow> map_sum id (Cons r) (profile_results p bs))"

text \<open>Python's \<open>type(x)\<close> as printed, for the results above.\<close>

fun py_type_name :: "pyval \<Rightarrow> string" where
  "py_type_name (VTuple _) = ''<class 'tuple'>''"
| "py_type_name (VObj s _) = s"
| "py_type_name _ = ''<class 'object'>''"

text \<open>
  The whole instrument (lines 340-360): the choice of profiler, the blocks, and at
  \<open>run_script\<close> the line \<open>print("Profiler results", len(...), type(...[0]) if ... else "")\<close>.
  \<open>Inr None\<close> is the instrument returning at once.
\<close>

definition profile_run :: "pyval \<Rightarrow> block_in list \<Rightarrow> py_error + pyval list option" where
  "profile_run name bs =
     (case profile_select name of
        Inl err \<Rightarrow> Inl err
      | Inr None \<Rightarrow> Inr None
      | Inr (Some p) \<Rightarrow>
          (case profile_results p bs of
             Inl err \<Rightarrow> Inl err
           | Inr rs \<Rightarrow> Inr (Some [VStr ''Profiler results'', VInt (int (length rs)),
                                   VStr (if rs = [] then [] else py_type_name (hd rs))])))"

lemma profile_results_torch:
  "profile_results TorchProfiler bs = Inl IndexError \<longleftrightarrow> (\<exists>b \<in> set bs. blk_events b = [])"
  by (induction bs) (auto simp: profile_block_def torch_profile_block_def)

lemma profile_results_length:
  "profile_results p bs = Inr rs \<Longrightarrow> length rs = length bs"
  by (induction bs arbitrary: rs) (auto split: sum.splits)

subsection \<open>Properties\<close>

text \<open>
  A chosen profiler runs once per \<open>compute_start\<close> block, not
  once per process.
\<close>

theorem profile_every_block:
  "profile_select name = Inr (Some p) \<Longrightarrow>
     profile_sessions name blocks = Inr (map (Pair p) blocks) \<and>
     length (projr (profile_sessions name blocks)) = length blocks"
  by (simp add: profile_sessions_def)

theorem profile_every_block_witness:
  "profile_select (VStr ''torch'') = Inr (Some TorchProfiler) \<and>
   profile_sessions (VStr ''torch'') [1::nat, 2, 3] =
     Inr [(TorchProfiler, 1), (TorchProfiler, 2), (TorchProfiler, 3)] \<and>
   length (projr (profile_sessions (VStr ''torch'') [1::nat, 2, 3])) = 3"
proof -
  have h: "profile_select (VStr ''torch'') = Inr (Some TorchProfiler)"
    by (simp add: profile_select_def)
  show ?thesis using h profile_every_block [OF h, of "[1::nat, 2, 3]"] by simp
qed


text \<open>
  C30 (torch_profile_empty): with the torch profiler, the instrument fails with
  \<open>IndexError\<close> exactly when some \<open>compute_start\<close> block records no event
  (\<open>type(evts[0])\<close> in the diagnostic print); otherwise it prints the number of blocks.
\<close>

theorem torch_profile_empty:
  "(profile_run (VStr ''torch'') bs = Inl IndexError \<longleftrightarrow> (\<exists>b \<in> set bs. blk_events b = [])) \<and>
   ((\<forall>b \<in> set bs. blk_events b \<noteq> []) \<longrightarrow>
      (\<exists>t. profile_run (VStr ''torch'') bs = Inr (Some [VStr ''Profiler results'', VInt (int (length bs)), VStr t])))"
proof -
  have sel: "profile_select (VStr ''torch'') = Inr (Some TorchProfiler)" by (simp add: profile_select_def)
  have ok: "\<exists>rs. profile_results TorchProfiler bs = Inr rs" if "\<forall>b \<in> set bs. blk_events b \<noteq> []"
    using that by (induction bs) (auto simp: profile_block_def torch_profile_block_def)
  show ?thesis
    using sel profile_results_torch [of bs] ok profile_results_length [of TorchProfiler bs]
    by (auto simp: profile_run_def split: sum.splits)
qed

theorem torch_profile_empty_witness:
  "profile_run (VStr ''torch'') [\<lparr>blk_entry = [], blk_events = [], blk_params = 0, blk_work = (0, 0)\<rparr>] = Inl IndexError \<and>
   (\<exists>t. profile_run (VStr ''torch'') [\<lparr>blk_entry = [], blk_events = [5, 7], blk_params = 0, blk_work = (0, 0)\<rparr>] =
      Inr (Some [VStr ''Profiler results'', VInt 1, VStr t]))"
  using torch_profile_empty [of "[\<lparr>blk_entry = [], blk_events = [], blk_params = 0, blk_work = (0, 0)\<rparr>]"]
        torch_profile_empty [of "[\<lparr>blk_entry = [], blk_events = [5, 7], blk_params = 0, blk_work = (0, 0)\<rparr>]"]
  by simp

text \<open>
  C31 (deepspeed_block_stats): \<open>_profile_with_deepspeed\<close> returns the flops and MACs of the
  profiled block and the model's parameter count (it reads the counters after
  \<open>stop_profile\<close> and before \<open>end_profile\<close> clears them), and prints them; without a
  \<open>model\<close> key in the block's entry it raises \<open>KeyError\<close>.
\<close>

theorem deepspeed_block_stats:
  "deepspeed_block kwargs n (f, m) =
     (if py_has kwargs ''model'' then Inr ((f, m, n), [VInt (int f), VInt (int m), VInt (int n)])
      else Inl (KeyError ''model''))"
  by (auto simp: deepspeed_block_def fp_new_def fp_start_def fp_work_def fp_stop_def fp_end_def
      py_has_get Let_def split: option.split)

end
