(* ===== verification/Phases.thy ===== *)
theory Phases
  imports Prelude
begin

text \<open>
  The phase lifecycle of voir's overseer (not under \<open>src/\<close>; modelled from spec
  section 4.2) and the yield points of the instruments of
  \<open>src/milabench/instruments.py\<close>.  Each instrument is a generator that suspends at
  \<open>yield ov.phases.p\<close> or \<open>yield ov.phases.p(priority)\<close>; entering phase \<open>p\<close> resumes
  every active instrument suspended at \<open>p\<close>, by ascending priority, ties in
  registration order.  A gated instrument whose flag is off is never started.
\<close>

datatype phase = ParseArgs | Init | LoadScript | RunScript | Finalize | Done

fun phase_index :: "phase \<Rightarrow> nat" where
  "phase_index ParseArgs = 0"
| "phase_index Init = 1"
| "phase_index LoadScript = 2"
| "phase_index RunScript = 3"
| "phase_index Finalize = 4"
| "phase_index Done = 5"

lemma phase_index_inj: "phase_index p = phase_index q \<Longrightarrow> p = q"
  by (cases p; cases q) simp_all

text \<open>Phases are ordered as the lifecycle visits them.\<close>

instantiation phase :: linorder
begin

definition less_eq_phase :: "phase \<Rightarrow> phase \<Rightarrow> bool" where
  "less_eq_phase p q \<longleftrightarrow> phase_index p \<le> phase_index q"

definition less_phase :: "phase \<Rightarrow> phase \<Rightarrow> bool" where
  "less_phase p q \<longleftrightarrow> phase_index p < phase_index q"

instance
  by standard (auto simp: less_eq_phase_def less_phase_def intro: phase_index_inj)

end

fun phase_succ :: "phase \<Rightarrow> phase option" where
  "phase_succ ParseArgs = Some Init"
| "phase_succ Init = Some LoadScript"
| "phase_succ LoadScript = Some RunScript"
| "phase_succ RunScript = Some Finalize"
| "phase_succ Finalize = Some Done"
| "phase_succ Done = None"

text \<open>An instrument: its name, whether it is started, and its yield points in order.\<close>

record instrument =
  i_name :: string
  i_active :: bool
  i_yields :: "(phase \<times> int) list"

record lifecycle =
  lc_phase :: "phase option"
  lc_pcs :: "nat list"
  lc_log :: "(phase \<times> nat) list"

definition lc_init :: "instrument list \<Rightarrow> lifecycle" where
  "lc_init insts = \<lparr>lc_phase = None, lc_pcs = map (\<lambda>_. 0) insts, lc_log = []\<rparr>"

text \<open>Is instrument \<open>i\<close> suspended at phase \<open>p\<close>, and with which priority?\<close>

definition waiting_at :: "phase \<Rightarrow> instrument \<Rightarrow> nat \<Rightarrow> int option" where
  "waiting_at p inst pc =
     (if i_active inst \<and> pc < length (i_yields inst) \<and> fst (i_yields inst ! pc) = p
      then Some (snd (i_yields inst ! pc)) else None)"

text \<open>The instruments resumed on entering \<open>p\<close>, as (index, priority), in resumption order.\<close>

definition resume_order :: "phase \<Rightarrow> instrument list \<Rightarrow> nat list \<Rightarrow> (nat \<times> int) list" where
  "resume_order p insts pcs =
     sort_key snd
       (List.map_filter (\<lambda>i. map_option (Pair i) (waiting_at p (insts ! i) (pcs ! i)))
          [0..<length insts])"

definition enter :: "instrument list \<Rightarrow> phase \<Rightarrow> lifecycle \<Rightarrow> lifecycle" where
  "enter insts p st =
     (let ord = resume_order p insts (lc_pcs st)
      in st\<lparr>lc_phase := Some p,
            lc_pcs := map (\<lambda>i. if i \<in> fst ` set ord then Suc (lc_pcs st ! i) else lc_pcs st ! i)
                        [0..<length (lc_pcs st)],
            lc_log := lc_log st @ map (\<lambda>(i, _). (p, i)) ord\<rparr>)"

text \<open>\<open>advance()\<close>: enter the next phase; there is none after \<open>Done\<close>.\<close>

definition advance :: "instrument list \<Rightarrow> lifecycle \<Rightarrow> py_error + lifecycle" where
  "advance insts st =
     (case lc_phase st of
        None \<Rightarrow> Inr (enter insts ParseArgs st)
      | Some p \<Rightarrow> (case phase_succ p of
                    None \<Rightarrow> Inl InvalidTransition
                  | Some q \<Rightarrow> Inr (enter insts q st)))"

fun advance_n :: "nat \<Rightarrow> instrument list \<Rightarrow> lifecycle \<Rightarrow> py_error + lifecycle" where
  "advance_n 0 insts st = Inr st"
| "advance_n (Suc n) insts st =
     (case advance insts st of Inl err \<Rightarrow> Inl err | Inr st' \<Rightarrow> advance_n n insts st')"

subsection \<open>Lemmas\<close>

lemma lc_phase_enter [simp]: "lc_phase (enter insts p st) = Some p"
  by (simp add: enter_def Let_def)

lemma length_pcs_enter [simp]: "length (lc_pcs (enter insts p st)) = length (lc_pcs st)"
  by (simp add: enter_def Let_def)

lemma map_filter_index_sorted:
  "sorted xs \<Longrightarrow> sorted (map fst (List.map_filter (\<lambda>i. map_option (Pair i) (g i)) xs))"
  by (induction xs) (auto simp: List.map_filter_def)

lemma in_map_filter_pair:
  "(i, k) \<in> set (List.map_filter (\<lambda>i. map_option (Pair i) (g i)) xs) \<longleftrightarrow> i \<in> set xs \<and> g i = Some k"
  by (induction xs) (auto simp: List.map_filter_def)

lemma set_resume_order:
  "(i, k) \<in> set (resume_order p insts pcs) \<longleftrightarrow>
     i < length insts \<and> waiting_at p (insts ! i) (pcs ! i) = Some k"
  by (simp add: resume_order_def in_map_filter_pair)

lemma inactive_not_resumed:
  "\<not> i_active (insts ! i) \<Longrightarrow> i \<notin> fst ` set (resume_order p insts pcs)"
  by (auto simp: set_resume_order waiting_at_def)

lemma enter_log_inactive:
  "\<not> i_active (insts ! i) \<Longrightarrow> i \<notin> snd ` set (lc_log st) \<Longrightarrow>
     i \<notin> snd ` set (lc_log (enter insts p st))"
  using inactive_not_resumed [of insts i p "lc_pcs st"]
  by (force simp: enter_def Let_def)

lemma advance_log_inactive:
  assumes "advance insts st = Inr st'" and "\<not> i_active (insts ! i)"
    and "i \<notin> snd ` set (lc_log st)"
  shows "i \<notin> snd ` set (lc_log st')"
proof -
  obtain p where "st' = enter insts p st"
    using assms(1) by (auto simp: advance_def split: option.splits)
  then show ?thesis using enter_log_inactive [OF assms(2,3)] by simp
qed

subsection \<open>Every instrument runs to its end\<close>

text \<open>
  An instrument's yields are well formed when their phases strictly increase: a
  generator that waited for a phase already past would never be resumed again.  Over
  well-formed instruments, after \<open>k\<close> advances each active instrument has been resumed
  once per yield whose phase is among the first \<open>k\<close>.
\<close>

definition wf_instrument :: "instrument \<Rightarrow> bool" where
  "wf_instrument inst \<longleftrightarrow> sorted_wrt (<) (map (phase_index \<circ> fst) (i_yields inst))"

definition phases_list :: "phase list" where
  "phases_list = [ParseArgs, Init, LoadScript, RunScript, Finalize, Done]"

definition pc_at :: "nat \<Rightarrow> instrument \<Rightarrow> nat" where
  "pc_at k inst =
     (if i_active inst then length (filter (\<lambda>y. phase_index (fst y) < k) (i_yields inst)) else 0)"

lemma phase_index_phases_list: "k < 6 \<Longrightarrow> phase_index (phases_list ! k) = k"
  by (simp add: phases_list_def less_Suc_eq numeral_eq_Suc nth_Cons split: nat.split)
     (auto simp: less_Suc_eq)

lemma phase_index_lt6: "phase_index p < 6"
  by (cases p) simp_all

text \<open>In a strictly increasing list, an element's position is the number of smaller ones.\<close>

lemma position_count:
  "sorted_wrt (<) (map f ys) \<Longrightarrow> j < length ys \<Longrightarrow> length (filter (\<lambda>y. f y < f (ys ! j)) ys) = j"
  for f :: "'a \<Rightarrow> nat"
proof (induction ys arbitrary: j)
  case Nil
  then show ?case by simp
next
  case (Cons y ys)
  show ?case
  proof (cases j)
    case 0
    then show ?thesis using Cons.prems by (auto simp: filter_empty_conv)
  next
    case (Suc j')
    have "f y < f (ys ! j')" using Cons.prems Suc by auto
    then show ?thesis using Cons Suc by auto
  qed
qed

lemma count_Suc:
  "length (filter (\<lambda>y. f y < Suc k) ys) = length (filter (\<lambda>y. f y < k) ys) + length (filter (\<lambda>y. f y = k) ys)"
  for f :: "'a \<Rightarrow> nat"
  by (induction ys) auto

lemma count_eq_le1:
  "sorted_wrt (<) (map f ys) \<Longrightarrow> length (filter (\<lambda>y. f y = k) ys) \<le> 1"
  for f :: "'a \<Rightarrow> nat"
  by (induction ys) (auto simp: filter_empty_conv)

text \<open>Entering phase number \<open>k\<close> resumes exactly the instruments with a yield at it.\<close>

lemma waiting_at_pc:
  assumes "wf_instrument inst" and "k < 6"
  shows "waiting_at (phases_list ! k) inst (pc_at k inst) \<noteq> None \<longleftrightarrow>
    pc_at (Suc k) inst = Suc (pc_at k inst)"
proof -
  let ?f = "phase_index \<circ> fst" and ?ys = "i_yields inst"
  have s: "sorted_wrt (<) (map ?f ?ys)" using assms(1) by (simp add: wf_instrument_def)
  have n: "phase_index (phases_list ! k) = k" using assms(2) by (rule phase_index_phases_list)
  show ?thesis
  proof (cases "i_active inst \<and> (\<exists>j < length ?ys. ?f (?ys ! j) = k)")
    case True
    then obtain j where j: "j < length ?ys" "?f (?ys ! j) = k" by blast
    have pc: "pc_at k inst = j"
      using True position_count [OF s j(1)] j(2) by (simp add: pc_at_def comp_def)
    have "?ys ! j \<in> set (filter (\<lambda>y. ?f y = k) ?ys)" using j by simp
    then have "filter (\<lambda>y. ?f y = k) ?ys \<noteq> []" by (metis empty_iff list.set(1))
    then have "length (filter (\<lambda>y. ?f y = k) ?ys) = 1"
      using count_eq_le1 [OF s, of k] by (simp add: le_Suc_eq)
    then have "pc_at (Suc k) inst = Suc (pc_at k inst)"
      using True count_Suc [of ?f k ?ys] by (simp add: pc_at_def comp_def)
    moreover have "fst (?ys ! j) = phases_list ! k"
      using j(2) n by (auto intro: phase_index_inj)
    ultimately show ?thesis using True pc j by (simp add: waiting_at_def)
  next
    case False
    have "\<not> i_active inst \<or> filter (\<lambda>y. ?f y = k) ?ys = []"
    proof (cases "i_active inst")
      case True
      have "\<not> ?f y = k" if "y \<in> set ?ys" for y
        using that False True by (metis in_set_conv_nth)
      then show ?thesis by (simp add: filter_empty_conv)
    qed simp
    then have "pc_at (Suc k) inst = pc_at k inst"
      using count_Suc [of ?f k ?ys] by (auto simp: pc_at_def comp_def)
    moreover have "waiting_at (phases_list ! k) inst (pc_at k inst) = None"
      using False n by (auto simp: waiting_at_def)
    ultimately show ?thesis by simp
  qed
qed

lemma pc_at_step:
  assumes "wf_instrument inst" and "k < 6"
  shows "pc_at (Suc k) inst =
    (if waiting_at (phases_list ! k) inst (pc_at k inst) \<noteq> None then Suc (pc_at k inst) else pc_at k inst)"
proof (cases "waiting_at (phases_list ! k) inst (pc_at k inst) \<noteq> None")
  case True
  then show ?thesis using waiting_at_pc [OF assms] by simp
next
  case False
  have "pc_at k inst \<le> pc_at (Suc k) inst"
    using count_Suc [of "phase_index \<circ> fst" k "i_yields inst"] by (simp add: pc_at_def comp_def)
  moreover have "pc_at (Suc k) inst \<le> Suc (pc_at k inst)"
    using count_Suc [of "phase_index \<circ> fst" k "i_yields inst"]
          count_eq_le1 [of "phase_index \<circ> fst" "i_yields inst" k] assms(1)
    by (simp add: pc_at_def comp_def wf_instrument_def)
  ultimately show ?thesis using False waiting_at_pc [OF assms] by (auto simp: le_Suc_eq)
qed


lemma advance_n_Suc_snoc:
  "advance_n (Suc k) insts st = (case advance_n k insts st of Inl e \<Rightarrow> Inl e | Inr st' \<Rightarrow> advance insts st')"
proof (induction k arbitrary: st)
  case 0
  then show ?case by (simp split: sum.split)
next
  case (Suc k)
  show ?case
  proof (cases "advance insts st")
    case (Inl e)
    then show ?thesis by simp
  next
    case (Inr st1)
    have "advance_n (Suc (Suc k)) insts st = advance_n (Suc k) insts st1" using Inr by simp
    also have "\<dots> = (case advance_n k insts st1 of Inl e \<Rightarrow> Inl e | Inr st' \<Rightarrow> advance insts st')"
      by (rule Suc.IH)
    finally show ?thesis using Inr by simp
  qed
qed

lemma advance_at:
  assumes "k < 6" and "lc_phase st = (if k = 0 then None else Some (phases_list ! (k - 1)))"
  shows "advance insts st = Inr (enter insts (phases_list ! k) st)"
proof -
  have "k = 0 \<or> k = 1 \<or> k = 2 \<or> k = 3 \<or> k = 4 \<or> k = 5" using assms(1) by arith
  then show ?thesis using assms(2) by (auto simp: advance_def phases_list_def)
qed

lemma enter_pcs:
  assumes "length (lc_pcs st) = length insts"
  shows "lc_pcs (enter insts p st) =
       map (\<lambda>i. if waiting_at p (insts ! i) (lc_pcs st ! i) \<noteq> None then Suc (lc_pcs st ! i) else lc_pcs st ! i)
         [0..<length insts]"
proof -
  have "i \<in> fst ` set (resume_order p insts (lc_pcs st)) \<longleftrightarrow>
      i < length insts \<and> waiting_at p (insts ! i) (lc_pcs st ! i) \<noteq> None" for i
  proof
    assume "i \<in> fst ` set (resume_order p insts (lc_pcs st))"
    then obtain k where "(i, k) \<in> set (resume_order p insts (lc_pcs st))" by force
    then show "i < length insts \<and> waiting_at p (insts ! i) (lc_pcs st ! i) \<noteq> None"
      by (simp add: set_resume_order)
  next
    assume a: "i < length insts \<and> waiting_at p (insts ! i) (lc_pcs st ! i) \<noteq> None"
    then obtain k where "waiting_at p (insts ! i) (lc_pcs st ! i) = Some k" by blast
    then have "(i, k) \<in> set (resume_order p insts (lc_pcs st))" using a by (simp add: set_resume_order)
    then show "i \<in> fst ` set (resume_order p insts (lc_pcs st))" by force
  qed
  then show ?thesis using assms by (auto simp: enter_def Let_def)
qed

lemma advance_n_pcs:
  assumes "\<forall>inst \<in> set insts. wf_instrument inst" and "k \<le> 6"
  shows "\<exists>st. advance_n k insts (lc_init insts) = Inr st \<and>
    lc_phase st = (if k = 0 then None else Some (phases_list ! (k - 1))) \<and> lc_pcs st = map (pc_at k) insts"
  using assms(2)
proof (induction k)
  case 0
  then show ?case by (simp add: lc_init_def pc_at_def)
next
  case (Suc k)
  then obtain st where r: "advance_n k insts (lc_init insts) = Inr st"
    and ph: "lc_phase st = (if k = 0 then None else Some (phases_list ! (k - 1)))"
    and pcs: "lc_pcs st = map (pc_at k) insts" by auto
  have k: "k < 6" using Suc.prems by simp
  let ?st' = "enter insts (phases_list ! k) st"
  have "lc_pcs ?st' = map (pc_at (Suc k)) insts"
  proof (rule nth_equalityI)
    show "length (lc_pcs ?st') = length (map (pc_at (Suc k)) insts)" by (simp add: pcs)
  next
    fix i assume "i < length (lc_pcs ?st')"
    then have i: "i < length insts" by (simp add: pcs)
    then have "wf_instrument (insts ! i)" using assms(1) by simp
    then show "lc_pcs ?st' ! i = map (pc_at (Suc k)) insts ! i"
      using i pc_at_step [of "insts ! i" k] k by (simp add: enter_pcs pcs)
  qed
  then show ?case
    using r advance_at [OF k ph, of insts] by (simp del: advance_n.simps add: advance_n_Suc_snoc)
qed

lemma pc_at_done: "pc_at 6 inst = (if i_active inst then length (i_yields inst) else 0)"
  using phase_index_lt6 by (simp add: pc_at_def)

lemma all_complete_gen:
  "\<forall>inst \<in> set insts. wf_instrument inst \<Longrightarrow>
     (case advance_n 6 insts (lc_init insts) of
        Inl _ \<Rightarrow> False
      | Inr st \<Rightarrow> lc_pcs st = map (\<lambda>inst. if i_active inst then length (i_yields inst) else 0) insts)"
  using advance_n_pcs [of insts 6] by (auto simp: pc_at_done)

subsection \<open>The instruments of milabench\<close>

text \<open>
  The registration of each instrument, read off its decorator and its generator:
  the flag that starts it (\<open>@gated\<close>) or none (\<open>@parametrized\<close> instruments always
  start) and its yield points with their priorities.  \<open>display\<close> does not yield: its
  whole body runs when it starts.  \<open>profile\<close> returns before its first yield when no
  profiler is selected (\<open>profiling\<close> false; the selection itself and its error are in
  \<open>Profiler\<close>).
\<close>

definition display_reg :: "bool \<Rightarrow> instrument" where
  "display_reg on = \<lparr>i_name = ''display'', i_active = on, i_yields = []\<rparr>"

definition dash_reg :: "bool \<Rightarrow> instrument" where
  "dash_reg on = \<lparr>i_name = ''dash'', i_active = on, i_yields = [(Init, 0), (Finalize, -1000)]\<rparr>"

definition stop_reg :: instrument where
  "stop_reg = \<lparr>i_name = ''stop'', i_active = True, i_yields = [(LoadScript, -100)]\<rparr>"

definition train_reg :: "bool \<Rightarrow> instrument" where
  "train_reg on = \<lparr>i_name = ''train_rate'', i_active = on, i_yields = [(LoadScript, 0)]\<rparr>"

definition loading_reg :: "bool \<Rightarrow> instrument" where
  "loading_reg on = \<lparr>i_name = ''loading_rate'', i_active = on, i_yields = [(LoadScript, 0)]\<rparr>"

definition compute_reg :: "bool \<Rightarrow> instrument" where
  "compute_reg on = \<lparr>i_name = ''compute_rate'', i_active = on, i_yields = [(LoadScript, 0)]\<rparr>"

definition gpu_reg :: "bool \<Rightarrow> instrument" where
  "gpu_reg on = \<lparr>i_name = ''profile_gpu'', i_active = on, i_yields = [(LoadScript, 0), (RunScript, 0)]\<rparr>"

definition verify_reg :: "bool \<Rightarrow> instrument" where
  "verify_reg on = \<lparr>i_name = ''verify'', i_active = on, i_yields = [(ParseArgs, 0), (Finalize, 0)]\<rparr>"

definition profile_reg :: "bool \<Rightarrow> instrument" where
  "profile_reg profiling =
     \<lparr>i_name = ''profile'', i_active = True,
      i_yields = (if profiling then [(LoadScript, 0), (RunScript, 0)] else [])\<rparr>"

text \<open>
  \<open>ov.require(dash.instrument)\<close>, ... (lines 253-256): once resumed at \<open>parse_args\<close>,
  \<open>verify\<close> starts \<open>dash\<close>, \<open>train_rate\<close>, \<open>loading_rate\<close> and \<open>compute_rate\<close>,
  bypassing their flags (\<open>.instrument\<close> is the ungated body).  Their first yields
  (\<open>init\<close>, \<open>load_script\<close>) are all after \<open>parse_args\<close>, so an instrument started
  then waits at its first yield exactly as if it had been started with the others;
  the model starts them with the others, at their registration index.
\<close>

definition verify_requires :: "nat list" where
  "verify_requires = [1, 3, 4, 5]"

definition ov_require :: "nat list \<Rightarrow> instrument list \<Rightarrow> instrument list" where
  "ov_require req insts =
     map (\<lambda>i. if i \<in> set req then (insts ! i)\<lparr>i_active := True\<rparr> else insts ! i) [0..<length insts]"

definition milabench_instruments ::
  "bool \<Rightarrow> bool \<Rightarrow> bool \<Rightarrow> bool \<Rightarrow> bool \<Rightarrow> bool \<Rightarrow> bool \<Rightarrow> bool \<Rightarrow> instrument list" where
  "milabench_instruments display dash train loading compute gpu verify profiling =
     (let insts = [display_reg display, dash_reg dash, stop_reg, train_reg train, loading_reg loading,
                   compute_reg compute, gpu_reg gpu, verify_reg verify, profile_reg profiling]
      in if verify then ov_require verify_requires insts else insts)"

lemmas milabench_regs =
  milabench_instruments_def display_reg_def dash_reg_def stop_reg_def train_reg_def loading_reg_def
  compute_reg_def gpu_reg_def verify_reg_def profile_reg_def ov_require_def verify_requires_def

lemma advance_n_log_inactive:
  "\<not> i_active (insts ! i) \<Longrightarrow> i \<notin> snd ` set (lc_log st0) \<Longrightarrow> advance_n n insts st0 = Inr st \<Longrightarrow>
     i \<notin> snd ` set (lc_log st)"
proof (induction n arbitrary: st0)
  case 0
  then show ?case by simp
next
  case (Suc n)
  then obtain st1 where a: "advance insts st0 = Inr st1" and r: "advance_n n insts st1 = Inr st"
    by (auto split: sum.splits)
  have "i \<notin> snd ` set (lc_log st1)" by (rule advance_log_inactive [OF a Suc.prems(1,2)])
  then show ?case using Suc.IH [OF Suc.prems(1)] r by blast
qed


lemma lifecycle_phases_gen:
  "(case advance_n 6 insts (lc_init insts) of Inl _ \<Rightarrow> False | Inr st \<Rightarrow> lc_phase st = Some Done) \<and>
   advance_n 7 insts (lc_init insts) = Inl InvalidTransition"
  by (simp add: numeral_eq_Suc advance_def lc_init_def)

lemma resume_order_priority_gen:
  "sorted (map snd (resume_order p insts pcs)) \<and>
   sorted (map fst (filter (\<lambda>x. snd x = k) (resume_order p insts pcs))) \<and>
   ((i, k) \<in> set (resume_order p insts pcs) \<longleftrightarrow>
      i < length insts \<and> i_active (insts ! i) \<and> pcs ! i < length (i_yields (insts ! i)) \<and>
      i_yields (insts ! i) ! (pcs ! i) = (p, k))"
proof -
  have "sorted (map fst (List.map_filter (\<lambda>i. map_option (Pair i) (waiting_at p (insts ! i) (pcs ! i)))
      [0..<length insts]))"
    by (rule map_filter_index_sorted) simp
  then have "sorted (map fst (filter (\<lambda>x. snd x = k)
      (List.map_filter (\<lambda>i. map_option (Pair i) (waiting_at p (insts ! i) (pcs ! i))) [0..<length insts])))"
    by (rule sorted_filter)
  then have s2: "sorted (map fst (filter (\<lambda>x. snd x = k) (resume_order p insts pcs)))"
    by (simp add: resume_order_def sort_key_stable)
  have s1: "sorted (map snd (resume_order p insts pcs))"
    by (simp add: resume_order_def)
  have s3: "(i, k) \<in> set (resume_order p insts pcs) \<longleftrightarrow>
      i < length insts \<and> i_active (insts ! i) \<and> pcs ! i < length (i_yields (insts ! i)) \<and>
      i_yields (insts ! i) ! (pcs ! i) = (p, k)"
    by (auto simp: set_resume_order waiting_at_def prod_eq_iff)
  show ?thesis using s1 s2 s3 by blast
qed

lemma gated_off_never_resumed_gen:
  "\<not> i_active (insts ! i) \<Longrightarrow>
     (case advance_n n insts (lc_init insts) of Inl _ \<Rightarrow> True | Inr st \<Rightarrow> i \<notin> snd ` set (lc_log st))"
  using advance_n_log_inactive [of insts i "lc_init insts" n] by (simp add: lc_init_def split: sum.split)

subsection \<open>Properties\<close>

text \<open>
  C33 (milabench_instruments_complete): whatever flags are set, a full lifecycle resumes
  every started instrument of milabench at each of its yield points, so each runs to
  the end of its generator (\<open>profile_gpu\<close>'s \<open>monitor.stop()\<close>, \<open>profile\<close>'s print and
  \<open>dash\<close>'s exit from its display all run), and resumes no instrument that was not
  started.  It holds because every instrument's yields are in lifecycle order.
\<close>

theorem milabench_instruments_complete:
  "case advance_n 6 (milabench_instruments a b c d e f g h) (lc_init (milabench_instruments a b c d e f g h)) of
     Inl _ \<Rightarrow> False
   | Inr st \<Rightarrow> lc_pcs st =
       map (\<lambda>inst. if i_active inst then length (i_yields inst) else 0) (milabench_instruments a b c d e f g h)"
  by (rule all_complete_gen) (simp add: milabench_regs Let_def wf_instrument_def)


text \<open>
  C15 (verify_requires_run): \<open>dash\<close>, \<open>train_rate\<close>, \<open>loading_rate\<close> and \<open>compute_rate\<close>
  run through all their yields when their own flag is set or when \<open>--verify\<close> is
  (\<open>ov.require\<close> starts them), and are never resumed otherwise: with \<open>--verify\<close>
  the instruments whose results it checks are always there.
\<close>

theorem verify_requires_run:
  "case advance_n 6 (milabench_instruments a b c d e f g h) (lc_init (milabench_instruments a b c d e f g h)) of
     Inl _ \<Rightarrow> False
   | Inr st \<Rightarrow>
       lc_pcs st ! 1 = (if b \<or> g then 2 else 0) \<and> lc_pcs st ! 3 = (if c \<or> g then 1 else 0) \<and>
       lc_pcs st ! 4 = (if d \<or> g then 1 else 0) \<and> lc_pcs st ! 5 = (if e \<or> g then 1 else 0)"
proof -
  define xs where "xs = milabench_instruments a b c d e f g h"
  have "\<forall>inst \<in> set xs. wf_instrument inst"
    by (simp add: xs_def milabench_regs Let_def wf_instrument_def)
  then have c: "case advance_n 6 xs (lc_init xs) of
      Inl _ \<Rightarrow> False
    | Inr st \<Rightarrow> lc_pcs st = map (\<lambda>inst. if i_active inst then length (i_yields inst) else 0) xs"
    by (rule all_complete_gen)
  have l: "length xs = 9" by (simp add: xs_def milabench_regs Let_def)
  have n: "xs ! 1 = dash_reg (b \<or> g)" "xs ! 3 = train_reg (c \<or> g)"
    "xs ! 4 = loading_reg (d \<or> g)" "xs ! 5 = compute_reg (e \<or> g)"
    by (cases g; simp add: xs_def milabench_regs Let_def)+
  show ?thesis
  proof (cases "advance_n 6 xs (lc_init xs)")
    case (Inl err)
    then show ?thesis using c by (simp del: advance_n.simps)
  next
    case (Inr st)
    then have "lc_pcs st = map (\<lambda>inst. if i_active inst then length (i_yields inst) else 0) xs"
      using c by (simp del: advance_n.simps)
    then show ?thesis using Inr l n unfolding xs_def [symmetric]
      by (simp del: advance_n.simps add: dash_reg_def train_reg_def loading_reg_def compute_reg_def)
  qed
qed

end
