(* ===== verification/Bus.thy ===== *)
theory Bus
  imports TrainRate StopControl DashFeed
begin

text \<open>
  The event bus of the spec's section 4.1 (\<open>ov.give\<close> / \<open>ov.given\<close>, voir and giving,
  not under \<open>src/\<close>).  \<open>ov.give(**d)\<close> emits the dict on the \<open>given\<close> subject, which
  calls every subscriber synchronously, in subscription order.  A subscriber may
  itself give: that dict is dispatched to all subscribers, depth first, before the
  next subscriber sees the outer one.  An exception raised in a subscriber leaves
  \<open>on_next\<close> and ends the whole \<open>give\<close> call.

  A subscriber (\<open>'s sub\<close>) maps the shared state and a dict to the new state, the
  dicts it gives in order, and the exception it raises after them, if any.  The
  dispatch is three mutually recursive functions with fuel (the nesting depth):
  \<open>None\<close> is running out of fuel, \<open>Inl\<close> an exception, \<open>Inr\<close> the final state and
  the log of every dict delivered, in delivery order (what \<open>display\<close> prints).
  The lemmas say that more fuel never changes a result, that a relation every
  subscriber respects holds across a dispatch, and that fuel above a rank that
  every nested give decreases is enough.
\<close>

type_synonym 's sub = "'s \<Rightarrow> event \<Rightarrow> 's \<times> pydict list \<times> py_error option"

text \<open>The result of a dispatch: out of fuel, an exception, or the state and the log.\<close>

type_synonym 's bus_result = "(py_error + 's \<times> event list) option"

definition bus_bind :: "(py_error + 'a) option \<Rightarrow> ('a \<Rightarrow> (py_error + 'b) option) \<Rightarrow> (py_error + 'b) option" where
  "bus_bind m f = (case m of None \<Rightarrow> None | Some (Inl err) \<Rightarrow> Some (Inl err) | Some (Inr a) \<Rightarrow> f a)"

lemma bus_bind_cong [fundef_cong]:
  "m1 = m2 \<Longrightarrow> (\<And>a. m2 = Some (Inr a) \<Longrightarrow> f1 a = f2 a) \<Longrightarrow> bus_bind m1 f1 = bus_bind m2 f2"
  by (auto simp: bus_bind_def split: option.split sum.split)

fun bus_give :: "nat \<Rightarrow> 's sub list \<Rightarrow> 's \<Rightarrow> event \<Rightarrow> 's bus_result"
and bus_notify :: "nat \<Rightarrow> 's sub list \<Rightarrow> 's sub list \<Rightarrow> 's \<Rightarrow> event \<Rightarrow> 's bus_result"
and bus_gives :: "nat \<Rightarrow> 's sub list \<Rightarrow> 's \<Rightarrow> ns \<Rightarrow> pydict list \<Rightarrow> 's bus_result" where
  "bus_give 0 subs s e = None"
| "bus_give (Suc n) subs s e =
     bus_bind (bus_notify n subs subs s e) (\<lambda>(s', l). Some (Inr (s', e # l)))"
| "bus_notify n subs [] s e = Some (Inr (s, []))"
| "bus_notify n subs (f # fs) s e =
     (case f s e of
        (s1, gs, err) \<Rightarrow>
          bus_bind (bus_gives n subs s1 (ev_time e) gs) (\<lambda>(s2, l1).
            case err of
              Some x \<Rightarrow> Some (Inl x)
            | None \<Rightarrow> bus_bind (bus_notify n subs fs s2 e) (\<lambda>(s3, l2). Some (Inr (s3, l1 @ l2)))))"
| "bus_gives n subs s t [] = Some (Inr (s, []))"
| "bus_gives n subs s t (g # gs) =
     bus_bind (bus_give n subs s \<lparr>ev_data = g, ev_time = t\<rparr>) (\<lambda>(s1, l1).
       bus_bind (bus_gives n subs s1 t gs) (\<lambda>(s2, l2). Some (Inr (s2, l1 @ l2))))"

lemma bus_bind_simps [simp]:
  "bus_bind None f = None"
  "bus_bind (Some (Inl err)) f = Some (Inl err)"
  "bus_bind (Some (Inr a)) f = f a"
  by (simp_all add: bus_bind_def)

lemma bus_bind_eq_Some_Inr:
  "bus_bind m f = Some (Inr b) \<longleftrightarrow> (\<exists>a. m = Some (Inr a) \<and> f a = Some (Inr b))"
  by (auto simp: bus_bind_def split: option.split sum.split)

lemma bus_bind_eq_None:
  "bus_bind m f = None \<longleftrightarrow> m = None \<or> (\<exists>a. m = Some (Inr a) \<and> f a = None)"
  by (auto simp: bus_bind_def split: option.split sum.split)

text \<open>A relation every subscriber's step respects holds across a whole dispatch.\<close>

definition subs_respect :: "('s \<Rightarrow> 's \<Rightarrow> bool) \<Rightarrow> 's sub list \<Rightarrow> bool" where
  "subs_respect R subs \<longleftrightarrow> (\<forall>f \<in> set subs. \<forall>s e. R s (fst (f s e)))"

lemma bus_mono:
  assumes refl: "\<And>s. R s s" and trans: "\<And>a b c. R a b \<Longrightarrow> R b c \<Longrightarrow> R a c"
  shows "subs_respect R subs \<Longrightarrow> bus_give n subs s e = Some (Inr (s', l)) \<Longrightarrow> R s s'"
    and "subs_respect R subs \<Longrightarrow> set fs \<subseteq> set subs \<Longrightarrow>
           bus_notify n subs fs s e = Some (Inr (s', l)) \<Longrightarrow> R s s'"
    and "subs_respect R subs \<Longrightarrow> bus_gives n subs s t gs = Some (Inr (s', l)) \<Longrightarrow> R s s'"
proof (induction n subs s e and n subs fs s e and n subs s t gs arbitrary: s' l and s' l and s' l
    rule: bus_give_bus_notify_bus_gives.induct)
  case (4 n subs f fs s e)
  obtain s1 gs err where f: "f s e = (s1, gs, err)" by (cases "f s e") auto
  from "4.prems"(3) f obtain s2 l1 l2 where g: "bus_gives n subs s1 (ev_time e) gs = Some (Inr (s2, l1))"
    and err: "err = None" and r: "bus_notify n subs fs s2 e = Some (Inr (s', l2))"
    by (auto simp: bus_bind_eq_Some_Inr split: option.splits)
  have "R s (fst (f s e))" using "4.prems"(1,2) unfolding subs_respect_def by simp
  then have "R s s1" using f by simp
  moreover have "R s1 s2" using "4.IH"(1) "4.prems"(1) f g by metis
  moreover have "R s2 s'" using "4.IH"(2) "4.prems"(1,2) f g err r by auto
  ultimately show ?case by (blast intro: trans)
qed (auto simp: refl bus_bind_eq_Some_Inr split: prod.splits intro: trans)

text \<open>More fuel never changes a result.\<close>

lemma bus_bind_mono:
  "bus_bind m f = Some r \<Longrightarrow> (\<And>r. m = Some r \<Longrightarrow> m' = Some r) \<Longrightarrow>
     (\<And>a r. m = Some (Inr a) \<Longrightarrow> f a = Some r \<Longrightarrow> f' a = Some r) \<Longrightarrow> bus_bind m' f' = Some r"
  by (auto simp: bus_bind_def split: option.splits sum.splits)

lemma bus_fuel_mono:
  shows "bus_give n subs s e = Some r \<Longrightarrow> bus_give (Suc n) subs s e = Some r"
    and "bus_notify n subs fs s e = Some r \<Longrightarrow> bus_notify (Suc n) subs fs s e = Some r"
    and "bus_gives n subs s t gs = Some r \<Longrightarrow> bus_gives (Suc n) subs s t gs = Some r"
proof (induction n subs s e and n subs fs s e and n subs s t gs arbitrary: r and r and r
    rule: bus_give_bus_notify_bus_gives.induct)
  case (2 n subs s e)
  then show ?case by (auto elim!: bus_bind_mono)
next
  case (4 n subs f fs s e)
  obtain s1 gs err where f: "f s e = (s1, gs, err)" by (cases "f s e") auto
  have G: "\<And>r. bus_gives n subs s1 (ev_time e) gs = Some r \<Longrightarrow>
      bus_gives (Suc n) subs s1 (ev_time e) gs = Some r"
    by (rule "4.IH"(1) [OF f [symmetric] refl])
  have N: "\<And>s2 l1 r. bus_gives n subs s1 (ev_time e) gs = Some (Inr (s2, l1)) \<Longrightarrow> err = None \<Longrightarrow>
      bus_notify n subs fs s2 e = Some r \<Longrightarrow> bus_notify (Suc n) subs fs s2 e = Some r"
    by (rule "4.IH"(2) [OF f [symmetric] refl _ refl])
  show ?case
    using "4.prems" f G N by (auto elim!: bus_bind_mono split: option.splits)
next
  case (6 n subs s t g gs)
  then show ?case by (auto elim!: bus_bind_mono split: prod.splits)
qed simp_all

lemma bus_fuel_le: "bus_give n subs s e = Some r \<Longrightarrow> n \<le> m \<Longrightarrow> bus_give m subs s e = Some r"
proof (induction m)
  case 0
  then show ?case by simp
next
  case (Suc m)
  then show ?case by (metis bus_fuel_mono(1) le_Suc_eq)
qed

text \<open>
  Enough fuel: a rank on the state and the dict that every give made by a subscriber
  decreases, in every later state, and that later states never raise.
\<close>

definition rank_ok :: "('s \<Rightarrow> 's \<Rightarrow> bool) \<Rightarrow> ('s \<Rightarrow> pydict \<Rightarrow> nat) \<Rightarrow> 's sub list \<Rightarrow> bool" where
  "rank_ok R \<mu> subs \<longleftrightarrow>
     (\<forall>f \<in> set subs. \<forall>s e. \<forall>g \<in> set (fst (snd (f s e))). \<forall>s'.
        R (fst (f s e)) s' \<longrightarrow> \<mu> s' g < \<mu> s (ev_data e)) \<and>
     (\<forall>s s' d. R s s' \<longrightarrow> \<mu> s' d \<le> \<mu> s d)"

lemma rank_okD:
  "rank_ok R \<mu> subs \<Longrightarrow> f \<in> set subs \<Longrightarrow> f s e = (s1, gs, err) \<Longrightarrow> g \<in> set gs \<Longrightarrow>
     R s1 s' \<Longrightarrow> \<mu> s' g < \<mu> s (ev_data e)"
  unfolding rank_ok_def by (metis fst_conv snd_conv)

lemma rank_ok_anti: "rank_ok R \<mu> subs \<Longrightarrow> R s s' \<Longrightarrow> \<mu> s' d \<le> \<mu> s d"
  unfolding rank_ok_def by blast

lemma subs_respectD: "subs_respect R subs \<Longrightarrow> f \<in> set subs \<Longrightarrow> f s e = (s1, gs, err) \<Longrightarrow> R s s1"
  unfolding subs_respect_def by (metis fst_conv)

lemma bus_bind_not_None: "m \<noteq> None \<Longrightarrow> (\<And>a. m = Some (Inr a) \<Longrightarrow> f a \<noteq> None) \<Longrightarrow> bus_bind m f \<noteq> None"
  by (auto simp: bus_bind_def split: option.split sum.split)

lemma bus_enough:
  assumes refl: "\<And>s. R s s" and trans: "\<And>a b c. R a b \<Longrightarrow> R b c \<Longrightarrow> R a c"
  shows "subs_respect R subs \<Longrightarrow> rank_ok R \<mu> subs \<Longrightarrow> \<mu> s (ev_data e) < n \<Longrightarrow>
           bus_give n subs s e \<noteq> None"
    and "subs_respect R subs \<Longrightarrow> rank_ok R \<mu> subs \<Longrightarrow> set fs \<subseteq> set subs \<Longrightarrow>
           \<mu> s (ev_data e) \<le> n \<Longrightarrow> bus_notify n subs fs s e \<noteq> None"
    and "subs_respect R subs \<Longrightarrow> rank_ok R \<mu> subs \<Longrightarrow>
           (\<forall>g \<in> set gs. \<forall>s'. R s s' \<longrightarrow> \<mu> s' g < n) \<Longrightarrow> bus_gives n subs s t gs \<noteq> None"
proof (induction n subs s e and n subs fs s e and n subs s t gs
    rule: bus_give_bus_notify_bus_gives.induct)
  case (2 n subs s e)
  then have "bus_notify n subs subs s e \<noteq> None" by simp
  then show ?case by (auto simp: bus_bind_def split: option.split sum.split)
next
  case (4 n subs f fs s e)
  obtain s1 gs err where f: "f s e = (s1, gs, err)" by (cases "f s e") auto
  have fin: "f \<in> set subs" using "4.prems"(3) by simp
  have R1: "R s s1" using "4.prems"(1) fin f by (rule subs_respectD)
  have "\<mu> s' g < n" if "g \<in> set gs" "R s1 s'" for g s'
    using rank_okD [OF "4.prems"(2) fin f that] "4.prems"(4) by simp
  then have "\<forall>g \<in> set gs. \<forall>s'. R s1 s' \<longrightarrow> \<mu> s' g < n" by blast
  then have G: "bus_gives n subs s1 (ev_time e) gs \<noteq> None"
    using "4.IH"(1) [OF f [symmetric] HOL.refl] "4.prems"(1,2) by blast
  have N: "bus_notify n subs fs s2 e \<noteq> None"
    if g: "bus_gives n subs s1 (ev_time e) gs = Some (Inr (s2, l1))" and err: "err = None" for s2 l1
  proof -
    have "R s1 s2" using bus_mono(3) [OF refl trans "4.prems"(1) g] .
    then have "\<mu> s2 (ev_data e) \<le> \<mu> s (ev_data e)"
      using R1 trans rank_ok_anti [OF "4.prems"(2)] by blast
    then have "\<mu> s2 (ev_data e) \<le> n" using "4.prems"(4) by simp
    then show ?thesis
      using "4.IH"(2) [OF f [symmetric] HOL.refl g HOL.refl err] "4.prems"(1-3) by auto
  qed
  show ?case
    using G N f by (auto simp: bus_bind_def split: option.split sum.split prod.split)
next
  case (6 n subs s t g gs)
  have G: "bus_give n subs s \<lparr>ev_data = g, ev_time = t\<rparr> \<noteq> None"
    using "6.IH"(1) "6.prems" refl by auto
  have N: "bus_gives n subs s1 t gs \<noteq> None"
    if "bus_give n subs s \<lparr>ev_data = g, ev_time = t\<rparr> = Some (Inr (s1, l1))" for s1 l1
  proof -
    have "R s s1" using bus_mono(1) [OF refl trans "6.prems"(1) that] .
    then have "\<forall>g' \<in> set gs. \<forall>s'. R s1 s' \<longrightarrow> \<mu> s' g' < n"
      using "6.prems"(3) trans by auto
    then show ?thesis
      using "6.IH"(2) [OF that] "6.prems"(1,2) by blast
  qed
  show ?case
    using G N by (auto simp: bus_bind_def split: option.split sum.split prod.split)
qed simp_all

end
