(* ===== verification/MilaBus.thy ===== *)
theory MilaBus
  imports Bus
begin

text \<open>
  Milabench's instruments on one bus.  The state gathers the closures of the
  instruments that subscribe to \<open>ov.given\<close> and give back: dash's \<open>out_err\<close> windows
  and table (lines 52-84), stop's counters and the values it passed to
  \<open>ov.stop\<close> (lines 92-111), and train_rate's state (lines 118-152).  Each
  subscription is one subscriber, in the order the instruments subscribe: dash at
  \<open>init\<close> (\<open>out_err\<close>, then \<open>update_with\<close>), stop at \<open>load_script\<close> with priority -100
  (the progress \<open>give()\<close>, then \<open>skip(N) >> _stop\<close>), train_rate at \<open>load_script\<close>
  (\<open>setsync\<close>, then the \<open>times\<close> pipeline).  \<open>ov.stop(v)\<close> is the host's: the
  dicts \<open>react v\<close> it gives inside the call are nested gives.  Timer flushes of
  \<open>buffer_with_time\<close> give from the timer thread (\<open>bus_timer\<close>); a run is a timeline
  of host gives and timer instants, each dispatched to the end before the next.
\<close>

record bus_state =
  b_feed :: "pyval list \<times> pyval list"
  b_dash :: dash
  b_stop :: stop_state
  b_stops :: "pyval list"
  b_train :: tr_state

text \<open>\<open>@out_err.subscribe\<close> (lines 52-56): the \<open>roll(10)\<close> windows, each joined and given as
  \<open>stdout\<close>; a join that raises ends the call after the windows before it.\<close>

definition sub_out_err :: "bus_state sub" where
  "sub_out_err s e =
     (let (fs, ws) = out_err_step (b_feed s) e; (lines, err) = map_raise py_join ws
      in (s\<lparr>b_feed := fs\<rparr>, map (\<lambda>out. [(''stdout'', VStr out)]) lines, err))"

text \<open>\<open>gv.where("!silent").subscribe(update_with)\<close> (line 84).\<close>

definition sub_update :: "bus_state sub" where
  "sub_update s e =
     (if where_not ''silent'' e then
        (case update_with (ev_data e) (b_dash s) of
           Inl err \<Rightarrow> (s, [], Some err)
         | Inr d \<Rightarrow> (s\<lparr>b_dash := d\<rparr>, [], None))
      else (s, [], None))"

text \<open>\<open>steps.map_indexed(...).give()\<close> (lines 108-110).\<close>

definition sub_progress :: "nat \<Rightarrow> bus_state sub" where
  "sub_progress n s e =
     (if is_train_rate e then
        (let mi = map_indexed_step (\<lambda>_ idx. progress_dict n idx) (progress_idx (b_stop s)) e
         in (s\<lparr>b_stop := (b_stop s)\<lparr>progress_idx := fst mi\<rparr>\<rparr>, snd mi, None))
      else (s, [], None))"

text \<open>\<open>steps.skip(stop) >> _stop\<close> (lines 95-103, 111): \<open>called\<close> is set before
  \<open>ov.stop(value)\<close> runs, so the host's gives inside the call see it set.\<close>

definition sub_skip_stop :: "(pyval \<Rightarrow> pydict list) \<Rightarrow> nat \<Rightarrow> bus_state sub" where
  "sub_skip_stop react n s e =
     (if is_train_rate e then
        (let sk = skip_step n (skip_count (b_stop s)) e;
             sc = run_op stop_call (called (b_stop s)) (map (\<lambda>x. VDict (ev_data x)) (snd sk));
             vs = [v. StopSignal v \<leftarrow> snd sc]
         in (s\<lparr>b_stop := (b_stop s)\<lparr>called := fst sc, skip_count := fst sk\<rparr>,
               b_stops := b_stops s @ vs\<rparr>,
             concat (map react vs), None))
      else (s, [], None))"

text \<open>\<open>ov.given["?use_cuda"].first_or_default(False) >> setsync\<close> (line 127).\<close>

definition sub_use_cuda :: "bus_state sub" where
  "sub_use_cuda s e = (s\<lparr>b_train := set_sync (b_train s) e\<rparr>, [], None)"

text \<open>\<open>@times.subscribe\<close> (lines 129-139): the rates of the windows due, given in order;
  a \<open>len\<close> error reaches the default \<open>on_error\<close>, which raises out of the give.\<close>

definition sub_times :: "(nat \<Rightarrow> ns) \<Rightarrow> bus_state sub" where
  "sub_times cost s e =
     (let r = tr_times cost (b_train s) (Item (ev_time e) e)
      in (s\<lparr>b_train := fst r\<rparr>, snd r, if tr_err (b_train s) = None then tr_err (fst r) else None))"

text \<open>The subscriptions of dash (\<open>--dash\<close>), stop (\<open>--stop N\<close>, none for 0) and
  train_rate (\<open>--train-rate\<close>), in subscription order.\<close>

definition milabench_subs ::
  "bool \<Rightarrow> nat \<Rightarrow> bool \<Rightarrow> (nat \<Rightarrow> ns) \<Rightarrow> (pyval \<Rightarrow> pydict list) \<Rightarrow> bus_state sub list" where
  "milabench_subs dash n train cost react =
     (if dash then [sub_out_err, sub_update] else []) @
     (if 0 < n then [sub_progress n, sub_skip_stop react n] else []) @
     (if train then [sub_use_cuda, sub_times cost] else [])"

text \<open>The timer thread of \<open>buffer_with_time(1.0)\<close> at instant \<open>t\<close>: the windows due are
  flushed and their rates given.\<close>

definition bus_timer ::
  "(nat \<Rightarrow> ns) \<Rightarrow> nat \<Rightarrow> bus_state sub list \<Rightarrow> bus_state \<Rightarrow> ns \<Rightarrow> bus_state bus_result" where
  "bus_timer cost k subs s t =
     (let r = tr_times cost (b_train s) (Tick t) in bus_gives k subs (s\<lparr>b_train := fst r\<rparr>) t (snd r))"

fun bus_input ::
  "(nat \<Rightarrow> ns) \<Rightarrow> nat \<Rightarrow> bus_state sub list \<Rightarrow> bus_state \<Rightarrow> event clock_in \<Rightarrow> bus_state bus_result" where
  "bus_input cost k subs s (Item t e) = bus_give k subs s (e\<lparr>ev_time := t\<rparr>)"
| "bus_input cost k subs s (Tick t) = bus_timer cost k subs s t"

text \<open>A run: the host's gives and timer instants, each dispatched to its end before the next.\<close>

fun bus_run ::
  "(nat \<Rightarrow> ns) \<Rightarrow> nat \<Rightarrow> bus_state sub list \<Rightarrow> bus_state \<Rightarrow> event clock_in list \<Rightarrow> bus_state bus_result" where
  "bus_run cost k subs s [] = Some (Inr (s, []))"
| "bus_run cost k subs s (x # xs) =
     bus_bind (bus_input cost k subs s x) (\<lambda>(s1, l1).
       bus_bind (bus_run cost k subs s1 xs) (\<lambda>(s2, l2). Some (Inr (s2, l1 @ l2))))"

definition bus_init :: "ns \<Rightarrow> bus_state" where
  "bus_init t0 = \<lparr>b_feed = ([], []), b_dash = dash_init, b_stop = stop_init, b_stops = [],
                  b_train = tr_init t0\<rparr>"

text \<open>The rank that bounds the nesting: a step event makes train_rate give, a train rate
  makes stop give and call \<open>ov.stop\<close> once, captured output makes dash give.\<close>

definition bus_rank :: "bus_state \<Rightarrow> pydict \<Rightarrow> nat" where
  "bus_rank s d =
     (if py_has d ''step'' \<and> py_has d ''batch'' then 3
      else if py_has d ''train_rate'' then (if called (b_stop s) then 1 else 2)
      else if py_has d ''#stdout'' \<or> py_has d ''#stderr'' then 1 else 0)"

definition stop_later :: "bus_state \<Rightarrow> bus_state \<Rightarrow> bool" where
  "stop_later s s' \<longleftrightarrow> (called (b_stop s) \<longrightarrow> called (b_stop s'))"

definition react_ok :: "(pyval \<Rightarrow> pydict list) \<Rightarrow> bool" where
  "react_ok react \<longleftrightarrow> (\<forall>v. \<forall>d \<in> set (react v). \<not> (py_has d ''step'' \<and> py_has d ''batch''))"

text \<open>Each \<open>ov.stop\<close> call sets \<open>called\<close>: one value recorded exactly when it is set.\<close>

definition stops_inv :: "bus_state \<Rightarrow> bool" where
  "stops_inv s \<longleftrightarrow> length (b_stops s) = (if called (b_stop s) then 1 else 0)"

subsection \<open>What each subscriber gives\<close>

lemma stop_call_run:
  "run_op stop_call c vs = (c \<or> vs \<noteq> [], if \<not> c \<and> vs \<noteq> [] then [StopSignal (hd vs)] else [])"
proof (induction vs arbitrary: c)
  case (Cons v vs)
  then show ?case by (cases c) (simp_all add: stop_call_def prod_eq_iff)
qed simp

lemma out_err_quiet:
  "\<not> py_has (ev_data e) ''#stdout'' \<Longrightarrow> \<not> py_has (ev_data e) ''#stderr'' \<Longrightarrow> snd (out_err_step st e) = []"
  by (simp add: out_err_step_def roll_key_def py_has_get split_def Let_def)

lemma map_raise_Nil [simp]: "map_raise f [] = ([], None)"
  by simp

lemma train_rate_flush_dict:
  "train_rate_flush sy w = Some d \<Longrightarrow> \<exists>r. d = [(''train_rate'', VFloat r), (''units'', VStr ''items/s'')]"
  by (auto simp: train_rate_flush_def Let_def split: if_splits)

lemma flush_windows_dicts:
  "d \<in> set (snd (flush_windows cost cu k ws)) \<Longrightarrow>
     \<exists>r. d = [(''train_rate'', VFloat r), (''units'', VStr ''items/s'')]"
  by (induction ws arbitrary: k)
    (auto simp: Let_def dest: train_rate_flush_dict train_rate_flush_dict [OF sym] split: option.splits)

lemma tr_times_dicts:
  "d \<in> set (snd (tr_times cost st x)) \<Longrightarrow>
     (\<exists>r. d = [(''train_rate'', VFloat r), (''units'', VStr ''items/s'')]) \<and>
     (\<forall>t e. x = Item t e \<longrightarrow> where_keys [''step'', ''batch''] e)"
  by (cases x) (auto simp: tr_flush_def Let_def dest: flush_windows_dicts
      split: if_splits sum.splits option.splits)

subsection \<open>The rank decreases on every nested give\<close>

lemma bus_rank_small [simp]:
  "bus_rank s [(''stdout'', VStr out)] = 0"
  "bus_rank s (progress_dict n i) = 0"
  "bus_rank s [(''train_rate'', VFloat r), (''units'', VStr u)] \<le> 2"
  by (simp_all add: bus_rank_def progress_dict_def)

lemma bus_rank_react: "\<not> (py_has d ''step'' \<and> py_has d ''batch'') \<Longrightarrow> called (b_stop s) \<Longrightarrow> bus_rank s d \<le> 1"
  by (simp add: bus_rank_def)

lemma bus_rank_antitone: "stop_later s s' \<Longrightarrow> bus_rank s' d \<le> bus_rank s d"
  by (auto simp: bus_rank_def stop_later_def)

lemma bus_rank_train_rate: "is_train_rate e \<Longrightarrow> 1 \<le> bus_rank s (ev_data e)"
  by (simp add: bus_rank_def is_train_rate_def where_keys_def)

lemma sub_called [simp]:
  "b_stop (fst (sub_out_err s e)) = b_stop s"
  "b_stop (fst (sub_update s e)) = b_stop s"
  "called (b_stop (fst (sub_progress n s e))) = called (b_stop s)"
  "b_stop (fst (sub_use_cuda s e)) = b_stop s"
  "b_stop (fst (sub_times cost s e)) = b_stop s"
  by (simp_all add: sub_out_err_def sub_update_def sub_progress_def sub_use_cuda_def sub_times_def
      split_def Let_def split: sum.split)

lemma sub_skip_stop_called:
  "called (b_stop (fst (sub_skip_stop react n s e))) =
     (called (b_stop s) \<or> (is_train_rate e \<and> n \<le> skip_count (b_stop s)))"
  by (simp add: sub_skip_stop_def skip_step_def stop_call_run Let_def)

lemma sub_skip_stop_gives:
  "g \<in> set (fst (snd (sub_skip_stop react n s e))) \<Longrightarrow>
     is_train_rate e \<and> \<not> called (b_stop s) \<and> called (b_stop (fst (sub_skip_stop react n s e))) \<and>
     (\<exists>v. g \<in> set (react v))"
  by (auto simp: sub_skip_stop_def skip_step_def stop_call_run Let_def split: if_splits)

lemma milabench_subs_respect: "subs_respect stop_later (milabench_subs dash n train cost react)"
  by (auto simp: subs_respect_def milabench_subs_def stop_later_def sub_skip_stop_called)

lemma rank_out_err:
  "g \<in> set (fst (snd (sub_out_err s e))) \<Longrightarrow> bus_rank s' g < bus_rank s (ev_data e)"
proof -
  assume g: "g \<in> set (fst (snd (sub_out_err s e)))"
  obtain fs ws where o: "out_err_step (b_feed s) e = (fs, ws)" by (cases "out_err_step (b_feed s) e")
  have "ws \<noteq> []" using g o by (auto simp: sub_out_err_def split: prod.splits)
  then have "py_has (ev_data e) ''#stdout'' \<or> py_has (ev_data e) ''#stderr''"
    using out_err_quiet [of e "b_feed s"] o by auto
  moreover have "\<exists>out. g = [(''stdout'', VStr out)]"
    using g o by (auto simp: sub_out_err_def split: prod.splits)
  ultimately show ?thesis by (auto simp: bus_rank_def)
qed

lemma rank_progress:
  "g \<in> set (fst (snd (sub_progress n s e))) \<Longrightarrow> bus_rank s' g < bus_rank s (ev_data e)"
  by (auto simp: sub_progress_def map_indexed_step_def Let_def dest: bus_rank_train_rate [of e s]
      split: if_splits)

lemma rank_skip_stop:
  assumes "react_ok react" and g: "g \<in> set (fst (snd (sub_skip_stop react n s e)))"
    and later: "stop_later (fst (sub_skip_stop react n s e)) s'"
  shows "bus_rank s' g < bus_rank s (ev_data e)"
proof -
  from sub_skip_stop_gives [OF g] obtain v where tr: "is_train_rate e" and nc: "\<not> called (b_stop s)"
    and c1: "called (b_stop (fst (sub_skip_stop react n s e)))" and gv: "g \<in> set (react v)"
    by blast
  have "\<not> (py_has g ''step'' \<and> py_has g ''batch'')" using assms(1) gv by (auto simp: react_ok_def)
  moreover have "called (b_stop s')" using later c1 by (simp add: stop_later_def)
  ultimately have "bus_rank s' g \<le> 1" by (rule bus_rank_react)
  moreover have "2 \<le> bus_rank s (ev_data e)"
    using tr nc by (simp add: bus_rank_def is_train_rate_def where_keys_def)
  ultimately show ?thesis by simp
qed

lemma rank_times:
  "g \<in> set (fst (snd (sub_times cost s e))) \<Longrightarrow> bus_rank s' g < bus_rank s (ev_data e)"
  using tr_times_dicts [of g cost "b_train s" "Item (ev_time e) e"]
  by (auto simp: sub_times_def Let_def bus_rank_def where_keys_def)

lemma sub_silent [simp]:
  "fst (snd (sub_update s e)) = []" "fst (snd (sub_use_cuda s e)) = []"
  by (simp_all add: sub_update_def sub_use_cuda_def split: sum.split)

lemma milabench_rank_ok:
  "react_ok react \<Longrightarrow> rank_ok stop_later bus_rank (milabench_subs dash n train cost react)"
  unfolding rank_ok_def
  by (auto simp: milabench_subs_def bus_rank_antitone
      dest: rank_out_err rank_progress rank_skip_stop rank_times split: if_splits)

lemma bus_rank_le3: "bus_rank s d \<le> 3"
  by (simp add: bus_rank_def)

lemma stop_later_refl: "stop_later s s" and stop_later_trans: "stop_later a b \<Longrightarrow> stop_later b c \<Longrightarrow> stop_later a c"
  by (simp_all add: stop_later_def)

lemma bus_run_mono:
  assumes refl: "\<And>s. R s s" and trans: "\<And>a b c. R a b \<Longrightarrow> R b c \<Longrightarrow> R a c"
    and subs: "subs_respect R subs" and timer: "\<And>s tr. R s (s\<lparr>b_train := tr\<rparr>)"
  shows "bus_run cost k subs s xs = Some (Inr (s', l)) \<Longrightarrow> R s s'"
proof (induction xs arbitrary: s l)
  case Nil
  then show ?case by (simp add: refl)
next
  case (Cons x xs)
  from Cons.prems obtain s1 l1 l2 where i: "bus_input cost k subs s x = Some (Inr (s1, l1))"
    and r: "bus_run cost k subs s1 xs = Some (Inr (s', l2))"
    by (auto simp: bus_bind_eq_Some_Inr)
  have "R s s1"
  proof (cases x)
    case (Item t e)
    then show ?thesis using i bus_mono(1) [OF refl trans subs] by (simp del: bus_give.simps)
  next
    case (Tick t)
    let ?s0 = "s\<lparr>b_train := fst (tr_times cost (b_train s) (Tick t))\<rparr>"
    have "bus_gives k subs ?s0 t (snd (tr_times cost (b_train s) (Tick t))) = Some (Inr (s1, l1))"
      using i Tick by (simp add: bus_timer_def Let_def)
    note m = bus_mono(3) [OF refl trans subs this]
    then have "R ?s0 s1" .
    then show ?thesis using timer [of s] by (rule trans [rotated])
  qed
  then show ?case using Cons.IH [OF r] trans by blast
qed

lemma bus_run_returns:
  assumes "react_ok react"
  shows "bus_run cost 4 (milabench_subs dash n train cost react) s xs \<noteq> None"
proof (induction xs arbitrary: s)
  case (Cons x xs)
  let ?subs = "milabench_subs dash n train cost react"
  note en = bus_enough [OF stop_later_refl stop_later_trans milabench_subs_respect
      milabench_rank_ok [OF assms]]
  have "bus_input cost 4 ?subs s x \<noteq> None"
  proof (cases x)
    case (Item t e)
    have "bus_rank s (ev_data (e\<lparr>ev_time := t\<rparr>)) < 4"
      using bus_rank_le3 [where s = s and d = "ev_data e"] by simp
    then show ?thesis using Item en(1) by (simp del: bus_give.simps)
  next
    case (Tick t)
    have "bus_rank s' g < 4" if g: "g \<in> set (snd (tr_times cost (b_train s) (Tick t)))" for g s'
    proof -
      obtain r where "g = [(''train_rate'', VFloat r), (''units'', VStr ''items/s'')]"
        using tr_times_dicts [OF g] by blast
      then have "bus_rank s' g \<le> 2" by simp
      then show ?thesis by simp
    qed
    then show ?thesis using Tick en(3) by (simp add: bus_timer_def Let_def)
  qed
  moreover have "bus_bind (bus_run cost 4 ?subs s1 xs) (\<lambda>(s2, l2). Some (Inr (s2, l1 @ l2))) \<noteq> None"
    for s1 l1
    using Cons.IH [of s1] by (rule bus_bind_not_None) (simp split: prod.split)
  ultimately show ?case
    by (simp only: bus_run.simps) (rule bus_bind_not_None, simp_all split: prod.split)
qed simp

lemma bus_run_fuel_Suc:
  "bus_run cost k subs s xs = Some r \<Longrightarrow> bus_run cost (Suc k) subs s xs = Some r"
proof (induction xs arbitrary: s r)
  case (Cons x xs)
  have i: "bus_input cost (Suc k) subs s x = Some r'" if "bus_input cost k subs s x = Some r'" for r'
    using that by (cases x) (auto simp: bus_timer_def Let_def simp del: bus_give.simps
        intro: bus_fuel_mono(1,3))
  show ?case
    using Cons.prems by (auto elim!: bus_bind_mono intro: i Cons.IH split: prod.splits)
qed simp

lemma bus_run_fuel_le:
  "bus_run cost k subs s xs = Some r \<Longrightarrow> k \<le> m \<Longrightarrow> bus_run cost m subs s xs = Some r"
proof (induction m)
  case 0
  then show ?case by simp
next
  case (Suc m)
  then show ?case by (metis bus_run_fuel_Suc le_Suc_eq)
qed

subsection \<open>ov.stop is called at most once\<close>

lemma sub_stops [simp]:
  "b_stops (fst (sub_out_err s e)) = b_stops s"
  "b_stops (fst (sub_update s e)) = b_stops s"
  "b_stops (fst (sub_progress n s e)) = b_stops s"
  "b_stops (fst (sub_use_cuda s e)) = b_stops s"
  "b_stops (fst (sub_times cost s e)) = b_stops s"
  by (simp_all add: sub_out_err_def sub_update_def sub_progress_def sub_use_cuda_def sub_times_def
      split_def Let_def split: sum.split)

lemma sub_skip_stop_stops:
  "stops_inv s \<Longrightarrow> stops_inv (fst (sub_skip_stop react n s e))"
  by (auto simp: stops_inv_def sub_skip_stop_def skip_step_def stop_call_run Let_def)

lemma sub_stops_inv [simp]:
  "stops_inv (fst (sub_out_err s e)) = stops_inv s"
  "stops_inv (fst (sub_update s e)) = stops_inv s"
  "stops_inv (fst (sub_progress n s e)) = stops_inv s"
  "stops_inv (fst (sub_use_cuda s e)) = stops_inv s"
  "stops_inv (fst (sub_times cost s e)) = stops_inv s"
  by (simp_all add: stops_inv_def)

lemma milabench_subs_stops:
  "subs_respect (\<lambda>s s'. stops_inv s \<longrightarrow> stops_inv s') (milabench_subs dash n train cost react)"
  by (auto simp: subs_respect_def milabench_subs_def sub_skip_stop_stops)

lemma bus_run_stops:
  "bus_run cost k (milabench_subs dash n train cost react) s xs = Some (Inr (s', l)) \<Longrightarrow>
     stops_inv s \<Longrightarrow> stops_inv s'"
  using bus_run_mono [where R = "\<lambda>s s'. stops_inv s \<longrightarrow> stops_inv s'", OF _ _ milabench_subs_stops]
  by (simp add: stops_inv_def)

subsection \<open>The dash's subscriptions on the bus\<close>

lemma dash_subs: "milabench_subs True 0 False cost react = [sub_out_err, sub_update]"
  by (simp add: milabench_subs_def)

lemma sub_out_err_stdout:
  "sub_out_err s \<lparr>ev_data = [(''stdout'', VStr out)], ev_time = t\<rparr> = (s, [], None)"
  by (simp add: sub_out_err_def out_err_step_def roll_key_def)

lemma sub_update_stdout:
  "sub_update s \<lparr>ev_data = [(''stdout'', VStr out)], ev_time = t\<rparr> =
     (case update_with [(''stdout'', VStr out)] (b_dash s) of
        Inl err \<Rightarrow> (s, [], Some err) | Inr d \<Rightarrow> (s\<lparr>b_dash := d\<rparr>, [], None))"
  by (simp add: sub_update_def where_not_def)

lemma bus_gives_stdout:
  "bus_gives (Suc k) [sub_out_err, sub_update] s t (map (\<lambda>out. [(''stdout'', VStr out)]) lines) =
     (case give_stdout (map (\<lambda>out. [VStr out]) lines) (b_dash s) of
        Inl err \<Rightarrow> Some (Inl err)
      | Inr d \<Rightarrow> Some (Inr (s\<lparr>b_dash := d\<rparr>,
                              map (\<lambda>out. \<lparr>ev_data = [(''stdout'', VStr out)], ev_time = t\<rparr>) lines)))"
proof (induction lines arbitrary: s)
  case Nil
  then show ?case by simp
next
  case (Cons out lines)
  then show ?case
    by (simp add: sub_out_err_stdout sub_update_stdout split: sum.split)
qed

lemma give_stdout_joined:
  "give_stdout ws d =
     (case give_stdout (map (\<lambda>out. [VStr out]) (fst (map_raise py_join ws))) d of
        Inl err \<Rightarrow> Inl err
      | Inr d' \<Rightarrow> (case snd (map_raise py_join ws) of Some x \<Rightarrow> Inl x | None \<Rightarrow> Inr d'))"
  by (induction ws d rule: give_stdout.induct) (auto simp: Let_def split: sum.split)


subsection \<open>Properties\<close>

text \<open>
  C5 (milabench_bus_returns): whatever the flags, the \<open>--stop\<close> count, the sync costs,
  the starting state and the timeline, every give and every timer flush of a run
  returns (with an exception or a state) when the host's gives inside \<open>ov.stop\<close>
  carry no \<open>step\<close>/\<open>batch\<close> pair: synchronous dispatch nests at most four deep,
  and more depth changes nothing.
\<close>

theorem milabench_bus_returns:
  assumes "react_ok react"
  shows "\<exists>r. bus_run cost 4 (milabench_subs dash n train cost react) s xs = Some r \<and>
           (\<forall>k \<ge> 4. bus_run cost k (milabench_subs dash n train cost react) s xs = Some r)"
  using bus_run_returns [OF assms, of cost dash n train s xs] bus_run_fuel_le by blast

theorem milabench_bus_returns_witness:
  "react_ok (\<lambda>_. [[(''train_rate'', VFloat 5)]]) \<and>
   (\<exists>r. bus_run (\<lambda>_. 0) 4 (milabench_subs True 1 True (\<lambda>_. 0) (\<lambda>_. [[(''train_rate'', VFloat 5)]])) (bus_init 0) [Item 0 \<lparr>ev_data = [(''step'', VInt 0), (''batch'', VList [VInt 1, VInt 2])], ev_time = 0\<rparr>,
      Item 500000000 \<lparr>ev_data = [(''step'', VInt 1), (''batch'', VList [VInt 1, VInt 2])], ev_time = 0\<rparr>,
      Item 1000000000 \<lparr>ev_data = [(''step'', VInt 2), (''batch'', VList [VInt 1, VInt 2])], ev_time = 0\<rparr>,
      Item 2000000000 \<lparr>ev_data = [(''step'', VInt 3), (''batch'', VList [VInt 1, VInt 2])], ev_time = 0\<rparr>] = Some r)"
proof -
  have ok: "react_ok (\<lambda>_. [[(''train_rate'', VFloat 5)]])" by (simp add: react_ok_def)
  show ?thesis
    using milabench_bus_returns [OF ok, of "\<lambda>_. 0" True 1 True "bus_init 0" "[Item 0 \<lparr>ev_data = [(''step'', VInt 0), (''batch'', VList [VInt 1, VInt 2])], ev_time = 0\<rparr>,
      Item 500000000 \<lparr>ev_data = [(''step'', VInt 1), (''batch'', VList [VInt 1, VInt 2])], ev_time = 0\<rparr>,
      Item 1000000000 \<lparr>ev_data = [(''step'', VInt 2), (''batch'', VList [VInt 1, VInt 2])], ev_time = 0\<rparr>,
      Item 2000000000 \<lparr>ev_data = [(''step'', VInt 3), (''batch'', VList [VInt 1, VInt 2])], ev_time = 0\<rparr>]"] ok by blast
qed

text \<open>
  C6 (ov_stop_once_bus): over any run of the whole bus from the start, with any host
  reaction to \<open>ov.stop\<close> (re-entrant train rates included), \<open>ov.stop\<close> is called
  once if the \<open>called\<close> flag is set at the end and never otherwise.
\<close>

theorem ov_stop_once_bus:
  "case bus_run cost k (milabench_subs dash n train cost react) (bus_init t0) xs of
     Some (Inr (s', l)) \<Rightarrow> length (b_stops s') = (if called (b_stop s') then 1 else 0)
   | _ \<Rightarrow> True"
proof (cases "bus_run cost k (milabench_subs dash n train cost react) (bus_init t0) xs")
  case (Some r)
  have init: "stops_inv (bus_init t0)" by (simp add: stops_inv_def bus_init_def stop_init_def)
  show ?thesis
  proof (cases r)
    case (Inr p)
    obtain s' l where "p = (s', l)" by (cases p)
    then have "stops_inv s'" using Some Inr bus_run_stops [OF _ init] by simp
    then show ?thesis using Some Inr \<open>p = (s', l)\<close> by (simp add: stops_inv_def)
  qed (simp add: Some)
qed simp

text \<open>
  C7 (dash_bus_refines): dispatched by the bus, the dash's two subscriptions (the
  \<open>stdout\<close> gives of \<open>out_err\<close> delivered back to \<open>update_with\<close>, then the event
  itself) have exactly the effect of \<open>dash_event\<close>, the dash model of
  \<open>DashFeed\<close>, errors included.
\<close>

theorem dash_bus_refines:
  "map_option (map_sum id (\<lambda>(s', l). (b_feed s', b_dash s')))
     (bus_give (Suc (Suc k)) (milabench_subs True 0 False cost react) s e) =
   Some (dash_event (b_feed s, b_dash s) e)"
proof -
  obtain fs ws where o: "out_err_step (b_feed s) e = (fs, ws)" by (cases "out_err_step (b_feed s) e")
  obtain lines err where j: "map_raise py_join ws = (lines, err)" by (cases "map_raise py_join ws")
  have "sub_out_err s e = (s\<lparr>b_feed := fs\<rparr>, map (\<lambda>out. [(''stdout'', VStr out)]) lines, err)"
    using o j by (simp add: sub_out_err_def)
  then show ?thesis
    using o j give_stdout_joined [of ws "b_dash s"]
    by (simp add: dash_subs dash_event_def bus_gives_stdout sub_update_def
        split: sum.split option.split)
qed

end
