(* ===== verification/Spec2Isabelle.thy ===== *)
theory Spec2Isabelle
  imports TrainRate StopControl Dashboard DashFeed Render Verify SpanRates GPUMonitor Profiler Phases MilaBus
begin

text \<open>
  \<^bold>\<open>Verification development of milabench's instruments.\<close>

  \<^emph>\<open>The program.\<close>  \<open>src/milabench/instruments.py\<close> defines the voir instruments that
  milabench attaches to a benchmark: each is a generator that suspends at phases of
  the overseer (\<open>yield ov.phases.load_script\<close>) and, when resumed, subscribes to the
  stream of given events (\<open>ov.given\<close>), builds a reactive pipeline and gives derived
  values back on the bus (\<open>ov.give\<close>).  The overseer, the bus and the operators
  (voir, giving, rx) are not part of \<open>src/\<close>; they are modelled from the spec.

  \<^emph>\<open>Theories and what they model.\<close>
  \<^item> \<open>Prelude\<close>: Python values (\<open>pyval\<close>), the exceptions the code raises
    (\<open>py_error\<close>), \<open>len\<close>, \<open><\<close>, truthiness, \<open>str\<close> on the values rendered, dict lookup
    on an insertion-ordered association list, the \<open>event\<close> record of a give (dict and
    processing time in nanoseconds), sliding windows (\<open>lastn\<close>), \<open>mean\<close>, adjacent
    pairs and the shared list lemmas.
  \<^item> \<open>Streams\<close> (spec section 4.4): each operator is a transducer, a step from its
    state and one element to its new state and outputs, run over the observed
    prefix by \<open>run_op\<close>: \<open>where\<close>, \<open>getitem\<close>, \<open>pairwise\<close>, \<open>roll\<close>,
    \<open>average(scan)\<close>, \<open>throttle\<close>, \<open>skip\<close>, \<open>map_indexed\<close>, \<open>buffer_with_time\<close>
    (a timeline of elements and timer readings, flushed at every deadline), a
    \<open>map\<close> whose function raises (\<open>map_raise\<close>: the error ends the pipeline), and
    the reductions \<open>first\<close>, \<open>last\<close>, \<open>first_or_default\<close>, \<open>is_empty\<close>.
  \<^item> \<open>TrainRate\<close> (lines 114-152): samples, the \<open>pairwise().buffer_with_time(1.0)\<close>
    pipeline (\<open>train_rate_run\<close>), the flush subscriber (\<open>train_rate_flush\<close>) with the
    optional CUDA synchronisation cost, and \<open>setsync\<close> (\<open>train_rate_sync\<close>);
    then the whole instrument event by event (\<open>train_rate_on\<close> over a \<open>tr_state\<close>
    record): the \<open>use_cuda\<close> subscription (\<open>set_sync\<close>), the \<open>times\<close> pipeline
    (\<open>tr_times\<close>), one \<open>synchronize()\<close> call per flushed window whose duration is
    an input (\<open>flush_windows\<close>), and the error that ends the pipeline.
  \<^item> \<open>StopControl\<close> (lines 92-111): the \<open>called\<close> flag (\<open>stop_call\<close>), the two
    subscriptions on \<open>train_rate\<close> (\<open>stop_event\<close>), the host's re-entrant
    \<open>train_rate\<close> inside \<open>ov.stop\<close> (\<open>stop_run\<close>, with the reaction as a parameter),
    and the option check (\<open>stop_setup\<close>).
  \<^item> \<open>Dashboard\<close> (lines 17-89): the \<open>rows\<close> dict and the table as a list of keys
    (\<open>dash\<close>), \<open>update_with\<close> with its progress-bar and plain branches.
  \<^item> \<open>DashFeed\<close> (lines 12-14, 52-56, 85): the dash's subscription to the bus: the
    \<open>stdout\<close>/\<open>stderr\<close> \<open>roll(10)\<close> windows merged and given back joined as
    \<open>stdout\<close> (\<open>out_err_step\<close>, \<open>give_stdout\<close>), then \<open>update_with\<close> of the event
    (\<open>dash_event\<close>, run over the bus by \<open>dash_run\<close>); and \<open>display\<close>.
  \<^item> \<open>PyFormat\<close>: Python's \<open>str.format\<close> with positional arguments, one pass as
    CPython reads it (escapes, automatic and manual fields, their errors in reading
    order); \<open>Render\<close> (lines 17-23): \<open>Plain.__rich__\<close> on it.
  \<^item> \<open>Observables\<close>: \<open>first\<close>, \<open>last\<close>, the merge \<open>|\<close>, \<open>pairwise\<close> and \<open>map\<close> at the
    level of RxPY's notifications (values, error, completion).
  \<^item> \<open>Verify\<close> (lines 250-281): the loss checks and the presence checks as
    reductions of the completed event stream (\<open>verify_results\<close>); verify's observers
    event by event and at completion (\<open>verify_event\<close>, \<open>verify_complete\<close>,
    \<open>verify_run\<close>): the \<open>initial_loss\<close> give and the \<open>True\<close> presence checks
    sent at the first matching event, the rest at completion, where an error raised
    by one observer (no loss: \<open>first()\<close> fails) ends the completion; the loss
    checks also as chains of notification operators (\<open>loss_decreases_obs\<close>,
    \<open>loss_below_obs\<close>).
  \<^item> \<open>SpanRates\<close> (lines 155-220): \<open>_timing\<close> of both instruments, the loader
    classification, and the two pipelines \<open>loading_rate_run\<close>/\<open>compute_rate_run\<close>
    sharing \<open>smooth_rates\<close> (\<open>average(scan=5).throttle(1)\<close>).
  \<^item> \<open>GPUMonitor\<close> (lines 223-247): the monitor thread and \<open>stop()\<close> as an
    inductive step relation (\<open>gpu_step\<close>) interleaving both threads, reachable
    states and the invariant \<open>gpu_inv\<close> by rule induction; \<open>mon_rank\<close>, the
    measure that decreases on every step once the flag is set.
  \<^item> \<open>Profiler\<close> (lines 284-360): both profilers' generator bodies (deepspeed's
    \<open>FlopsProfiler\<close> counters as its documentation describes them, torch's averaged
    events as an input), the choice of profiler, one session per \<open>compute_start\<close>
    block, and the summary printed at \<open>run_script\<close> (\<open>profile_run\<close>).
  \<^item> \<open>Phases\<close> (spec section 4.2 and every \<open>yield\<close> of the source): phases as a
    \<open>linorder\<close>, \<open>advance\<close>, resumption by ascending priority with ties in
    registration order, each instrument's registration (\<open>display_reg\<close>,
    \<open>dash_reg\<close>, ..., \<open>profile_reg\<close>: its gate and its yields with their
    priorities), verify's \<open>ov.require\<close> of dash and the three rate instruments
    (\<open>ov_require\<close>, \<open>verify_requires\<close>), the table \<open>milabench_instruments\<close> of
    all nine in declaration order, and the count of yields each instrument has passed
    after \<open>k\<close> advances (\<open>pc_at\<close>).
  \<^item> \<open>Bus\<close> (spec section 4.1): \<open>ov.give\<close> on the \<open>given\<close> subject as synchronous,
    depth-first dispatch to the subscribers in subscription order, a subscriber's own
    gives nested inside it and its exception ending the call (\<open>bus_give\<close>,
    \<open>bus_notify\<close>, \<open>bus_gives\<close>, with fuel for the nesting depth).
  \<^item> \<open>MilaBus\<close>: milabench's subscriptions on one bus (\<open>milabench_subs\<close>): dash's
    \<open>out_err\<close> and \<open>update_with\<close> (lines 52-56, 84), stop's progress give and
    \<open>skip(N) >> _stop\<close> with the host's gives inside \<open>ov.stop\<close> (lines 95-111),
    train_rate's \<open>setsync\<close> and \<open>times\<close> subscriber (lines 127-152), the timer's
    flushes (\<open>bus_timer\<close>) and runs over a timeline (\<open>bus_run\<close>).
  \<^item> This theory: \<open>send_all\<close>, the successive \<open>... >> ov.send\<close> calls, and the
    properties that span components: verify's results, the train rate and stop's
    progress shown by the dashboard.

  \<^emph>\<open>What the lemmas show.\<close>  Functional behaviour of each handler on every branch
  (rates, loss checks, table updates, rendering, profilers), the error paths as
  \<open>Inl\<close> values (zero-length spans, missing batches anywhere in the run, verify's
  raise at completion without a loss, an empty torch profile, braces in units, the
  only two ways the dash's subscription fails), invariants (the table, the stop
  counter, the monitor, the dash's typed state), the refinement of the train-rate
  pipeline against the adjacent pairs of the samples and of the event-by-event
  instrument against that pipeline (one sync call per window, the first
  \<open>use_cuda\<close> value deciding), the equivalence of verify's
  notification pipelines with the reductions, verify's checks reaching the
  dashboard when its run does not raise, single-fire of the stop signal under any
  re-entrant host reaction (and no signal with \<open>--stop 0\<close>), the one-second spacing, window means and count bound
  of the span rates, termination and exit of the monitor after \<open>stop()\<close>, the
  lifecycle running every started instrument to its end (those verify requires
  included, whatever their own flags), and the round
  trip of stop's progress dict through the dashboard; on the composed bus, that every
  give returns within four nested levels, that \<open>ov.stop\<close> is
  called at most once whatever the host gives inside it, and that the dash's
  subscriptions dispatched by the bus have the effect of the \<open>DashFeed\<close> model.

  \<^emph>\<open>Bounds and fuel.\<close>  The bus dispatch takes fuel, the depth of nested gives:
  four is enough for milabench's subscriptions (a rank that every nested give
  decreases is at most three, \<open>bus_rank\<close>) and more fuel gives the same result.
  The bound counts windows flushed on an event's arrival inside that event's
  dispatch, where the timer thread would give them at top level, so it is an upper
  bound for the code, not an exact depth.  Every other loop of the model is structural
  recursion, except the flush loop of \<open>buffer_with_time\<close>, a \<open>function\<close> whose
  measure is the distance to the processing time (deadlines advance by \<open>d > 0\<close>), and
  the scan of \<open>str.format\<close>, a \<open>function\<close> measured by the text left and the mode.
  The monitor's unbounded loop is a step relation, not a function; after \<open>stop()\<close>
  it ends within three steps (\<open>mon_rank\<close> is at most 3).  The lifecycle has six
  phases, so six advances reach \<open>Done\<close>.  Times are nanosecond \<open>int\<close>s, as
  \<open>time.time_ns()\<close> returns; Python floats are idealised as reals.

  \<^emph>\<open>Not modelled.\<close>  rich's drawing of the table, \<open>Live\<close> and \<open>ProgressBar\<close>, and the
  text \<open>trepr\<close> gives an object (an input of \<open>Render\<close>); what torch and deepspeed
  measure (inputs of \<open>Profiler\<close>); format specs and conversions in \<open>str.format\<close>
  fields; \<open>GPUtil\<close> itself (only the success or failure of a poll); the layout of
  giving's \<open>display\<close>; process teardown; the bus's per-channel lock between
  threads (the timer thread's flushes are interleaved at whole dispatches); and
  float rounding.  The duration of each
  \<open>torch.cuda.synchronize()\<close> call is an input of the train-rate model.
\<close>

subsection \<open>Verify's results on the dashboard\<close>

text \<open>\<open>... >> ov.send\<close>: with \<open>dash\<close> active, \<open>ov.send\<close> is \<open>update_with\<close>; each send
  runs in turn, and an exception in one ends the sequence.\<close>

fun send_all :: "pydict list \<Rightarrow> dash \<Rightarrow> py_error + dash" where
  "send_all [] st = Inr st"
| "send_all (d # ds) st = (case update_with d st of Inl err \<Rightarrow> Inl err | Inr st' \<Rightarrow> send_all ds st')"

lemma send_all_singles:
  assumes "distinct (map fst kvs)" and "\<forall>(k, v) \<in> set kvs. \<not> reserved_key k"
    and "\<forall>(k, v) \<in> set kvs. \<forall>a b. rows st k \<noteq> Some (RowBar a b)"
  shows "\<exists>st'. send_all (map (\<lambda>kv. [kv]) kvs) st = Inr st' \<and> (dash_inv st \<longrightarrow> dash_inv st') \<and>
    (\<forall>n. n \<notin> fst ` set kvs \<longrightarrow> rows st' n = rows st n) \<and>
    (\<forall>(k, v) \<in> set kvs. \<exists>f. rows st' k = Some (RowPlain v f))"
  using assms
proof (induction kvs arbitrary: st)
  case Nil
  then show ?case by simp
next
  case (Cons kv kvs)
  obtain k v where kv: "kv = (k, v)" by (cases kv)
  obtain st1 where u: "update_with [(k, v)] st = Inr st1"
    and r1: "rows st1 k = Some (RowPlain v (case rows st k of Some (RowPlain _ f) \<Rightarrow> f | _ \<Rightarrow> ''{}''))"
    and o1: "\<forall>k'. k' \<noteq> k \<longrightarrow> rows st1 k' = rows st k'"
    and i1: "dash_inv st \<longrightarrow> dash_inv st1"
    using update_with_single [of k st v] Cons.prems kv by auto
  have nk: "k \<notin> fst ` set kvs" using Cons.prems(1) kv by simp
  have nb: "\<forall>(k', v') \<in> set kvs. \<forall>a b. rows st1 k' \<noteq> Some (RowBar a b)"
  proof (intro ballI)
    fix x assume x: "x \<in> set kvs"
    then have "fst x \<noteq> k" using nk by force
    then show "case x of (k', v') \<Rightarrow> \<forall>a b. rows st1 k' \<noteq> Some (RowBar a b)"
      using Cons.prems(3) x o1 by (cases x) auto
  qed
  obtain st' where s: "send_all (map (\<lambda>kv. [kv]) kvs) st1 = Inr st'"
    and i': "dash_inv st1 \<longrightarrow> dash_inv st'"
    and o': "\<forall>n. n \<notin> fst ` set kvs \<longrightarrow> rows st' n = rows st1 n"
    and r': "\<forall>(k, v) \<in> set kvs. \<exists>f. rows st' k = Some (RowPlain v f)"
    using Cons.IH [OF _ _ nb] Cons.prems kv by auto
  have "\<exists>f. rows st' k = Some (RowPlain v f)" using nk o' r1 by simp
  moreover have "send_all (map (\<lambda>kv. [kv]) (kv # kvs)) st = Inr st'" using u s kv by simp
  moreover have "\<forall>n. n \<notin> fst ` set (kv # kvs) \<longrightarrow> rows st' n = rows st n" using o' o1 kv by simp
  ultimately show ?case using i' i1 r' kv by auto
qed

subsection \<open>Properties\<close>

text \<open>
  C13 (verify_on_dashboard): when verify's run completes without raising, every one of
  its five checks reaches the dashboard through \<open>ov.send\<close>: each send succeeds, the
  row named after each check shows its boolean, and the table invariant is kept.
  The dashboard may hold progress bars, as it does in \<open>--stop\<close> runs: they sit
  under \<open>\[...]\<close> keys, never under a \<open>verify.\<close> name.
\<close>

theorem verify_on_dashboard:
  assumes "dash_inv st" and "bar_keys st" and "snd (verify_run evs) = None"
  shows "\<exists>st'. send_all (verify_sends evs) st = Inr st' \<and> dash_inv st' \<and>
    (\<forall>(name, r) \<in> set (verify_results evs). \<exists>b. r = Inr b \<and>
        (\<exists>f. rows st' name = Some (RowPlain (VBool b) f)))"
proof -
  obtain kvs where s: "verify_sends evs = map (\<lambda>kv. [kv]) kvs" and d: "distinct (map fst kvs)"
    and sk: "set kvs = {(name, VBool b) | name b. (name, Inr b) \<in> set (verify_results evs)}"
    and ok: "\<forall>(name, r) \<in> set (verify_results evs). \<exists>b. r = Inr b"
    using verify_sends_ok [OF assms(3)] by blast
  have "\<forall>(name, r) \<in> set (verify_results evs). take 1 name = ''v''"
    by (simp add: verify_results_def verify_fields_def)
  then have names: "\<forall>(k, v) \<in> set kvs. take 1 k = ''v''"
    using sk by blast
  have nr: "\<forall>(k, v) \<in> set kvs. \<not> reserved_key k"
    using names by (auto simp: reserved_key_def)
  have nb: "\<forall>(k, v) \<in> set kvs. \<forall>a b. rows st k \<noteq> Some (RowBar a b)"
  proof (intro ballI allI, clarify)
    fix k v a b assume "(k, v) \<in> set kvs" and bar: "rows st k = Some (RowBar a b)"
    then have "\<not> backslashed k" using names by (auto simp: backslashed_def)
    then show False using assms(2) bar by (auto simp: bar_keys_def)
  qed
  obtain st' where r: "send_all (map (\<lambda>kv. [kv]) kvs) st = Inr st'"
    and i: "dash_inv st \<longrightarrow> dash_inv st'"
    and sh: "\<forall>(k, v) \<in> set kvs. \<exists>f. rows st' k = Some (RowPlain v f)"
    using send_all_singles [OF d nr nb] by blast
  have "\<forall>(name, r) \<in> set (verify_results evs). \<exists>b. r = Inr b \<and>
      (\<exists>f. rows st' name = Some (RowPlain (VBool b) f))"
  proof (intro ballI, clarify)
    fix name r assume nr: "(name, r) \<in> set (verify_results evs)"
    then obtain b where rb: "r = Inr b" using ok by blast
    then have "(name, VBool b) \<in> set kvs" using sk nr by blast
    then have "\<exists>f. rows st' name = Some (RowPlain (VBool b) f)" using bspec [OF sh] by fastforce
    then show "\<exists>b. r = Inr b \<and> (\<exists>f. rows st' name = Some (RowPlain (VBool b) f))"
      using rb by blast
  qed
  then show ?thesis using r i assms(1) s by auto
qed

theorem verify_on_dashboard_witness:
  "dash_inv dash_init \<and> bar_keys dash_init \<and>
   snd (verify_run (loss_events [VFloat 2, VFloat 1])) = None \<and>
   (\<exists>st'. send_all (verify_sends (loss_events [VFloat 2, VFloat 1])) dash_init = Inr st' \<and>
      dash_inv st' \<and>
      (\<exists>f. rows st' ''verify.loss_decreases'' = Some (RowPlain (VBool True) f)))"
proof -
  have h: "dash_inv dash_init" "bar_keys dash_init"
    "snd (verify_run (loss_events [VFloat 2, VFloat 1])) = None"
      apply (simp add: dash_inv_def dash_init_def)
     apply (rule bar_keys_init)
    apply (simp add: verify_run_def vstate_init_def verify_event_def verify_complete_def
        loss_events_def verify_fields_def py_lt_def Let_def)
    done
  obtain st' where st': "send_all (verify_sends (loss_events [VFloat 2, VFloat 1])) dash_init = Inr st'"
    and i: "dash_inv st'"
    and r: "\<forall>(name, r) \<in> set (verify_results (loss_events [VFloat 2, VFloat 1])). \<exists>b. r = Inr b \<and>
        (\<exists>f. rows st' name = Some (RowPlain (VBool b) f))"
    using verify_on_dashboard [OF h] by blast
  have "loss_decreases (loss_events [VFloat 2, VFloat 1]) = Inr True"
    by (simp add: loss_decreases_def first_of_def last_of_def py_lt_def)
  then have "\<exists>f. rows st' ''verify.loss_decreases'' = Some (RowPlain (VBool True) f)"
    using r by (force simp: verify_results_def)
  then show ?thesis using h st' i by blast
qed

text \<open>
  C24 (train_rate_on_dashboard): the first train rate given shows in a new row
  \<open>train_rate\<close> formatted \<open>"{} items/s"\<close>, and the \<open>units\<close> key itself gets no row.
\<close>

theorem train_rate_on_dashboard:
  assumes "train_rate_flush sync elems = Some d" and "rows st ''train_rate'' = None"
    and "rows st ''units'' = None"
  shows "\<exists>st' r. update_with d st = Inr st' \<and> py_get d ''train_rate'' = Some (VFloat r) \<and>
    rows st' ''train_rate'' = Some (RowPlain (VFloat r) ''{} items/s'') \<and>
    rows st' ''units'' = None \<and> table st' = table st @ [''train_rate'']"
proof -
  obtain r where d: "d = [(''train_rate'', VFloat r), (''units'', VStr ''items/s'')]"
    using assms(1) by (auto simp: train_rate_flush_def Let_def split: if_splits)
  then show ?thesis
    using assms(2,3)
    by (simp add: update_with_def is_progress_def reserved_key_def plain_fmt_def)
qed

theorem train_rate_on_dashboard_witness:
  "train_rate_flush None (adjacent [\<lparr>s_time = 0, s_batch_size = 5\<rparr>, \<lparr>s_time = 1000000000, s_batch_size = 5\<rparr>])
     = Some [(''train_rate'', VFloat 5), (''units'', VStr ''items/s'')] \<and>
   rows dash_init ''train_rate'' = None \<and> rows dash_init ''units'' = None \<and>
   (\<exists>st' r. update_with [(''train_rate'', VFloat 5), (''units'', VStr ''items/s'')] dash_init = Inr st' \<and>
     py_get [(''train_rate'', VFloat 5), (''units'', VStr ''items/s'')] ''train_rate'' = Some (VFloat r) \<and>
     rows st' ''train_rate'' = Some (RowPlain (VFloat r) ''{} items/s'') \<and>
     rows st' ''units'' = None \<and> table st' = table dash_init @ [''train_rate''])"
proof -
  have h: "train_rate_flush None (adjacent [\<lparr>s_time = 0, s_batch_size = 5\<rparr>, \<lparr>s_time = 1000000000, s_batch_size = 5\<rparr>])
     = Some [(''train_rate'', VFloat 5), (''units'', VStr ''items/s'')]"
    "rows dash_init ''train_rate'' = None" "rows dash_init ''units'' = None"
    by (simp_all add: train_rate_flush_def dash_init_def)
  show ?thesis using h train_rate_on_dashboard [OF h] by blast
qed


text \<open>
  C34 (stop_progress_on_dash): the progress dict that \<open>stop\<close> gives for a train rate
  (\<open>{"progress": idx, "total": N, "descr": "train"}\<close>) is read back by \<open>dash\<close> as the
  bar keyed \<open>\[train]\<close> showing exactly \<open>idx\<close> of \<open>N\<close>, unless a plain row already holds
  that key: what one instrument encodes, the other decodes.
\<close>

theorem stop_progress_on_dash:
  assumes "\<forall>a f. rows st (bar_key (VStr ''train'')) \<noteq> Some (RowPlain a f)"
  shows "\<exists>st'. update_with (progress_dict tot idx) st = Inr st' \<and>
    rows st' (bar_key (VStr ''train'')) = Some (RowBar (VInt (int tot)) (VInt (int idx)))"
proof (cases "rows st (bar_key (VStr ''train''))")
  case None
  then show ?thesis
    by (simp add: update_with_def is_progress_def progress_dict_def update_bar_def Let_def)
next
  case (Some r)
  then show ?thesis using assms
    by (cases r) (simp_all add: update_with_def is_progress_def progress_dict_def update_bar_def Let_def)
qed

theorem stop_progress_on_dash_witness:
  "(\<forall>a f. rows dash_init (bar_key (VStr ''train'')) \<noteq> Some (RowPlain a f)) \<and>
   (\<exists>st'. update_with (progress_dict 3 1) dash_init = Inr st' \<and>
      rows st' (bar_key (VStr ''train'')) = Some (RowBar (VInt 3) (VInt 1)))"
proof -
  have h: "\<forall>a f. rows dash_init (bar_key (VStr ''train'')) \<noteq> Some (RowPlain a f)"
    by (simp add: dash_init_def)
  show ?thesis using h stop_progress_on_dash [OF h, of 3 1] by simp
qed

end
